(* ===== verification/CDN_Prelude.thy ===== *)
theory CDN_Prelude
  imports Main "HOL-Library.Word"
begin

text \<open>
  Vocabulary shared by every component of the CDN service: Go's \<open>error\<close> values
  with wrapping (\<open>fmt.Errorf("...%w", err)\<close>) and \<open>errors.Is\<close>, results of
  fallible calls, byte strings, readers, and the generic list facts the
  components use.  A Go \<open>string\<close> is a list of bytes; an Isabelle \<open>char\<close> is a
  byte, so \<open>string\<close> is used as it is.
\<close>

named_theorems gostr \<open>equations that evaluate the string functions of the Go library\<close>
named_theorems tier_defs \<open>definitions of the archive and tiering operations\<close>
named_theorems counter_simps \<open>how the sweep and copy counters move\<close>

type_synonym bytes = "8 word list"

section \<open>Errors\<close>

text \<open>
  The sentinels of \<open>service/archive.go\<close>, \<open>service/principal.go\<close>, \<open>service/cache.go\<close>,
  \<open>handler/bucket_context.go\<close> and \<open>pkg/bucket/name.go\<close>, the two S3 error types
  \<open>isNotFound\<close> recognises, \<open>redis.Nil\<close> of the Redis client, \<open>context.Canceled\<close>, a plain error carrying a message,
  an error wrapping another one, and a run-time panic (a nil dereference), which
  the model returns as an error value of its own.
\<close>

datatype gerror =
    ErrArchiveDisabled
  | ErrArchiveNotFound
  | ErrArchiveNotInScope
  | ErrArchiveDestinationPerBucket
  | ErrNoToken
  | ErrInvalidAuthFormat
  | ErrInvalidToken
  | ErrBucketForbidden
  | ErrInvalidName
  | ErrCacheMiss
  | RedisNil
  | S3NotFound
  | S3NoSuchKey
  | ContextCanceled
  | ErrorString string
  | Wrapf string gerror
  | RuntimePanic string

text \<open>\<open>errors.Is(err, target)\<close>: the error itself or anything it wraps.\<close>

fun errors_is :: "gerror \<Rightarrow> gerror \<Rightarrow> bool" where
  "errors_is (Wrapf msg e) target = (Wrapf msg e = target \<or> errors_is e target)"
| "errors_is e target = (e = target)"

lemma errors_is_refl [simp]: "errors_is e e"
  by (cases e) simp_all

lemma errors_is_wrap [simp]: "errors_is e t \<Longrightarrow> errors_is (Wrapf m e) t"
  by simp

section \<open>Results and readers\<close>

text \<open>A fallible call returns \<open>Inl err\<close> or \<open>Inr value\<close>.\<close>

type_synonym 'a result = "gerror + 'a"

text \<open>
  An \<open>io.Reader\<close> positioned at its start: the bytes it will deliver, and the
  error it reports after them (\<open>None\<close> for \<open>io.EOF\<close>).
\<close>

record reader =
  rd_data :: bytes
  rd_fail :: "gerror option"

abbreviation whole :: "bytes \<Rightarrow> reader" where
  "whole b \<equiv> \<lparr>rd_data = b, rd_fail = None\<rparr>"

section \<open>Generic facts on lists and options\<close>

lemma filter_length_split:
  "length (filter P xs) + length (filter (\<lambda>x. \<not> P x) xs) = length xs"
  by (induction xs) auto

lemma dropWhile_append_all:
  "(\<And>x. x \<in> set xs \<Longrightarrow> P x) \<Longrightarrow> dropWhile P (xs @ ys) = dropWhile P ys"
  by (induction xs) auto

lemma set_dropWhile_subset: "set (dropWhile P xs) \<subseteq> set xs"
  by (auto dest: set_dropWhileD)

lemma append_sep_inject:
  assumes "c \<notin> set xs" and "c \<notin> set ys" and "xs @ c # us = ys @ c # vs"
  shows "xs = ys \<and> us = vs"
  using assms
proof (induction xs arbitrary: ys)
  case Nil
  then show ?case by (cases ys) auto
next
  case (Cons x xs)
  then show ?case by (cases ys) auto
qed

section \<open>Signed reading of words\<close>

lemma sint_word_of_int_in: "- (2 ^ 63) \<le> x \<Longrightarrow> x < 2 ^ 63 \<Longrightarrow> sint (word_of_int x :: 64 word) = x"
  by (simp add: sint_sbintrunc' signed_take_bit_int_eq_self)

lemma sint_word_of_int_over:
  assumes "2 ^ 63 \<le> x" and "x < 2 ^ 64"
  shows "sint (word_of_int x :: 64 word) = x - 2 ^ 64"
proof -
  have "take_bit 64 x = take_bit 64 (x - 2 ^ 64)" by (simp add: take_bit_eq_mod)
  then have "(word_of_int x :: 64 word) = word_of_int (x - 2 ^ 64)"
    by (simp add: word_of_int_eq_iff del: of_int_diff)
  with assms sint_word_of_int_in [of "x - 2 ^ 64"] show ?thesis by (simp del: of_int_diff)
qed

lemma sint_small:
  assumes "unat (x :: 'a::len word) < 2 ^ (LENGTH('a) - 1)"
  shows "sint x = int (unat x)"
proof -
  have u: "uint x = int (unat x)" by simp
  have "int (unat x) < int (2 ^ (LENGTH('a) - 1))" using assms by (simp only: of_nat_less_iff)
  then have "uint x < 2 ^ (LENGTH('a) - Suc 0)" unfolding u by (simp only: of_nat_power of_nat_numeral One_nat_def)
  moreover have "- (2 ^ (LENGTH('a) - Suc 0)) \<le> uint x" by (rule order_trans [OF _ uint_ge_0]) simp
  ultimately have "signed_take_bit (LENGTH('a) - Suc 0) (uint x) = uint x" by (intro signed_take_bit_int_eq_self)
  then show ?thesis by (simp add: sint_uint)
qed

end
