(* ===== verification/Go_Strings.thy ===== *)
theory Go_Strings
  imports CDN_Prelude
begin

text \<open>
  The functions of Go's \<open>strings\<close>, \<open>strconv\<close> and \<open>unicode/utf8\<close> packages that the
  service calls, on byte strings: \<open>HasPrefix\<close>, \<open>TrimPrefix\<close>, \<open>TrimSpace\<close>, \<open>Trim\<close>,
  \<open>Split\<close>, \<open>Cut\<close>, \<open>ToLower\<close>, \<open>Atoi\<close>, \<open>ParseBool\<close>, and the rune decoding done by
  \<open>for _, r := range s\<close>.
\<close>

section \<open>Prefixes and suffixes\<close>

definition HasPrefix :: "'a list \<Rightarrow> 'a list \<Rightarrow> bool" where
  "HasPrefix s p \<longleftrightarrow> take (length p) s = p"

definition TrimPrefix :: "string \<Rightarrow> string \<Rightarrow> string" where
  "TrimPrefix s p = (if HasPrefix s p then drop (length p) s else s)"

definition HasSuffix :: "'a list \<Rightarrow> 'a list \<Rightarrow> bool" where
  "HasSuffix s p \<longleftrightarrow> HasPrefix (rev s) (rev p)"

definition TrimSuffix :: "string \<Rightarrow> string \<Rightarrow> string" where
  "TrimSuffix s p = (if HasSuffix s p then take (length s - length p) s else s)"

lemma HasPrefix_append [simp]: "HasPrefix (p @ s) p"
  by (simp add: HasPrefix_def)

lemma HasPrefix_self [simp]: "HasPrefix p p"
  by (simp add: HasPrefix_def)

lemma TrimPrefix_self [simp]: "TrimPrefix p p = []"
  by (simp add: TrimPrefix_def)

lemma HasPrefix_Nil [simp]: "HasPrefix s []"
  by (simp add: HasPrefix_def)

lemma HasPrefix_iff: "HasPrefix s p \<longleftrightarrow> (\<exists>t. s = p @ t)"
  unfolding HasPrefix_def by (metis append_eq_conv_conj append_take_drop_id)

lemma HasPrefix_Cons [simp]: "HasPrefix (x # s) (y # p) \<longleftrightarrow> x = y \<and> HasPrefix s p"
  by (auto simp: HasPrefix_def)

lemma HasPrefix_Nil_left [simp]: "HasPrefix [] (y # p) \<longleftrightarrow> False"
  by (simp add: HasPrefix_def)

lemma TrimPrefix_append [simp]: "TrimPrefix (p @ s) p = s"
  by (simp add: TrimPrefix_def)

lemma TrimPrefix_Nil [simp]: "TrimPrefix s [] = s"
  by (simp add: TrimPrefix_def)

section \<open>Trimming\<close>

text \<open>
  \<open>unicode.IsSpace\<close>, as the UTF-8 encodings of its runes: the ASCII ones, U+0085,
  U+00A0, U+1680, U+2000 to U+200A, U+2028, U+2029, U+202F, U+205F and U+3000.
\<close>

definition space_encodings :: "string list" where
  "space_encodings =
     [[CHR 0x09], [CHR 0x0A], [CHR 0x0B], [CHR 0x0C], [CHR 0x0D], [CHR 0x20],
      [CHR 0xC2, CHR 0x85], [CHR 0xC2, CHR 0xA0], [CHR 0xE1, CHR 0x9A, CHR 0x80],
      [CHR 0xE2, CHR 0x80, CHR 0x80], [CHR 0xE2, CHR 0x80, CHR 0x81], [CHR 0xE2, CHR 0x80, CHR 0x82],
      [CHR 0xE2, CHR 0x80, CHR 0x83], [CHR 0xE2, CHR 0x80, CHR 0x84], [CHR 0xE2, CHR 0x80, CHR 0x85],
      [CHR 0xE2, CHR 0x80, CHR 0x86], [CHR 0xE2, CHR 0x80, CHR 0x87], [CHR 0xE2, CHR 0x80, CHR 0x88],
      [CHR 0xE2, CHR 0x80, CHR 0x89], [CHR 0xE2, CHR 0x80, CHR 0x8A], [CHR 0xE2, CHR 0x80, CHR 0xA8],
      [CHR 0xE2, CHR 0x80, CHR 0xA9], [CHR 0xE2, CHR 0x80, CHR 0xAF], [CHR 0xE2, CHR 0x81, CHR 0x9F],
      [CHR 0xE3, CHR 0x80, CHR 0x80]]"

text \<open>Drop leading occurrences of any of the (non-empty) strings \<open>es\<close>.\<close>

function strip_any :: "string list \<Rightarrow> string \<Rightarrow> string" where
  "strip_any es [] = []"
| "strip_any es (c # s) =
     (case filter (\<lambda>e. e \<noteq> [] \<and> HasPrefix (c # s) e) es of
        [] \<Rightarrow> c # s
      | e # _ \<Rightarrow> strip_any es (drop (length e - 1) s))"
  by pat_completeness auto
termination
  by (relation "measure (\<lambda>(es, s). length s)") auto

definition trim_left :: "string \<Rightarrow> string" where
  "trim_left s = strip_any space_encodings s"

definition trim_right :: "string \<Rightarrow> string" where
  "trim_right s = rev (strip_any (map rev space_encodings) (rev s))"

definition TrimSpace :: "string \<Rightarrow> string" where
  "TrimSpace s = trim_right (trim_left s)"

text \<open>\<open>strings.Trim\<close> with an ASCII cutset.\<close>

definition TrimSet :: "char set \<Rightarrow> string \<Rightarrow> string" where
  "TrimSet cs s = rev (dropWhile (\<lambda>c. c \<in> cs) (rev (dropWhile (\<lambda>c. c \<in> cs) s)))"

lemma strip_any_suffix: "\<exists>p. s = p @ strip_any es s"
proof (induction es s rule: strip_any.induct)
  case (1 es)
  then show ?case by simp
next
  case (2 es c s)
  show ?case
  proof (cases "filter (\<lambda>e. e \<noteq> [] \<and> HasPrefix (c # s) e) es")
    case Nil
    then show ?thesis by simp
  next
    case (Cons e fs)
    from "2"[OF Cons] obtain p where p: "drop (length e - 1) s = p @ strip_any es (drop (length e - 1) s)"
      by blast
    have "c # s = (c # take (length e - 1) s @ p) @ strip_any es (drop (length e - 1) s)"
      using p append_take_drop_id [of "length e - 1" s] by simp
    moreover have "strip_any es (c # s) = strip_any es (drop (length e - 1) s)"
      using Cons by simp
    ultimately show ?thesis by metis
  qed
qed

text \<open>A string that starts and ends with a printable ASCII character is left alone.\<close>

definition printable :: "char \<Rightarrow> bool" where
  "printable c \<longleftrightarrow> (let n = of_char c :: nat in 33 \<le> n \<and> n \<le> 126)"

lemma strip_any_id:
  assumes "\<forall>e\<in>set es. e \<noteq> [] \<longrightarrow> \<not> printable (hd e)" and "printable c"
  shows "strip_any es (c # s) = c # s"
proof -
  have "filter (\<lambda>e. e \<noteq> [] \<and> HasPrefix (c # s) e) es = []"
    using assms by (auto simp: filter_empty_conv neq_Nil_conv)
  then show ?thesis by simp
qed

lemma space_encodings_ends:
  "\<forall>e\<in>set space_encodings. e \<noteq> [] \<longrightarrow> \<not> printable (hd e)"
  "\<forall>e\<in>set (map rev space_encodings). e \<noteq> [] \<longrightarrow> \<not> printable (hd e)"
  by (simp_all add: space_encodings_def printable_def)

lemma TrimSpace_Nil [simp, gostr]: "TrimSpace [] = []"
  by (simp add: TrimSpace_def trim_left_def trim_right_def)

lemma TrimSpace_printable [gostr]:
  assumes "printable c" and "printable (last (c # s))"
  shows "TrimSpace (c # s) = c # s"
proof -
  have "trim_left (c # s) = c # s"
    unfolding trim_left_def by (rule strip_any_id [OF space_encodings_ends(1) assms(1)])
  moreover obtain d t where d: "rev (c # s) = d # t" by (cases "rev (c # s)") auto
  then have "printable d" using assms(2) by (metis hd_rev list.sel(1))
  then have "strip_any (map rev space_encodings) (rev (c # s)) = rev (c # s)"
    unfolding d by (rule strip_any_id [OF space_encodings_ends(2)])
  ultimately show ?thesis by (simp add: TrimSpace_def trim_right_def)
qed

text \<open>The white space of HTTP around a printable word is trimmed away.\<close>

definition http_space :: "char set" where
  "http_space = {CHR 0x09, CHR 0x0A, CHR 0x0C, CHR 0x0D, CHR 0x20}"

lemma http_space_encodings:
  "list_all (\<lambda>c. filter (\<lambda>e. hd e = c) space_encodings = [[c]] \<and> filter (\<lambda>e. hd e = c) (map rev space_encodings) = [[c]])
     [CHR 0x09, CHR 0x0A, CHR 0x0C, CHR 0x0D, CHR 0x20]"
  by code_simp

lemma strip_one:
  assumes "filter (\<lambda>e. hd e = c) es = [[c]]"
  shows "strip_any es (c # s) = strip_any es s"
proof -
  have "filter (\<lambda>e. e \<noteq> [] \<and> HasPrefix (c # s) e) es =
      filter (\<lambda>e. e \<noteq> [] \<and> HasPrefix (c # s) e) (filter (\<lambda>e. hd e = c) es)"
    unfolding filter_filter by (rule filter_cong) (auto simp: neq_Nil_conv)
  also have "\<dots> = [[c]]" unfolding assms by simp
  finally show ?thesis by simp
qed

lemma strip_http_space:
  assumes "set ws \<subseteq> http_space"
  shows "strip_any space_encodings (ws @ s) = strip_any space_encodings s"
    and "strip_any (map rev space_encodings) (ws @ s) = strip_any (map rev space_encodings) s"
proof -
  have c: "filter (\<lambda>e. hd e = c) space_encodings = [[c]]" "filter (\<lambda>e. hd e = c) (map rev space_encodings) = [[c]]" if "c \<in> http_space" for c
  proof -
    have "c \<in> set [CHR 0x09, CHR 0x0A, CHR 0x0C, CHR 0x0D, CHR 0x20]" using that by (simp add: http_space_def)
    then show "filter (\<lambda>e. hd e = c) space_encodings = [[c]]" "filter (\<lambda>e. hd e = c) (map rev space_encodings) = [[c]]"
      using http_space_encodings unfolding list_all_iff by blast+
  qed
  show "strip_any space_encodings (ws @ s) = strip_any space_encodings s"
    using assms by (induction ws) (simp_all add: strip_one [OF c(1)] del: strip_any.simps)
  show "strip_any (map rev space_encodings) (ws @ s) = strip_any (map rev space_encodings) s"
    using assms by (induction ws) (simp_all add: strip_one [OF c(2)] del: strip_any.simps list.map)
qed

lemma TrimSpace_around:
  assumes "set before \<subseteq> http_space" and "set behind \<subseteq> http_space" and "s = c # s'" and "printable c" and "printable (last s)"
  shows "TrimSpace (before @ s @ behind) = s"
proof -
  have "trim_left (before @ s @ behind) = s @ behind"
    unfolding trim_left_def strip_http_space(1) [OF assms(1)]
    using strip_any_id [OF space_encodings_ends(1) assms(4), of "s' @ behind"] assms(3) by simp
  moreover obtain d t where d: "rev s = d # t" using assms(3) by (cases "rev s") auto
  then have "printable d" using assms(5) by (metis rev_rev_ident last_snoc rev.simps(2))
  then have "strip_any (map rev space_encodings) (rev s) = rev s"
    unfolding d by (rule strip_any_id [OF space_encodings_ends(2)])
  then have "trim_right (s @ behind) = s"
    using strip_http_space(2) [of "rev behind" "rev s"] assms(2) by (simp add: trim_right_def)
  ultimately show ?thesis by (simp add: TrimSpace_def)
qed

lemma set_strip_any: "set (strip_any es s) \<subseteq> set s"
  by (metis strip_any_suffix set_append Un_upper2)

lemma set_TrimSpace: "set (TrimSpace s) \<subseteq> set s"
  unfolding TrimSpace_def trim_left_def trim_right_def
  by (metis set_rev set_strip_any subset_trans)

lemma set_TrimSet: "set (TrimSet cs s) \<subseteq> set s"
  unfolding TrimSet_def by (metis set_rev set_dropWhile_subset subset_trans)

section \<open>Splitting and cutting\<close>

text \<open>\<open>strings.Split\<close> at a one-byte separator; \<open>strings.Cut\<close> at the first one.\<close>

fun split_on :: "char \<Rightarrow> string \<Rightarrow> string list" where
  "split_on c [] = [[]]"
| "split_on c (x # xs) =
     (if x = c then [] # split_on c xs
      else (case split_on c xs of [] \<Rightarrow> [[x]] | y # ys \<Rightarrow> (x # y) # ys))"

fun cut :: "char \<Rightarrow> string \<Rightarrow> (string \<times> string) option" where
  "cut c [] = None"
| "cut c (x # xs) =
     (if x = c then Some ([], xs)
      else (case cut c xs of None \<Rightarrow> None | Some (a, b) \<Rightarrow> Some (x # a, b)))"

lemma split_on_nonempty [simp]: "split_on c s \<noteq> []"
  by (induction s) (auto split: list.splits)

lemma split_on_no_sep: "seg \<in> set (split_on c s) \<Longrightarrow> c \<notin> set seg"
proof (induction s arbitrary: seg)
  case Nil
  then show ?case by simp
next
  case (Cons x xs)
  then show ?case by (cases "split_on c xs") (auto split: if_splits)
qed

lemma cut_Some: "cut c s = Some (a, b) \<longleftrightarrow> s = a @ c # b \<and> c \<notin> set a"
proof (induction s arbitrary: a b)
  case Nil
  then show ?case by simp
next
  case (Cons x xs)
  show ?case
  proof (cases "x = c")
    case True
    then show ?thesis by (cases a) auto
  next
    case False
    with Cons.IH show ?thesis
      by (cases a) (auto split: option.splits dest: append_sep_inject)
  qed
qed

lemma cut_None: "cut c s = None \<longleftrightarrow> c \<notin> set s"
  by (induction s) (auto split: option.splits)

lemma split_on_append:
  "c \<notin> set a \<Longrightarrow> split_on c (a @ c # b) = a # split_on c b"
  by (induction a) auto

lemma split_on_single: "c \<notin> set a \<Longrightarrow> split_on c a = [a]"
  by (induction a) auto

section \<open>Lower case\<close>

text \<open>
  \<open>strings.ToLower\<close> as the service uses it: the result is only ever compared with
  ASCII constants.  The two non-ASCII runes whose lower case is an ASCII letter
  (U+0130 to \<open>i\<close>, U+212A to \<open>k\<close>) are mapped; every other non-ASCII byte is kept,
  so it still differs from every ASCII constant.
\<close>

definition lower_byte :: "char \<Rightarrow> char" where
  "lower_byte c =
     (case map_of (zip ''ABCDEFGHIJKLMNOPQRSTUVWXYZ'' ''abcdefghijklmnopqrstuvwxyz'') c of
        None \<Rightarrow> c
      | Some d \<Rightarrow> d)"

fun ToLower :: "string \<Rightarrow> string" where
  "ToLower [] = []"
| "ToLower [c] = [lower_byte c]"
| "ToLower (c # d # s) =
     (if c = CHR 0xC4 \<and> d = CHR 0xB0 then CHR ''i'' # ToLower s
      else (case s of
              e # s' \<Rightarrow>
                (if c = CHR 0xE2 \<and> d = CHR 0x84 \<and> e = CHR 0xAA
                 then CHR ''k'' # ToLower s' else lower_byte c # ToLower (d # s))
            | [] \<Rightarrow> lower_byte c # ToLower (d # s)))"

lemma ToLower_ascii: "CHR 0xC4 \<notin> set s \<Longrightarrow> CHR 0xE2 \<notin> set s \<Longrightarrow> ToLower s = map lower_byte s"
proof (induction s rule: ToLower.induct)
  case (3 c d s)
  then have "c \<noteq> CHR 0xC4" "c \<noteq> CHR 0xE2" by auto
  with 3 show ?case by (cases s) simp_all
qed simp_all

lemma lower_byte_cases: "lower_byte c = c \<or> printable c \<and> printable (lower_byte c)"
  by (auto simp: lower_byte_def printable_def split: option.splits dest!: map_of_SomeD)

lemma printable_lower: "printable (lower_byte c) \<Longrightarrow> printable c"
  using lower_byte_cases [of c] by auto

lemma printable_ascii: "printable c \<Longrightarrow> c \<noteq> CHR 0xC4 \<and> c \<noteq> CHR 0xE2"
  by (auto simp: printable_def)

section \<open>strconv\<close>

definition is_digit :: "char \<Rightarrow> bool" where
  "is_digit c \<longleftrightarrow> c \<in> set ''0123456789''"

definition digit_val :: "char \<Rightarrow> int" where
  "digit_val c = int (of_char c) - 48"

definition digits_val :: "string \<Rightarrow> int" where
  "digits_val ds = foldl (\<lambda>n c. n * 10 + digit_val c) 0 ds"

text \<open>\<open>strconv.Atoi\<close> on a 64-bit platform: optional sign, decimal digits, range check.\<close>

definition Atoi :: "string \<Rightarrow> int option" where
  "Atoi s =
     (let (neg, ds) =
        (case s of
           c # cs \<Rightarrow> if c = CHR ''-'' then (True, cs) else if c = CHR ''+'' then (False, cs)
                     else (False, s)
         | [] \<Rightarrow> (False, []))
      in if ds = [] \<or> \<not> list_all is_digit ds then None
         else let v = (if neg then - digits_val ds else digits_val ds)
              in if - (2 ^ 63) \<le> v \<and> v < 2 ^ 63 then Some v else None)"

definition ParseBool :: "string \<Rightarrow> bool option" where
  "ParseBool s =
     (if s \<in> set [''1'', ''t'', ''T'', ''true'', ''TRUE'', ''True''] then Some True
      else if s \<in> set [''0'', ''f'', ''F'', ''false'', ''FALSE'', ''False''] then Some False
      else None)"

lemma Atoi_range: "Atoi s = Some v \<Longrightarrow> - (2 ^ 63) \<le> v \<and> v < 2 ^ 63"
  by (auto simp: Atoi_def Let_def split: list.splits if_splits prod.splits)

text \<open>\<open>strconv.Itoa\<close> and the verb \<open>%d\<close>.\<close>

fun decimal :: "nat \<Rightarrow> string" where
  "decimal n = (if n < 10 then [char_of (n + 48)] else decimal (n div 10) @ [char_of (n mod 10 + 48)])"

declare decimal.simps [simp del]

definition Itoa :: "int \<Rightarrow> string" where
  "Itoa n = (if n < 0 then CHR ''-'' # decimal (nat (- n)) else decimal (nat n))"

lemma decimal_cases:
  "n < 10 \<Longrightarrow> decimal n = [char_of (n + 48)]"
  "\<not> n < 10 \<Longrightarrow> decimal n = decimal (n div 10) @ [char_of (n mod 10 + 48)]"
  by (simp_all add: decimal.simps)

lemma decimal_digits: "c \<in> set (decimal n) \<Longrightarrow> is_digit c"
proof (induction n rule: decimal.induct)
  case (1 n)
  have "list_all (\<lambda>m. is_digit (char_of (m + 48 :: nat))) [0..<10]" by code_simp
  then have digit: "is_digit (char_of (m + 48))" if "m < 10" for m :: nat
    using that by (simp add: list_all_iff)
  show ?case
  proof (cases "n < 10")
    case True
    then show ?thesis using 1(2) digit [of n] by (simp add: decimal_cases)
  next
    case False
    then show ?thesis using 1 digit [of "n mod 10"] by (auto simp: decimal_cases(2) [of n])
  qed
qed

lemma decimal_inject: "decimal m = decimal n \<Longrightarrow> m = n"
proof (induction m arbitrary: n rule: decimal.induct)
  case (1 m)
  have digit: "a = b" if "char_of (a + 48) = (char_of (b + 48) :: char)" "a < 10" "b < 10" for a b :: nat
    using arg_cong [OF that(1), of "of_char :: char \<Rightarrow> nat"] that(2,3) by simp
  have ne: "decimal k \<noteq> []" for k by (cases "k < 10") (simp_all add: decimal_cases)
  consider "m < 10" "n < 10" | "m < 10" "\<not> n < 10" | "\<not> m < 10" "n < 10" | "\<not> m < 10" "\<not> n < 10" by blast
  then show ?case
  proof cases
    assume a: "m < 10" "n < 10"
    then show ?thesis using 1(2) digit [of m n] by (simp only: decimal_cases list.inject)
  next
    assume a: "m < 10" "\<not> n < 10"
    then show ?thesis using 1(2) ne [of "n div 10"] by (simp add: decimal_cases(1) [OF a(1)] decimal_cases(2) [OF a(2)])
  next
    assume a: "\<not> m < 10" "n < 10"
    then show ?thesis using 1(2) ne [of "m div 10"] by (simp add: decimal_cases(2) [OF a(1)] decimal_cases(1) [OF a(2)])
  next
    assume a: "\<not> m < 10" "\<not> n < 10"
    have eq: "decimal (m div 10) @ [char_of (m mod 10 + 48)] = decimal (n div 10) @ [char_of (n mod 10 + 48)]"
      using 1(2) unfolding decimal_cases(2) [OF a(1)] decimal_cases(2) [OF a(2)] .
    then have "decimal (m div 10) = decimal (n div 10)" by simp
    then have "m div 10 = n div 10" using 1(1) a by blast
    moreover have "m mod 10 = n mod 10" by (rule digit) (use eq in simp_all)
    ultimately show ?thesis by (metis div_mult_mod_eq)
  qed
qed

end
