(* ===== verification/Env_Config.thy ===== *)
theory Env_Config
  imports Go_Strings
begin

text \<open>
  \<open>pkg/config/config.go\<close>: the typed readers of the process environment that every
  component goes through, the \<open>Config\<close> record they fill, and its validation.
  \<open>os.Getenv\<close> answers the empty string for an unset variable, so the environment
  is a total function; Go's 64-bit \<open>time.Duration\<close> counts nanoseconds and its
  multiplication wraps.
\<close>

type_synonym env = "string \<Rightarrow> string"
type_synonym duration = "64 word"

abbreviation millisecond :: duration where "millisecond \<equiv> 1000000"
abbreviation hour :: duration where "hour \<equiv> 3600000000000"

text \<open>\<open>Time.Sub\<close> saturates at the range of a 64-bit duration.\<close>

definition time_sub :: "int \<Rightarrow> int \<Rightarrow> int" where
  "time_sub t u = max (- (2 ^ 63)) (min (2 ^ 63 - 1) (t - u))"

section \<open>Typed access to the environment\<close>

definition GetEnvOrDefault :: "env \<Rightarrow> string \<Rightarrow> string \<Rightarrow> string" where
  "GetEnvOrDefault env key d = (let value = env key in if value = '''' then d else value)"

definition GetEnvAsIntOrDefault :: "env \<Rightarrow> string \<Rightarrow> int \<Rightarrow> int" where
  "GetEnvAsIntOrDefault env key d =
     (let value = env key in
      if value = '''' then d else (case Atoi value of None \<Rightarrow> d | Some n \<Rightarrow> n))"

definition GetEnvAsBoolOrDefault :: "env \<Rightarrow> string \<Rightarrow> bool \<Rightarrow> bool" where
  "GetEnvAsBoolOrDefault env key d =
     (let value = env key in
      if value = '''' then d else (case ParseBool value of None \<Rightarrow> d | Some b \<Rightarrow> b))"

lemma GetEnvAsInt_range:
  "- (2 ^ 63) \<le> d \<Longrightarrow> d < 2 ^ 63 \<Longrightarrow>
   - (2 ^ 63) \<le> GetEnvAsIntOrDefault env key d \<and> GetEnvAsIntOrDefault env key d < 2 ^ 63"
  by (auto simp: GetEnvAsIntOrDefault_def Let_def split: option.splits dest: Atoi_range)

lemma GetEnv_unset [simp]:
  "env key = '''' \<Longrightarrow> GetEnvOrDefault env key d = d"
  "env key = '''' \<Longrightarrow> GetEnvAsIntOrDefault env key n = n"
  "env key = '''' \<Longrightarrow> GetEnvAsBoolOrDefault env key b = b"
  by (simp_all add: GetEnvOrDefault_def GetEnvAsIntOrDefault_def GetEnvAsBoolOrDefault_def)

section \<open>The configuration record\<close>

record AppConfig =
  app_Name :: string
  app_Port :: int
  app_URL :: string
  app_Token :: string

record MinioConfig =
  minio_Endpoint :: string
  minio_User :: string
  minio_Password :: string
  minio_UseSSL :: bool

record AWSConfig =
  aws_AccessKeyID :: string
  aws_SecretAccessKey :: string
  aws_SessionToken :: string
  aws_Region :: string
  aws_Bucket :: string

record RedisConfig =
  redis_URL :: string

record WorkerConfig =
  wc_PoolSize :: int
  wc_QueueSize :: int
  wc_MaxRetries :: int
  wc_RetryDelay :: duration
  wc_BatchSize :: int
  wc_FlushTimeout :: duration
  wc_MaxConcurrent :: int

record FeatureConfig =
  DisableDelete :: bool
  DisableUpload :: bool
  DisableGet :: bool

record Config =
  cfg_App :: AppConfig
  cfg_Minio :: MinioConfig
  cfg_AWS :: AWSConfig
  cfg_Redis :: RedisConfig
  cfg_Worker :: WorkerConfig
  cfg_Features :: FeatureConfig

text \<open>
  \<open>Load\<close>: \<open>godotenv.Load\<close> (a third-party package) reads \<open>.env\<close> into the process
  environment or fails; it is the parameter \<open>dotenv\<close>.
\<close>

definition Load :: "(env \<Rightarrow> env result) \<Rightarrow> env \<Rightarrow> Config result" where
  "Load dotenv env0 =
     (case dotenv env0 of
        Inl e \<Rightarrow> Inl (Wrapf ''error loading .env file'' e)
      | Inr env \<Rightarrow> Inr
          \<lparr> cfg_App = \<lparr> app_Name = GetEnvOrDefault env ''APP_NAME'' ''cdn'',
                        app_Port = GetEnvAsIntOrDefault env ''APP_PORT'' 9090,
                        app_URL = GetEnvOrDefault env ''APP_URL'' ''http://localhost:9090'',
                        app_Token = GetEnvOrDefault env ''TOKEN'' '''' \<rparr>,
            cfg_Minio = \<lparr> minio_Endpoint = GetEnvOrDefault env ''MINIO_ENDPOINT'' '''',
                          minio_User = GetEnvOrDefault env ''MINIO_ROOT_USER'' '''',
                          minio_Password = GetEnvOrDefault env ''MINIO_ROOT_PASSWORD'' '''',
                          minio_UseSSL = GetEnvAsBoolOrDefault env ''MINIO_USE_SSL'' False \<rparr>,
            cfg_AWS = \<lparr> aws_AccessKeyID = GetEnvOrDefault env ''AWS_ACCESS_KEY_ID'' '''',
                        aws_SecretAccessKey = GetEnvOrDefault env ''AWS_SECRET_ACCESS_KEY'' '''',
                        aws_SessionToken = GetEnvOrDefault env ''AWS_SESSION_TOKEN'' '''',
                        aws_Region = GetEnvOrDefault env ''AWS_REGION'' '''',
                        aws_Bucket = GetEnvOrDefault env ''AWS_BUCKET'' '''' \<rparr>,
            cfg_Redis = \<lparr> redis_URL = GetEnvOrDefault env ''REDIS_URL'' ''redis://cdn-redis:6379'' \<rparr>,
            cfg_Worker =
              \<lparr> wc_PoolSize = GetEnvAsIntOrDefault env ''WORKER_POOL_SIZE'' 5,
                wc_QueueSize = GetEnvAsIntOrDefault env ''WORKER_QUEUE_SIZE'' 10,
                wc_MaxRetries = GetEnvAsIntOrDefault env ''WORKER_MAX_RETRIES'' 3,
                wc_RetryDelay =
                  word_of_int (GetEnvAsIntOrDefault env ''WORKER_RETRY_DELAY_MS'' 1000) * millisecond,
                wc_BatchSize = GetEnvAsIntOrDefault env ''WORKER_BATCH_SIZE'' 10,
                wc_FlushTimeout =
                  word_of_int (GetEnvAsIntOrDefault env ''WORKER_FLUSH_TIMEOUT_MS'' 5000) * millisecond,
                wc_MaxConcurrent = GetEnvAsIntOrDefault env ''WORKER_MAX_CONCURRENT'' 5 \<rparr>,
            cfg_Features =
              \<lparr> DisableDelete = GetEnvAsBoolOrDefault env ''DISABLE_DELETE'' False,
                DisableUpload = GetEnvAsBoolOrDefault env ''DISABLE_UPLOAD'' False,
                DisableGet = GetEnvAsBoolOrDefault env ''DISABLE_GET'' False \<rparr> \<rparr>)"

section \<open>Validation\<close>

text \<open>\<open>if bad { errors = append(errors, msg) }\<close>, and the accumulated list of \<open>Validate\<close>.\<close>

definition check :: "bool \<Rightarrow> string \<Rightarrow> string list \<Rightarrow> string list" where
  "check bad msg errs = (if bad then errs @ [msg] else errs)"

definition validation_errors :: "Config \<Rightarrow> string list" where
  "validation_errors c =
     (let errs = [];
          errs = check (app_Port (cfg_App c) \<le> 0 \<or> app_Port (cfg_App c) > 65535)
                   ''invalid port number'' errs;
          errs = check (app_Token (cfg_App c) = '''') ''token is required'' errs;
          errs = check (minio_Endpoint (cfg_Minio c) = '''') ''MinIO endpoint is required'' errs;
          errs = check (minio_User (cfg_Minio c) = '''') ''MinIO user is required'' errs;
          errs = check (minio_Password (cfg_Minio c) = '''') ''MinIO password is required'' errs;
          errs = check (aws_AccessKeyID (cfg_AWS c) = '''') ''AWS access key ID is required'' errs;
          errs = check (aws_SecretAccessKey (cfg_AWS c) = '''')
                   ''AWS secret access key is required'' errs;
          errs = check (aws_Region (cfg_AWS c) = '''') ''AWS region is required'' errs
      in errs)"

fun join_comma :: "string list \<Rightarrow> string" where
  "join_comma [] = ''''"
| "join_comma [s] = s"
| "join_comma (s # t # ss) = s @ '', '' @ join_comma (t # ss)"

definition Validate :: "Config \<Rightarrow> gerror option" where
  "Validate c =
     (let errs = validation_errors c in
      if errs \<noteq> [] then Some (ErrorString (''configuration validation failed: '' @ join_comma errs))
      else None)"

lemma check_Nil_iff [simp]: "check bad msg errs = [] \<longleftrightarrow> \<not> bad \<and> errs = []"
  by (simp add: check_def)

text \<open>A configuration validates exactly when every mandatory field is usable.\<close>

lemma Validate_None_iff:
  "Validate c = None \<longleftrightarrow>
     0 < app_Port (cfg_App c) \<and> app_Port (cfg_App c) \<le> 65535 \<and> app_Token (cfg_App c) \<noteq> '''' \<and>
     minio_Endpoint (cfg_Minio c) \<noteq> '''' \<and> minio_User (cfg_Minio c) \<noteq> '''' \<and>
     minio_Password (cfg_Minio c) \<noteq> '''' \<and> aws_AccessKeyID (cfg_AWS c) \<noteq> '''' \<and>
     aws_SecretAccessKey (cfg_AWS c) \<noteq> '''' \<and> aws_Region (cfg_AWS c) \<noteq> ''''"
  by (auto simp: Validate_def validation_errors_def Let_def not_le not_less)

end
