(* ===== verification/Backends.thy ===== *)
theory Backends
  imports Env_Config
begin

text \<open>
  The storage interfaces of \<open>service\<close>: \<open>ObjectStore\<close> (the slice of MinIO that tiering and
  retention use, \<open>service/tiering.go\<close>), \<open>AwsService\<close> (its S3 part, \<open>service/aws.go\<close>)
  and \<open>Archive\<close> (\<open>service/archive.go\<close>).  A Go interface is a record of functions that
  thread the state \<open>'w\<close> of the outside world.  MinIO and S3 themselves are not in
  the repository: their records are parameters of everything built on them, and
  what a proof relies on is a law of a locale below.
\<close>

section \<open>Object store\<close>

text \<open>\<open>minio.ObjectInfo\<close>: key, size, modification time (nanoseconds) and listing error.\<close>

record object_info =
  oi_Key :: string
  oi_Size :: int
  oi_LastModified :: int
  oi_Err :: "gerror option"

text \<open>
  \<open>ListObjects\<close> answers the whole channel as a list; \<open>PutObject\<close> takes the reader,
  the declared size and the content type.
\<close>

record 'w object_store =
  ListBuckets :: "'w \<Rightarrow> string list result \<times> 'w"
  ListObjects :: "string \<Rightarrow> 'w \<Rightarrow> object_info list \<times> 'w"
  StatObject :: "string \<Rightarrow> string \<Rightarrow> 'w \<Rightarrow> object_info result \<times> 'w"
  RemoveObject :: "string \<Rightarrow> string \<Rightarrow> 'w \<Rightarrow> gerror option \<times> 'w"
  PutObject :: "string \<Rightarrow> string \<Rightarrow> reader \<Rightarrow> int \<Rightarrow> string \<Rightarrow> 'w \<Rightarrow> int result \<times> 'w"
  MakeBucket :: "string \<Rightarrow> 'w \<Rightarrow> gerror option \<times> 'w"
  BucketExists :: "string \<Rightarrow> 'w \<Rightarrow> bool result \<times> 'w"
  OpenObject :: "string \<Rightarrow> string \<Rightarrow> 'w \<Rightarrow> reader result \<times> 'w"

section \<open>The S3 part of the AWS service\<close>

text \<open>
  One page of \<open>ListObjectsV2\<close>: optional keys and sizes (the SDK hands out pointers).
  The paginator's answers, up to its last page or its first error, are a list.
\<close>

type_synonym s3_page = "(string option \<times> int option) list"

record 'w s3_sdk =
  sdk_Upload :: "string \<Rightarrow> string \<Rightarrow> reader \<Rightarrow> 'w \<Rightarrow> gerror option \<times> 'w"
  sdk_HeadObject :: "string \<Rightarrow> string \<Rightarrow> 'w \<Rightarrow> int option result \<times> 'w"
  sdk_HeadBucket :: "string \<Rightarrow> 'w \<Rightarrow> gerror option \<times> 'w"
  sdk_Pages :: "string \<Rightarrow> string \<Rightarrow> 'w \<Rightarrow> s3_page result list \<times> 'w"
  sdk_GetObject :: "string \<Rightarrow> string \<Rightarrow> 'w \<Rightarrow> (reader \<times> int option) result \<times> 'w"
  sdk_ListBuckets :: "'w \<Rightarrow> string list result \<times> 'w"
  sdk_DeleteObjects :: "string \<Rightarrow> string list \<Rightarrow> 'w \<Rightarrow> gerror option \<times> 'w"

definition S3PutObject ::
  "'w s3_sdk \<Rightarrow> string \<Rightarrow> string \<Rightarrow> reader \<Rightarrow> 'w \<Rightarrow> gerror option \<times> 'w" where
  "S3PutObject sdk bucketName objectName body w = sdk_Upload sdk bucketName objectName body w"

definition S3HeadObject ::
  "'w s3_sdk \<Rightarrow> string \<Rightarrow> string \<Rightarrow> 'w \<Rightarrow> int option result \<times> 'w" where
  "S3HeadObject sdk bucketName objectName w = sdk_HeadObject sdk bucketName objectName w"

definition S3HeadBucket :: "'w s3_sdk \<Rightarrow> string \<Rightarrow> 'w \<Rightarrow> gerror option \<times> 'w" where
  "S3HeadBucket sdk bucketName w = sdk_HeadBucket sdk bucketName w"

definition S3GetObject ::
  "'w s3_sdk \<Rightarrow> string \<Rightarrow> string \<Rightarrow> 'w \<Rightarrow> (reader \<times> int option) result \<times> 'w" where
  "S3GetObject sdk bucketName objectName w = sdk_GetObject sdk bucketName objectName w"

text \<open>
  \<open>S3ListObjects\<close> calls \<open>fn\<close> once per object; keys that are nil are skipped, a nil size
  counts as zero, and the first error (of a page or of \<open>fn\<close>) stops the walk.
\<close>

type_synonym 'w walk_fn = "string \<Rightarrow> int \<Rightarrow> 'w \<Rightarrow> gerror option \<times> 'w"

fun walk_page :: "'w walk_fn \<Rightarrow> s3_page \<Rightarrow> 'w \<Rightarrow> gerror option \<times> 'w" where
  "walk_page fn [] w = (None, w)"
| "walk_page fn ((None, sz) # objs) w = walk_page fn objs w"
| "walk_page fn ((Some key, sz) # objs) w =
     (case fn key (case sz of None \<Rightarrow> 0 | Some n \<Rightarrow> n) w of
        (Some e, w') \<Rightarrow> (Some e, w')
      | (None, w') \<Rightarrow> walk_page fn objs w')"

fun walk_pages :: "'w walk_fn \<Rightarrow> s3_page result list \<Rightarrow> 'w \<Rightarrow> gerror option \<times> 'w" where
  "walk_pages fn [] w = (None, w)"
| "walk_pages fn (Inl e # ps) w = (Some e, w)"
| "walk_pages fn (Inr page # ps) w =
     (case walk_page fn page w of
        (Some e, w') \<Rightarrow> (Some e, w')
      | (None, w') \<Rightarrow> walk_pages fn ps w')"

definition S3ListObjects ::
  "'w s3_sdk \<Rightarrow> string \<Rightarrow> string \<Rightarrow> 'w walk_fn \<Rightarrow> 'w \<Rightarrow> gerror option \<times> 'w" where
  "S3ListObjects sdk bucketName pfx fn w =
     (case sdk_Pages sdk bucketName pfx w of (pages, w') \<Rightarrow> walk_pages fn pages w')"

text \<open>\<open>BucketExists\<close> of \<open>AwsService\<close> lists every bucket of the account; a failed listing reads as absent.\<close>

definition AwsListBuckets :: "'w s3_sdk \<Rightarrow> 'w \<Rightarrow> (string list \<times> gerror option) \<times> 'w" where
  "AwsListBuckets sdk w =
     (case sdk_ListBuckets sdk w of
        (Inl e, w') \<Rightarrow> (([], Some e), w')
      | (Inr bs, w') \<Rightarrow> ((bs, None), w'))"

definition AwsBucketExists :: "'w s3_sdk \<Rightarrow> string \<Rightarrow> 'w \<Rightarrow> bool \<times> 'w" where
  "AwsBucketExists sdk bucketName w =
     (case AwsListBuckets sdk w of ((buckets, _), w') \<Rightarrow> (bucketName \<in> set buckets, w'))"

definition AwsDeleteObjects :: "'w s3_sdk \<Rightarrow> string \<Rightarrow> string list \<Rightarrow> 'w \<Rightarrow> gerror option \<times> 'w" where
  "AwsDeleteObjects sdk bucketName objectKeys w = sdk_DeleteObjects sdk bucketName objectKeys w"

definition IsConnected :: "'w s3_sdk \<Rightarrow> 'w \<Rightarrow> bool \<times> 'w" where
  "IsConnected sdk w =
     (case sdk_ListBuckets sdk w of (Inl e, w') \<Rightarrow> (False, w') | (Inr bs, w') \<Rightarrow> (True, w'))"

text \<open>An invariant that the callback keeps survives the walk.\<close>

lemma walk_page_inv:
  assumes "\<And>k n w e w'. fn k n w = (e, w') \<Longrightarrow> I w \<Longrightarrow> I w'"
  shows "walk_page fn page w = (r, w') \<Longrightarrow> I w \<Longrightarrow> I w'"
  using assms by (induction fn page w rule: walk_page.induct) (force split: prod.splits option.splits)+

lemma walk_pages_inv:
  assumes "\<And>k n w e w'. fn k n w = (e, w') \<Longrightarrow> I w \<Longrightarrow> I w'"
  shows "walk_pages fn pages w = (r, w') \<Longrightarrow> I w \<Longrightarrow> I w'"
proof (induction pages arbitrary: w)
  case Nil
  then show ?case by simp
next
  case (Cons p ps)
  show ?case
  proof (cases p)
    case (Inl e)
    with Cons.prems show ?thesis by simp
  next
    case (Inr page)
    obtain u w1 where p: "walk_page fn page w = (u, w1)" by fastforce
    with walk_page_inv [where I = I, OF assms p Cons.prems(2)] Cons Inr show ?thesis
      by (cases u) auto
  qed
qed

section \<open>The archive interface\<close>

record 'w Archive =
  ar_Enabled :: bool
  ar_Put :: "string \<Rightarrow> string \<Rightarrow> reader \<Rightarrow> 'w \<Rightarrow> gerror option \<times> 'w"
  ar_Open :: "string \<Rightarrow> string \<Rightarrow> 'w \<Rightarrow> (reader \<times> int) result \<times> 'w"
  ar_Stat :: "string \<Rightarrow> string \<Rightarrow> 'w \<Rightarrow> int result \<times> 'w"
  ar_Reachable :: "string \<Rightarrow> 'w \<Rightarrow> gerror option \<times> 'w"
  ar_InScope :: "string \<Rightarrow> bool"
  ar_VerifyDestination :: "'w \<Rightarrow> gerror option \<times> 'w"
  ar_Walk :: "string \<Rightarrow> 'w walk_fn \<Rightarrow> 'w \<Rightarrow> gerror option \<times> 'w"

section \<open>Contracts\<close>

text \<open>
  A body \<open>rd\<close> streams \<open>c\<close>: it delivers all of \<open>c\<close>, or, when the connection breaks, a
  prefix of \<open>c\<close> and then its error.
\<close>

definition streams :: "reader \<Rightarrow> bytes \<Rightarrow> bool" where
  "streams rd c \<longleftrightarrow>
     (case rd_fail rd of None \<Rightarrow> rd_data rd = c | Some e \<Rightarrow> HasPrefix c (rd_data rd))"

lemma streams_whole [simp]: "streams (whole c) c"
  by (simp add: streams_def)

lemma streams_take:
  "streams rd c \<Longrightarrow> length c \<le> length (rd_data rd) \<Longrightarrow> rd_data rd = c"
  by (auto simp: streams_def HasPrefix_iff split: option.splits)

text \<open>
  What S3 is documented to do, over an abstraction \<open>s3\<close> of the world to the stored
  objects: a HEAD or GET that succeeds describes the stored object and changes nothing, an
  upload touches its own key only and never leaves a stored key empty.  Nothing is
  assumed about what an upload stores: the code re-verifies it.
\<close>

locale s3_service =
  fixes sdk :: "'w s3_sdk" and s3 :: "'w \<Rightarrow> string \<Rightarrow> string \<Rightarrow> bytes option"
  assumes head_ok: "sdk_HeadObject sdk b k w = (Inr (Some n), w') \<Longrightarrow>
      \<exists>c. s3 w b k = Some c \<and> n = int (length c)"
    and head_frame: "sdk_HeadObject sdk b k w = (r, w') \<Longrightarrow> s3 w' = s3 w"
    and get_ok: "sdk_GetObject sdk b k w = (Inr (rd, len), w') \<Longrightarrow>
      \<exists>c. s3 w b k = Some c \<and> streams rd c \<and> (len = None \<or> len = Some (int (length c)))"
    and get_frame: "sdk_GetObject sdk b k w = (g, w') \<Longrightarrow> s3 w' = s3 w"
    and upload_other: "sdk_Upload sdk b k rd w = (u, w') \<Longrightarrow> (b', k') \<noteq> (b, k) \<Longrightarrow>
      s3 w' b' k' = s3 w b' k'"
    and upload_keeps: "sdk_Upload sdk b k rd w = (u, w') \<Longrightarrow> s3 w b k \<noteq> None \<Longrightarrow> s3 w' b k \<noteq> None"
    and pages_frame: "sdk_Pages sdk b p w = (ps, w') \<Longrightarrow> s3 w' = s3 w"

text \<open>
  The contract \<open>Tiering\<close> relies on: the archive addressed by local bucket and key.
  Buckets are those of the local store, whose names never contain a slash.
\<close>

definition slashless :: "string \<Rightarrow> bool" where
  "slashless b \<longleftrightarrow> CHR ''/'' \<notin> set b"

locale cold_archive =
  fixes A :: "'w Archive" and cold :: "'w \<Rightarrow> string \<Rightarrow> string \<Rightarrow> bytes option"
  assumes stat_ok: "ar_Stat A b k w = (Inr n, w') \<Longrightarrow>
      \<exists>c. cold w b k = Some c \<and> n = int (length c)"
    and stat_frame: "ar_Stat A b k w = (r, w') \<Longrightarrow> cold w' = cold w"
    and open_ok: "ar_Open A b k w = (Inr (rd, n), w') \<Longrightarrow>
      \<exists>c. cold w b k = Some c \<and> streams rd c \<and> (n = 0 \<or> n = int (length c))"
    and open_frame: "ar_Open A b k w = (g, w') \<Longrightarrow> cold w' = cold w"
    and put_other: "ar_Put A b k rd w = (u, w') \<Longrightarrow> slashless b \<Longrightarrow> slashless b' \<Longrightarrow>
      (b', k') \<noteq> (b, k) \<Longrightarrow> cold w' b' k' = cold w b' k'"
    and put_keeps: "ar_Put A b k rd w = (u, w') \<Longrightarrow> cold w b k \<noteq> None \<Longrightarrow> cold w' b k \<noteq> None"

text \<open>The contract of the local store, over the objects \<open>hot\<close> it holds.\<close>

locale hot_store =
  fixes S :: "'w object_store" and hot :: "'w \<Rightarrow> string \<Rightarrow> string \<Rightarrow> bytes option"
  assumes statobj_ok: "StatObject S b k w = (Inr oi, w') \<Longrightarrow>
      \<exists>c. hot w b k = Some c \<and> oi_Size oi = int (length c)"
    and statobj_frame: "StatObject S b k w = (r, w') \<Longrightarrow> hot w' = hot w"
    and list_ok: "ListObjects S b w = (objs, w') \<Longrightarrow> obj \<in> set objs \<Longrightarrow> oi_Err obj = None \<Longrightarrow>
      \<exists>c. hot w b (oi_Key obj) = Some c \<and> oi_Size obj = int (length c)"
    and list_frame: "ListObjects S b w = (objs, w') \<Longrightarrow> hot w' = hot w"
    and buckets_frame: "ListBuckets S w = (bs, w') \<Longrightarrow> hot w' = hot w"
    and exists_frame: "BucketExists S b w = (ex, w') \<Longrightarrow> hot w' = hot w"
    and make_frame: "MakeBucket S b w = (mk, w') \<Longrightarrow> hot w' = hot w"
    and openobj_frame: "OpenObject S b k w = (g, w') \<Longrightarrow> hot w' = hot w"
    and remove_other: "RemoveObject S b k w = (u, w') \<Longrightarrow> (b', k') \<noteq> (b, k) \<Longrightarrow>
      hot w' b' k' = hot w b' k'"
    and remove_same: "RemoveObject S b k w = (u, w') \<Longrightarrow> hot w' b k = None \<or> hot w' b k = hot w b k"
    and putobj_other: "PutObject S b k rd n ct w = (p, w') \<Longrightarrow> (b', k') \<noteq> (b, k) \<Longrightarrow>
      hot w' b' k' = hot w b' k'"
    and putobj_ok: "PutObject S b k rd n ct w = (Inr m, w') \<Longrightarrow> 0 \<le> n \<Longrightarrow>
      n \<le> int (length (rd_data rd)) \<and> hot w' b k = Some (take (nat n) (rd_data rd))"
    and putobj_err: "PutObject S b k rd n ct w = (Inl e, w') \<Longrightarrow> 0 \<le> n \<Longrightarrow>
      hot w' b k = hot w b k \<or>
      n \<le> int (length (rd_data rd)) \<and> hot w' b k = Some (take (nat n) (rd_data rd))"

text \<open>Both tiers side by side: neither service touches what the other one stores.\<close>

locale two_tiers = cold_archive A cold + hot_store S hot
  for A :: "'w Archive" and cold and S :: "'w object_store" and hot +
  assumes stat_hot: "ar_Stat A b k w = (r, w') \<Longrightarrow> hot w' = hot w"
    and open_hot: "ar_Open A b k w = (g, w') \<Longrightarrow> hot w' = hot w"
    and put_hot: "ar_Put A b k rd w = (u, w') \<Longrightarrow> hot w' = hot w"
    and statobj_cold: "StatObject S b k w = (ro, w') \<Longrightarrow> cold w' = cold w"
    and list_cold: "ListObjects S b w = (lo, w') \<Longrightarrow> cold w' = cold w"
    and buckets_cold: "ListBuckets S w = (bo, w') \<Longrightarrow> cold w' = cold w"
    and exists_cold: "BucketExists S b w = (ex, w') \<Longrightarrow> cold w' = cold w"
    and make_cold: "MakeBucket S b w = (mk, w') \<Longrightarrow> cold w' = cold w"
    and openobj_cold: "OpenObject S b k w = (go, w') \<Longrightarrow> cold w' = cold w"
    and remove_cold: "RemoveObject S b k w = (uo, w') \<Longrightarrow> cold w' = cold w"
    and putobj_cold: "PutObject S b k rd n ct w = (po, w') \<Longrightarrow> cold w' = cold w"

end
