(* ===== verification/Memory_Backend.thy ===== *)
theory Memory_Backend
  imports Backends
begin

text \<open>
  An in-memory instance of the two storage services, after the fakes of
  \<open>service/retention_test.go\<close> and \<open>service/archive_test.go\<close>: the concrete backend on
  which the contracts are shown to be satisfiable and the witnesses run.
\<close>

record mem =
  m_hot :: "string \<Rightarrow> string \<Rightarrow> bytes option"
  m_s3 :: "string \<Rightarrow> string \<Rightarrow> bytes option"
  m_buckets :: "string list"
  m_list :: "string \<Rightarrow> object_info list"
  m_pages :: "s3_page result list"

definition upd2 :: "(string \<Rightarrow> string \<Rightarrow> bytes option) \<Rightarrow> string \<Rightarrow> string \<Rightarrow> bytes option \<Rightarrow>
    string \<Rightarrow> string \<Rightarrow> bytes option" where
  "upd2 m b k v = (\<lambda>b' k'. if b' = b \<and> k' = k then v else m b' k')"

lemma upd2_same [simp]: "upd2 m b k v b k = v"
  by (simp add: upd2_def)

lemma upd2_other [simp]: "(b', k') \<noteq> (b, k) \<Longrightarrow> upd2 m b k v b' k' = m b' k'"
  by (auto simp: upd2_def)

definition empty_mem :: mem where
  "empty_mem = \<lparr> m_hot = (\<lambda>_ _. None), m_s3 = (\<lambda>_ _. None), m_buckets = [],
                 m_list = (\<lambda>_. []), m_pages = [] \<rparr>"

definition mem_sdk :: "mem s3_sdk" where
  "mem_sdk =
     \<lparr> sdk_Upload = (\<lambda>b k rd w. (None, w\<lparr>m_s3 := upd2 (m_s3 w) b k (Some (rd_data rd))\<rparr>)),
       sdk_HeadObject = (\<lambda>b k w.
         (case m_s3 w b k of None \<Rightarrow> Inl S3NotFound | Some c \<Rightarrow> Inr (Some (int (length c))), w)),
       sdk_HeadBucket = (\<lambda>b w. (None, w)),
       sdk_Pages = (\<lambda>b p w. (m_pages w, w)),
       sdk_GetObject = (\<lambda>b k w.
         (case m_s3 w b k of None \<Rightarrow> Inl S3NoSuchKey
          | Some c \<Rightarrow> Inr (whole c, Some (int (length c))), w)),
       sdk_ListBuckets = (\<lambda>w. (Inr (m_buckets w), w)),
       sdk_DeleteObjects = (\<lambda>b ks w.
         (None, w\<lparr>m_s3 := (\<lambda>b' k'. if b' = b \<and> k' \<in> set ks then None else m_s3 w b' k')\<rparr>)) \<rparr>"

text \<open>A listing reports what is there: entries that match no stored object are left out.\<close>

definition listed :: "mem \<Rightarrow> string \<Rightarrow> object_info list" where
  "listed w b = filter (\<lambda>oi. oi_Err oi \<noteq> None \<or>
     (case m_hot w b (oi_Key oi) of None \<Rightarrow> False | Some c \<Rightarrow> oi_Size oi = int (length c))) (m_list w b)"

definition mem_store :: "mem object_store" where
  "mem_store =
     \<lparr> ListBuckets = (\<lambda>w. (Inr (m_buckets w), w)),
       ListObjects = (\<lambda>b w. (listed w b, w)),
       StatObject = (\<lambda>b k w.
         (case m_hot w b k of None \<Rightarrow> Inl (ErrorString ''object not found'')
          | Some c \<Rightarrow> Inr \<lparr> oi_Key = k, oi_Size = int (length c), oi_LastModified = 0, oi_Err = None \<rparr>, w)),
       RemoveObject = (\<lambda>b k w. (None, w\<lparr>m_hot := upd2 (m_hot w) b k None\<rparr>)),
       PutObject = (\<lambda>b k rd n ct w.
         (if n < 0 then (Inl (ErrorString ''unknown size''), w)
          else if int (length (rd_data rd)) < n then (Inl (ErrorString ''unexpected EOF''), w)
          else (Inr n, w\<lparr>m_hot := upd2 (m_hot w) b k (Some (take (nat n) (rd_data rd)))\<rparr>))),
       MakeBucket = (\<lambda>b w. (None, w\<lparr>m_buckets := m_buckets w @ [b]\<rparr>)),
       BucketExists = (\<lambda>b w. (Inr (b \<in> set (m_buckets w)), w)),
       OpenObject = (\<lambda>b k w.
         (case m_hot w b k of None \<Rightarrow> Inl (ErrorString ''object not found'')
          | Some c \<Rightarrow> Inr (whole c), w)) \<rparr>"

lemma mem_sdk_sel [simp]:
  "sdk_Upload mem_sdk b k rd w = (None, w\<lparr>m_s3 := upd2 (m_s3 w) b k (Some (rd_data rd))\<rparr>)"
  "sdk_HeadObject mem_sdk b k w =
     (case m_s3 w b k of None \<Rightarrow> Inl S3NotFound | Some c \<Rightarrow> Inr (Some (int (length c))), w)"
  "sdk_HeadBucket mem_sdk b w = (None, w)"
  "sdk_Pages mem_sdk b p w = (m_pages w, w)"
  "sdk_GetObject mem_sdk b k w =
     (case m_s3 w b k of None \<Rightarrow> Inl S3NoSuchKey | Some c \<Rightarrow> Inr (whole c, Some (int (length c))), w)"
  "sdk_ListBuckets mem_sdk w = (Inr (m_buckets w), w)"
  by (simp_all add: mem_sdk_def)

lemma mem_store_sel [simp]:
  "ListBuckets mem_store w = (Inr (m_buckets w), w)"
  "ListObjects mem_store b w = (listed w b, w)"
  "StatObject mem_store b k w =
     (case m_hot w b k of None \<Rightarrow> Inl (ErrorString ''object not found'')
      | Some c \<Rightarrow> Inr \<lparr> oi_Key = k, oi_Size = int (length c), oi_LastModified = 0, oi_Err = None \<rparr>, w)"
  "RemoveObject mem_store b k w = (None, w\<lparr>m_hot := upd2 (m_hot w) b k None\<rparr>)"
  "PutObject mem_store b k rd n ct w =
     (if n < 0 then (Inl (ErrorString ''unknown size''), w)
      else if int (length (rd_data rd)) < n then (Inl (ErrorString ''unexpected EOF''), w)
      else (Inr n, w\<lparr>m_hot := upd2 (m_hot w) b k (Some (take (nat n) (rd_data rd)))\<rparr>))"
  "MakeBucket mem_store b w = (None, w\<lparr>m_buckets := m_buckets w @ [b]\<rparr>)"
  "BucketExists mem_store b w = (Inr (b \<in> set (m_buckets w)), w)"
  "OpenObject mem_store b k w =
     (case m_hot w b k of None \<Rightarrow> Inl (ErrorString ''object not found'') | Some c \<Rightarrow> Inr (whole c), w)"
  by (simp_all add: mem_store_def)

interpretation mem_s3: s3_service mem_sdk m_s3
  by unfold_locales (auto split: option.splits prod.splits)

interpretation mem_hot: hot_store mem_store m_hot
  by unfold_locales (auto simp: listed_def split: option.splits prod.splits if_splits)

end
