(* ===== verification/Archive_Tier.thy ===== *)
theory Archive_Tier
  imports Memory_Backend "HOL-Library.Char_ord" "HOL-Library.List_Lexorder"
begin

text \<open>
  \<open>service/archive.go\<close>: the cold tier.  Whether it is configured (credentials,
  placeholders, the off-switch), which buckets it covers, how a local (bucket, key)
  pair maps onto an S3 location in the two layouts, and the operations of the
  \<open>Archive\<close> interface over the AWS service.
\<close>

section \<open>Configuration\<close>

text \<open>\<open>parseBucketScope\<close>: a comma-separated allowlist; \<open>None\<close> (nil) means no limit.\<close>

definition scope_entries :: "string \<Rightarrow> string list" where
  "scope_entries raw = filter (\<lambda>b. b \<noteq> '''') (map TrimSpace (split_on (CHR '','') raw))"

definition parseBucketScope :: "string \<Rightarrow> string set option" where
  "parseBucketScope raw =
     (let scope = set (scope_entries raw) in if scope = {} then None else Some scope)"

definition placeholderCredentials :: "string list" where
  "placeholderCredentials =
     [''your-aws-key'', ''your-aws-secret'', ''your-access-key'', ''your-secret-key'',
      ''your-aws-region'', ''your-minio-user'', ''your-minio-passwor'', ''replace_me'',
      ''replace-me'', ''changeme'', ''change-me'']"

definition isPlaceholderCredential :: "string \<Rightarrow> bool" where
  "isPlaceholderCredential v \<longleftrightarrow> ToLower (TrimSpace v) \<in> set placeholderCredentials"

text \<open>The loop over the three required values returns false at the first unusable one.\<close>

fun credentials_usable :: "string list \<Rightarrow> bool" where
  "credentials_usable [] = True"
| "credentials_usable (v # vs) =
     (if TrimSpace v = '''' \<or> isPlaceholderCredential v then False else credentials_usable vs)"

definition archiveConfigured :: "env \<Rightarrow> bool" where
  "archiveConfigured env =
     (if \<not> GetEnvAsBoolOrDefault env ''ARCHIVE_ENABLED'' True then False
      else credentials_usable
             [GetEnvOrDefault env ''AWS_ACCESS_KEY_ID'' '''',
              GetEnvOrDefault env ''AWS_SECRET_ACCESS_KEY'' '''',
              GetEnvOrDefault env ''AWS_REGION'' ''''])"

record 'w archive =
  a_aws :: "'w s3_sdk"
  a_enabled :: bool
  a_bucket :: string
  a_only :: "string set option"

definition layout :: "'w archive \<Rightarrow> string" where
  "layout a =
     (if a_bucket a \<noteq> '''' then ''single bucket '' @ a_bucket a @ '' with <minio-bucket>/ prefix''
      else ''one S3 bucket per MinIO bucket, matching names'')"

text \<open>What the constructor logs at boot: the layout and scope, or one of two reasons for being off.\<close>

datatype boot_log =
    BootEnabledAll string
  | BootEnabledScoped string "string list"
  | BootSwitchedOff
  | BootNoCredentials

definition NewArchive :: "env \<Rightarrow> 'w s3_sdk \<Rightarrow> 'w archive \<times> boot_log" where
  "NewArchive env aws =
     (let a = \<lparr> a_aws = aws,
                a_enabled = archiveConfigured env,
                a_bucket = TrimSpace (GetEnvOrDefault env ''ARCHIVE_BUCKET'' ''''),
                a_only = parseBucketScope (GetEnvOrDefault env ''ARCHIVE_ONLY_BUCKETS'' '''') \<rparr>
      in (a,
          if a_enabled a then
            (case a_only a of
               None \<Rightarrow> BootEnabledAll (layout a)
             | Some bs \<Rightarrow> BootEnabledScoped (layout a) (sorted_list_of_set bs))
          else if \<not> GetEnvAsBoolOrDefault env ''ARCHIVE_ENABLED'' True then BootSwitchedOff
          else BootNoCredentials))"

section \<open>Scope and location\<close>

definition InScope :: "'w archive \<Rightarrow> string \<Rightarrow> bool" where
  "InScope a bucket =
     (if \<not> a_enabled a then False
      else (case a_only a of None \<Rightarrow> True | Some bs \<Rightarrow> bucket \<in> bs))"

definition resolve :: "'w archive \<Rightarrow> string \<Rightarrow> string \<Rightarrow> string \<times> string" where
  "resolve a bucket object =
     (if a_bucket a \<noteq> '''' then (a_bucket a, bucket @ ''/'' @ object) else (bucket, object))"

definition ArchiveBucketFor :: "'w archive \<Rightarrow> string \<Rightarrow> string" where
  "ArchiveBucketFor a bucket = fst (resolve a bucket '''')"

text \<open>\<open>isNotFound\<close> looks through wrapping for either of the two S3 error types (\<open>errors.As\<close>).\<close>

definition isNotFound :: "gerror \<Rightarrow> bool" where
  "isNotFound e = (if errors_is e S3NotFound then True else errors_is e S3NoSuchKey)"

definition at_location :: "string \<Rightarrow> string \<times> string \<Rightarrow> string" where
  "at_location what loc = what @ fst loc @ ''/'' @ snd loc"

section \<open>Operations\<close>

definition Put :: "'w archive \<Rightarrow> string \<Rightarrow> string \<Rightarrow> reader \<Rightarrow> 'w \<Rightarrow> gerror option \<times> 'w" where
  "Put a bucket object body w =
     (if \<not> a_enabled a then (Some ErrArchiveDisabled, w)
      else if \<not> InScope a bucket then (Some ErrArchiveNotInScope, w)
      else let loc = resolve a bucket object in
        (case S3PutObject (a_aws a) (fst loc) (snd loc) body w of
           (Some e, w') \<Rightarrow> (Some (Wrapf (at_location ''archive put '' loc) e), w')
         | (None, w') \<Rightarrow> (None, w')))"

definition Open :: "'w archive \<Rightarrow> string \<Rightarrow> string \<Rightarrow> 'w \<Rightarrow> (reader \<times> int) result \<times> 'w" where
  "Open a bucket object w =
     (if \<not> a_enabled a then (Inl ErrArchiveDisabled, w)
      else let loc = resolve a bucket object in
        (case S3GetObject (a_aws a) (fst loc) (snd loc) w of
           (Inl e, w') \<Rightarrow>
             (if isNotFound e then (Inl ErrArchiveNotFound, w')
              else (Inl (Wrapf (at_location ''archive open '' loc) e), w'))
         | (Inr (body, len), w') \<Rightarrow>
             (Inr (body, case len of None \<Rightarrow> 0 | Some n \<Rightarrow> n), w')))"

definition Reachable :: "'w archive \<Rightarrow> string \<Rightarrow> 'w \<Rightarrow> gerror option \<times> 'w" where
  "Reachable a bucket w =
     (if \<not> a_enabled a then (Some ErrArchiveDisabled, w)
      else if \<not> InScope a bucket then (Some ErrArchiveNotInScope, w)
      else let target = fst (resolve a bucket '''') in
        (case S3HeadBucket (a_aws a) target w of
           (Some e, w') \<Rightarrow>
             (Some (Wrapf (''archive bucket '' @ target @ '' is not reachable'') e), w')
         | (None, w') \<Rightarrow> (None, w')))"

definition VerifyDestination :: "'w archive \<Rightarrow> 'w \<Rightarrow> gerror option \<times> 'w" where
  "VerifyDestination a w =
     (if \<not> a_enabled a then (Some ErrArchiveDisabled, w)
      else if a_bucket a = '''' then (Some ErrArchiveDestinationPerBucket, w)
      else Reachable a '''' w)"

definition Walk :: "'w archive \<Rightarrow> string \<Rightarrow> 'w walk_fn \<Rightarrow> 'w \<Rightarrow> gerror option \<times> 'w" where
  "Walk a bucket fn w =
     (if \<not> a_enabled a then (Some ErrArchiveDisabled, w)
      else let (s3Bucket, pfx) = resolve a bucket '''' in
        S3ListObjects (a_aws a) s3Bucket pfx
          (\<lambda>s3Key size w1.
             let key = TrimPrefix s3Key pfx in
             if key = '''' then (None, w1) else fn key size w1) w)"

definition Stat :: "'w archive \<Rightarrow> string \<Rightarrow> string \<Rightarrow> 'w \<Rightarrow> int result \<times> 'w" where
  "Stat a bucket object w =
     (if \<not> a_enabled a then (Inl ErrArchiveDisabled, w)
      else let loc = resolve a bucket object in
        (case S3HeadObject (a_aws a) (fst loc) (snd loc) w of
           (Inl e, w') \<Rightarrow>
             (if isNotFound e then (Inl ErrArchiveNotFound, w')
              else (Inl (Wrapf (at_location ''archive stat '' loc) e), w'))
         | (Inr None, w') \<Rightarrow>
             (Inl (ErrorString (at_location ''archive stat '' loc @ '': no content length reported'')), w')
         | (Inr (Some n), w') \<Rightarrow> (Inr n, w')))"

text \<open>The method set of \<open>*archive\<close> as a value of the interface.\<close>

definition archive_iface :: "'w archive \<Rightarrow> 'w Archive" where
  "archive_iface a =
     \<lparr> ar_Enabled = a_enabled a, ar_Put = Put a, ar_Open = Open a, ar_Stat = Stat a,
       ar_Reachable = Reachable a, ar_InScope = InScope a,
       ar_VerifyDestination = VerifyDestination a, ar_Walk = Walk a \<rparr>"

lemmas archive_ops [tier_defs] =
  Put_def Open_def Reachable_def VerifyDestination_def Stat_def S3PutObject_def S3HeadObject_def
  S3HeadBucket_def S3GetObject_def Let_def

lemma archive_iface_sel [simp]:
  "ar_Enabled (archive_iface a) = a_enabled a"
  "ar_Put (archive_iface a) = Put a"
  "ar_Open (archive_iface a) = Open a"
  "ar_Stat (archive_iface a) = Stat a"
  "ar_Reachable (archive_iface a) = Reachable a"
  "ar_InScope (archive_iface a) = InScope a"
  "ar_VerifyDestination (archive_iface a) = VerifyDestination a"
  "ar_Walk (archive_iface a) = Walk a"
  by (simp_all add: archive_iface_def)

section \<open>Facts about the configuration\<close>

lemma credentials_usable_iff:
  "credentials_usable vs \<longleftrightarrow> (\<forall>v\<in>set vs. TrimSpace v \<noteq> '''' \<and> \<not> isPlaceholderCredential v)"
  by (induction vs) auto

lemma scope_entries_nonempty: "'''' \<notin> set (scope_entries raw)"
  by (simp add: scope_entries_def)

lemma parseBucketScope_Some:
  "parseBucketScope raw = Some bs \<Longrightarrow> bs \<noteq> {} \<and> '''' \<notin> bs \<and> bs = set (scope_entries raw)"
  using scope_entries_nonempty [of raw] by (auto simp: parseBucketScope_def Let_def split: if_splits)

lemma finite_scope: "parseBucketScope raw = Some bs \<Longrightarrow> finite bs"
  by (auto simp: parseBucketScope_def Let_def split: if_splits)

lemma InScope_enabled: "InScope a b \<Longrightarrow> a_enabled a"
  by (simp add: InScope_def split: if_splits)

lemma resolve_prefix:
  "resolve a b k = (ArchiveBucketFor a b, snd (resolve a b '''') @ k)"
  by (simp add: resolve_def ArchiveBucketFor_def)

lemma walk_page_skip_markers:
  "walk_page (\<lambda>s3Key size w1. let key = TrimPrefix s3Key p in if key = '''' then (None, w1) else fn key size w1)
     (map (\<lambda>(k, n). (Some (p @ k), n)) kns) w
   = walk_page fn (map (\<lambda>(k, n). (Some k, n)) (filter (\<lambda>(k, n). k \<noteq> '''') kns)) w"
  by (induction kns arbitrary: w) (auto simp: Let_def split: prod.splits option.splits)

lemma walk_pages_skip_markers:
  "walk_pages (\<lambda>s3Key size w1. let key = TrimPrefix s3Key p in if key = '''' then (None, w1) else fn key size w1)
     (map (\<lambda>kns. Inr (map (\<lambda>(k, n). (Some (p @ k), n)) kns)) pss) w
   = walk_pages fn (map (\<lambda>kns. Inr (map (\<lambda>(k, n). (Some k, n)) (filter (\<lambda>(k, n). k \<noteq> '''') kns))) pss) w"
  by (induction pss arbitrary: w) (auto simp: walk_page_skip_markers split: prod.splits option.splits)

section \<open>The archive fulfils its contract\<close>

text \<open>Two objects share an archive location only when they are the same object.\<close>

lemma resolve_inject:
  assumes "slashless b" and "slashless b'" and "resolve a b k = resolve a b' k'"
  shows "b = b' \<and> k = k'"
proof (cases "a_bucket a = ''''")
  case True
  with assms(3) show ?thesis by (simp add: resolve_def)
next
  case False
  with assms(3) have "b @ CHR ''/'' # k = b' @ CHR ''/'' # k'" by (simp add: resolve_def)
  with assms(1,2) show ?thesis by (auto simp: slashless_def dest: append_sep_inject)
qed

definition cold_of :: "'w archive \<Rightarrow> ('w \<Rightarrow> string \<Rightarrow> string \<Rightarrow> bytes option) \<Rightarrow>
    'w \<Rightarrow> string \<Rightarrow> string \<Rightarrow> bytes option" where
  "cold_of a s3 w b k = s3 w (fst (resolve a b k)) (snd (resolve a b k))"

lemma Stat_Inr:
  "Stat a b k w = (Inr n, w') \<Longrightarrow>
   sdk_HeadObject (a_aws a) (fst (resolve a b k)) (snd (resolve a b k)) w = (Inr (Some n), w')"
  by (auto simp: Stat_def S3HeadObject_def Let_def split: if_splits prod.splits sum.splits option.splits)

lemma Stat_world:
  "Stat a b k w = (r, w') \<Longrightarrow>
   w' = w \<or> (\<exists>h. sdk_HeadObject (a_aws a) (fst (resolve a b k)) (snd (resolve a b k)) w = (h, w'))"
  by (auto simp: Stat_def S3HeadObject_def Let_def split: if_splits prod.splits sum.splits option.splits)

lemma Open_Inr:
  "Open a b k w = (Inr (rd, n), w') \<Longrightarrow>
   \<exists>len. sdk_GetObject (a_aws a) (fst (resolve a b k)) (snd (resolve a b k)) w = (Inr (rd, len), w') \<and>
         n = (case len of None \<Rightarrow> 0 | Some l \<Rightarrow> l)"
  by (auto simp: Open_def S3GetObject_def Let_def split: if_splits prod.splits sum.splits option.splits)

lemma Open_world:
  "Open a b k w = (r, w') \<Longrightarrow>
   w' = w \<or> (\<exists>h. sdk_GetObject (a_aws a) (fst (resolve a b k)) (snd (resolve a b k)) w = (h, w'))"
  by (auto simp: Open_def S3GetObject_def Let_def split: if_splits prod.splits sum.splits option.splits)

lemma Put_world:
  "Put a b k rd w = (u, w') \<Longrightarrow>
   w' = w \<or> (\<exists>h. sdk_Upload (a_aws a) (fst (resolve a b k)) (snd (resolve a b k)) rd w = (h, w'))"
  by (auto simp: Put_def S3PutObject_def Let_def split: if_splits prod.splits option.splits)

text \<open>A walk keeps what the listing and the callback keep.\<close>

lemma Walk_inv:
  assumes "Walk a b fn w = (r, w')" and "I w"
    and "\<And>b p v ps v'. sdk_Pages (a_aws a) b p v = (ps, v') \<Longrightarrow> I v \<Longrightarrow> I v'"
    and fn: "\<And>k n v e v'. fn k n v = (e, v') \<Longrightarrow> I v \<Longrightarrow> I v'"
  shows "I w'"
proof (cases "a_enabled a")
  case False
  with assms(1,2) show ?thesis by (simp add: Walk_def)
next
  case True
  obtain s3b pfx where loc: "resolve a b '''' = (s3b, pfx)" by fastforce
  let ?fn = "\<lambda>s3Key size w1. let key = TrimPrefix s3Key pfx in if key = '''' then (None, w1) else fn key size w1"
  obtain ps w1 where p: "sdk_Pages (a_aws a) s3b pfx w = (ps, w1)" by fastforce
  with assms(2,3) have "I w1" by blast
  from assms(1) True loc p have "walk_pages ?fn ps w1 = (r, w')"
    by (simp add: Walk_def S3ListObjects_def)
  then show ?thesis
    by (rule walk_pages_inv [where I = I, rotated]) (use \<open>I w1\<close> fn in \<open>auto simp: Let_def split: if_splits\<close>)
qed

locale archived_s3 = s3_service "a_aws a" s3
  for a :: "'w archive" and s3 :: "'w \<Rightarrow> string \<Rightarrow> string \<Rightarrow> bytes option"
begin

lemma cold_cong: "s3 w' = s3 w \<Longrightarrow> cold_of a s3 w' = cold_of a s3 w"
  by (simp add: cold_of_def fun_eq_iff)

end

sublocale archived_s3 \<subseteq> cold_archive "archive_iface a" "cold_of a s3"
proof unfold_locales
  fix b k w n w'
  assume "ar_Stat (archive_iface a) b k w = (Inr n, w')"
  then show "\<exists>c. cold_of a s3 w b k = Some c \<and> n = int (length c)"
    using Stat_Inr head_ok by (fastforce simp: cold_of_def)
next
  fix b k w r w'
  assume "ar_Stat (archive_iface a) b k w = (r, w')"
  then show "cold_of a s3 w' = cold_of a s3 w"
    using Stat_world head_frame by (fastforce intro!: cold_cong)
next
  fix b k w rd n w'
  assume "ar_Open (archive_iface a) b k w = (Inr (rd, n), w')"
  then have "Open a b k w = (Inr (rd, n), w')" by simp
  from Open_Inr [OF this]
  obtain len where "sdk_GetObject (a_aws a) (fst (resolve a b k)) (snd (resolve a b k)) w = (Inr (rd, len), w')"
    and "n = (case len of None \<Rightarrow> 0 | Some l \<Rightarrow> l)" by blast
  then show "\<exists>c. cold_of a s3 w b k = Some c \<and> streams rd c \<and> (n = 0 \<or> n = int (length c))"
    using get_ok by (fastforce simp: cold_of_def)
next
  fix b k w g w'
  assume "ar_Open (archive_iface a) b k w = (g, w')"
  then show "cold_of a s3 w' = cold_of a s3 w"
    using Open_world get_frame by (fastforce intro!: cold_cong)
next
  fix b k rd w u w' b' k'
  assume put: "ar_Put (archive_iface a) b k rd w = (u, w')"
    and sl: "slashless b" "slashless b'" and ne: "(b', k') \<noteq> (b, k)"
  from ne have "resolve a b' k' \<noteq> resolve a b k" using resolve_inject [OF sl(2,1)] by blast
  then have "(fst (resolve a b' k'), snd (resolve a b' k')) \<noteq> (fst (resolve a b k), snd (resolve a b k))"
    by simp
  then show "cold_of a s3 w' b' k' = cold_of a s3 w b' k'"
    using Put_world [of a b k rd w u w'] put upload_other unfolding cold_of_def by fastforce
next
  fix b k rd w u w'
  assume "ar_Put (archive_iface a) b k rd w = (u, w')" and "cold_of a s3 w b k \<noteq> None"
  then show "cold_of a s3 w' b k \<noteq> None"
    using Put_world [of a b k rd w u w'] upload_keeps unfolding cold_of_def by fastforce
qed

text \<open>The archive over the in-memory S3, in the single-bucket layout.\<close>

definition mem_archive :: "mem archive" where
  "mem_archive = \<lparr> a_aws = mem_sdk, a_enabled = True, a_bucket = ''cold'', a_only = None \<rparr>"

interpretation mem_archived: archived_s3 mem_archive m_s3
  by unfold_locales (auto simp: mem_archive_def split: option.splits)

interpretation mem_cold: cold_archive "archive_iface mem_archive" "cold_of mem_archive m_s3"
  by (rule mem_archived.cold_archive_axioms)

section \<open>Properties\<close>

text \<open>
  Property C29.  The archive key mapping loses nothing: for local bucket names (which
  never contain a slash) two objects are archived at the same S3 location exactly when
  they are the same object, in both layouts.
\<close>

theorem archive_location_unique:
  assumes "slashless b" and "slashless b'"
  shows "resolve a b k = resolve a b' k' \<longleftrightarrow> b = b' \<and> k = k'"
  using resolve_inject [OF assms] by blast

theorem archive_location_unique_witness:
  "slashless ''photos'' \<and> slashless ''docs'' \<and>
   resolve mem_archive ''photos'' ''a/b'' \<noteq> resolve mem_archive ''docs'' ''a/b''"
proof -
  have s: "slashless ''photos''" "slashless ''docs''" by (simp_all add: slashless_def)
  from archive_location_unique [OF s, of mem_archive "''a/b''" "''a/b''"] s show ?thesis by simp
qed

text \<open>
  Property C30.  \<open>Walk\<close> is the inverse of the mapping: when S3 lists, page by page, the
  archive keys of local objects of the bucket, the callback sees exactly the local keys
  with their sizes, in order, and the empty directory marker is skipped.
\<close>

theorem walk_yields_local_keys:
  assumes "a_enabled a"
    and "sdk_Pages (a_aws a) (ArchiveBucketFor a b) (snd (resolve a b '''')) w =
           (map (\<lambda>kns. Inr (map (\<lambda>(k, n). (Some (snd (resolve a b k)), n)) kns)) pages, w1)"
  shows "Walk a b fn w =
           walk_pages fn
             (map (\<lambda>kns. Inr (map (\<lambda>(k, n). (Some k, n)) (filter (\<lambda>(k, n). k \<noteq> '''') kns))) pages) w1"
proof -
  define p where "p = snd (resolve a b '''')"
  have key: "snd (resolve a b k) = p @ k" for k by (simp add: p_def resolve_def)
  have r: "resolve a b '''' = (ArchiveBucketFor a b, p)" by (simp add: p_def ArchiveBucketFor_def)
  have pages: "sdk_Pages (a_aws a) (ArchiveBucketFor a b) p w =
      (map (\<lambda>kns. Inr (map (\<lambda>(k, n). (Some (p @ k), n)) kns)) pages, w1)"
    using assms(2) by (simp add: key)
  have "Walk a b fn w =
      walk_pages (\<lambda>s3Key size w1. let key = TrimPrefix s3Key p in if key = '''' then (None, w1) else fn key size w1)
        (map (\<lambda>kns. Inr (map (\<lambda>(k, n). (Some (p @ k), n)) kns)) pages) w1"
    unfolding Walk_def S3ListObjects_def r using assms(1) pages by simp
  then show ?thesis by (simp only: walk_pages_skip_markers)
qed

definition listing_world :: mem where
  "listing_world = empty_mem\<lparr>m_pages := [Inr [(Some ''photos/'', None), (Some ''photos/a.png'', Some 3)]]\<rparr>"

theorem walk_yields_local_keys_witness:
  "Walk mem_archive ''photos'' (\<lambda>k n w. (Some (ErrorString k), w)) listing_world =
     (Some (ErrorString ''a.png''), listing_world)"
proof -
  have "sdk_Pages (a_aws mem_archive) (ArchiveBucketFor mem_archive ''photos'')
          (snd (resolve mem_archive ''photos'' '''')) listing_world =
        (map (\<lambda>kns. Inr (map (\<lambda>(k, n). (Some (snd (resolve mem_archive ''photos'' k)), n)) kns))
           [[('''', None), (''a.png'', Some 3)]], listing_world)"
    by (simp add: mem_archive_def resolve_def listing_world_def)
  from walk_yields_local_keys [OF _ this] show ?thesis by (simp add: mem_archive_def)
qed

text \<open>
  An object reaches cold storage only on a deployment that is configured for
  it: a successful \<open>Put\<close> means the off-switch is not set, all three credentials are filled
  in with something other than blanks or template placeholders, the bucket is covered by
  \<open>ARCHIVE_ONLY_BUCKETS\<close> when that is set, and S3 accepted the upload at the resolved location.
\<close>

theorem archive_write_authorised:
  assumes "Put (fst (NewArchive env aws)) b k body w = (None, w')"
  shows "GetEnvAsBoolOrDefault env ''ARCHIVE_ENABLED'' True \<and>
         (\<forall>v\<in>{''AWS_ACCESS_KEY_ID'', ''AWS_SECRET_ACCESS_KEY'', ''AWS_REGION''}.
            TrimSpace (env v) \<noteq> '''' \<and> ToLower (TrimSpace (env v)) \<notin> set placeholderCredentials) \<and>
         (scope_entries (env ''ARCHIVE_ONLY_BUCKETS'') = [] \<or>
          b \<in> set (scope_entries (env ''ARCHIVE_ONLY_BUCKETS''))) \<and>
         (let loc = resolve (fst (NewArchive env aws)) b k
          in sdk_Upload aws (fst loc) (snd loc) body w = (None, w'))"
proof -
  let ?a = "fst (NewArchive env aws)"
  have val: "GetEnvOrDefault env v '''' = env v" for v by (simp add: GetEnvOrDefault_def Let_def)
  from assms have en: "a_enabled ?a" and sc: "InScope ?a b"
    by (auto simp: Put_def split: if_splits)
  from en have conf: "archiveConfigured env" by (simp add: NewArchive_def Let_def)
  from sc en have "scope_entries (env ''ARCHIVE_ONLY_BUCKETS'') = [] \<or>
          b \<in> set (scope_entries (env ''ARCHIVE_ONLY_BUCKETS''))"
    by (auto simp: InScope_def NewArchive_def parseBucketScope_def val Let_def split: if_splits)
  moreover from conf have "GetEnvAsBoolOrDefault env ''ARCHIVE_ENABLED'' True \<and>
         (\<forall>v\<in>{''AWS_ACCESS_KEY_ID'', ''AWS_SECRET_ACCESS_KEY'', ''AWS_REGION''}.
            TrimSpace (env v) \<noteq> '''' \<and> ToLower (TrimSpace (env v)) \<notin> set placeholderCredentials)"
    by (simp add: archiveConfigured_def val isPlaceholderCredential_def split: if_splits)
  moreover have "a_aws ?a = aws" by (simp add: NewArchive_def Let_def)
  with assms en sc have "(let loc = resolve ?a b k
          in sdk_Upload aws (fst loc) (snd loc) body w = (None, w'))"
    by (auto simp: Put_def S3PutObject_def Let_def split: prod.splits option.splits)
  ultimately show ?thesis by blast
qed

definition aws_env :: env where
  "aws_env = (\<lambda>_. '''')(''AWS_ACCESS_KEY_ID'' := ''AKIA1'', ''AWS_SECRET_ACCESS_KEY'' := ''s3cr3t'',
     ''AWS_REGION'' := ''eu-central-1'', ''ARCHIVE_BUCKET'' := ''cold'', ''ARCHIVE_ONLY_BUCKETS'' := ''photos'')"

lemma aws_env_archive:
  "fst (NewArchive aws_env mem_sdk) =
     \<lparr> a_aws = mem_sdk, a_enabled = True, a_bucket = ''cold'', a_only = Some {''photos''} \<rparr>"
  by (simp add: NewArchive_def Let_def archiveConfigured_def aws_env_def GetEnvOrDefault_def
      isPlaceholderCredential_def placeholderCredentials_def lower_byte_def parseBucketScope_def
      scope_entries_def gostr printable_def)

theorem archive_write_authorised_witness:
  "\<exists>w'. Put (fst (NewArchive aws_env mem_sdk)) ''photos'' ''k'' (whole [1]) empty_mem = (None, w') \<and>
        sdk_Upload mem_sdk ''cold'' ''photos/k'' (whole [1]) empty_mem = (None, w')"
proof -
  obtain w' where put: "Put (fst (NewArchive aws_env mem_sdk)) ''photos'' ''k'' (whole [1]) empty_mem = (None, w')"
    by (simp add: aws_env_archive Put_def InScope_def resolve_def S3PutObject_def)
  from archive_write_authorised [OF this]
  have "sdk_Upload mem_sdk ''cold'' ''photos/k'' (whole [1]) empty_mem = (None, w')"
    by (simp add: aws_env_archive resolve_def Let_def)
  with put show ?thesis by blast
qed

text \<open>
  Scope decides what is written, never what can be read back: whatever the
  allowlist, \<open>Open\<close>, \<open>Stat\<close> and \<open>Walk\<close> behave the same, so narrowing the scope cannot make
  an archived object unreachable.
\<close>

theorem reads_ignore_scope:
  "Open (a\<lparr>a_only := s\<rparr>) b k w = Open a b k w \<and>
   Stat (a\<lparr>a_only := s\<rparr>) b k w = Stat a b k w \<and>
   Walk (a\<lparr>a_only := s\<rparr>) b fn w = Walk a b fn w"
  by (simp add: Open_def Stat_def Walk_def resolve_def)

text \<open>
  The boot-time destination check is silenced by a scope: on an enabled
  single-bucket archive with \<open>ARCHIVE_ONLY_BUCKETS\<close> set, \<open>VerifyDestination\<close> asks
  \<open>Reachable\<close> about the empty bucket name, which is never in scope, and reports
  \<open>ErrArchiveNotInScope\<close> without a single call to S3, although uploads of the scoped
  buckets go to exactly that destination.
\<close>

theorem verify_destination_scoped:
  fixes env aws w
  defines "a \<equiv> fst (NewArchive env aws)"
  assumes "a_enabled a" and "a_bucket a \<noteq> ''''" and "a_only a \<noteq> None"
  shows "VerifyDestination a w = (Some ErrArchiveNotInScope, w) \<and>
         (\<exists>b. b \<noteq> '''' \<and> Reachable a b w = (case sdk_HeadBucket aws (a_bucket a) w of
            (Some e, w') \<Rightarrow> (Some (Wrapf (''archive bucket '' @ a_bucket a @ '' is not reachable'') e), w')
          | (None, w') \<Rightarrow> (None, w')))"
proof -
  from assms(4) obtain bs where bs: "a_only a = Some bs" by blast
  then have p: "parseBucketScope (GetEnvOrDefault env ''ARCHIVE_ONLY_BUCKETS'' '''') = Some bs"
    by (simp add: a_def NewArchive_def Let_def)
  from parseBucketScope_Some [OF p] obtain b where b: "b \<in> bs" "b \<noteq> ''''" and e: "'''' \<notin> bs"
    by blast
  have "a_aws a = aws" by (simp add: a_def NewArchive_def Let_def)
  with assms(2,3) bs b have "Reachable a b w = (case sdk_HeadBucket aws (a_bucket a) w of
            (Some e, w') \<Rightarrow> (Some (Wrapf (''archive bucket '' @ a_bucket a @ '' is not reachable'') e), w')
          | (None, w') \<Rightarrow> (None, w'))"
    by (simp add: Reachable_def InScope_def resolve_def S3HeadBucket_def Let_def)
  moreover from assms(2,3) bs e have "VerifyDestination a w = (Some ErrArchiveNotInScope, w)"
    by (simp add: VerifyDestination_def Reachable_def InScope_def)
  ultimately show ?thesis using b(2) by blast
qed

theorem verify_destination_scoped_witness:
  "VerifyDestination (fst (NewArchive aws_env mem_sdk)) empty_mem = (Some ErrArchiveNotInScope, empty_mem)"
  using verify_destination_scoped [of aws_env mem_sdk empty_mem] by (simp add: aws_env_archive)

end
