(* ===== verification/Tiering.thy ===== *)
theory Tiering
  imports Archive_Tier
begin

text \<open>
  \<open>service/tiering.go\<close>: moving objects between the local store and the archive, and
  the one rule the design rests on: a local copy is removed only right after the archive
  has been asked for that object by name and has answered with a matching size.
  \<open>http.DetectContentType\<close> is the parameter \<open>detect\<close>; every result holds for any of its values.
\<close>

section \<open>State and results\<close>

datatype TierOutcome =
    TierArchived
  | TierArchivedKept
  | TierAlreadyArchived
  | TierNotInScope
  | TierRestored
  | TierAlreadyLocal
  | TierNotFound
  | TierFailed

fun outcome_string :: "TierOutcome \<Rightarrow> string" where
  "outcome_string TierArchived = ''archived''"
| "outcome_string TierArchivedKept = ''archived_kept''"
| "outcome_string TierAlreadyArchived = ''already_archived''"
| "outcome_string TierNotInScope = ''not_in_scope''"
| "outcome_string TierRestored = ''restored''"
| "outcome_string TierAlreadyLocal = ''already_local''"
| "outcome_string TierNotFound = ''not_found''"
| "outcome_string TierFailed = ''failed''"

record TierResult =
  tr_Key :: string
  tr_Outcome :: TierOutcome
  tr_Size :: int
  tr_Err :: "gerror option"

datatype VerifyReason = VerifyOK | VerifyNotArchived | VerifySizeMismatch | VerifyError

fun reason_string :: "VerifyReason \<Rightarrow> string" where
  "reason_string VerifyOK = ''ok''"
| "reason_string VerifyNotArchived = ''not_archived''"
| "reason_string VerifySizeMismatch = ''size_mismatch''"
| "reason_string VerifyError = ''error''"

text \<open>The struct: the local store and the archive interface, which may be nil.\<close>

record 'w Tiering =
  t_store :: "'w object_store"
  t_archive :: "'w Archive option"

definition NewTiering :: "'w object_store \<Rightarrow> 'w Archive option \<Rightarrow> 'w Tiering" where
  "NewTiering store arch = \<lparr> t_store = store, t_archive = arch \<rparr>"

definition TierEnabled :: "'w Tiering \<Rightarrow> bool" where
  "TierEnabled t = (case t_archive t of None \<Rightarrow> False | Some A \<Rightarrow> ar_Enabled A)"

definition TierInScope :: "'w Tiering \<Rightarrow> string \<Rightarrow> bool" where
  "TierInScope t bucket = (case t_archive t of None \<Rightarrow> False | Some A \<Rightarrow> ar_InScope A bucket)"

section \<open>Operations\<close>

text \<open>Calling a method of a nil interface panics; \<open>nil_archive\<close> is that panic.\<close>

abbreviation nil_archive :: gerror where
  "nil_archive \<equiv> RuntimePanic ''nil pointer dereference''"

definition VerifyArchived ::
  "'w Tiering \<Rightarrow> string \<Rightarrow> string \<Rightarrow> int \<Rightarrow> 'w \<Rightarrow> (bool \<times> VerifyReason \<times> gerror option) \<times> 'w" where
  "VerifyArchived t bucket key localSize w =
     (case t_archive t of
        None \<Rightarrow> ((False, VerifyError, Some nil_archive), w)
      | Some A \<Rightarrow>
          (case ar_Stat A bucket key w of
             (Inl err, w') \<Rightarrow>
               (if errors_is err ErrArchiveNotFound then ((False, VerifyNotArchived, None), w')
                else ((False, VerifyError, Some err), w'))
           | (Inr archivedSize, w') \<Rightarrow>
               (if archivedSize \<noteq> localSize then ((False, VerifySizeMismatch, None), w')
                else ((True, VerifyOK, None), w'))))"

definition copyToArchive :: "'w Tiering \<Rightarrow> string \<Rightarrow> string \<Rightarrow> 'w \<Rightarrow> gerror option \<times> 'w" where
  "copyToArchive t bucket key w =
     (case OpenObject (t_store t) bucket key w of
        (Inl err, w') \<Rightarrow> (Some (Wrapf (''read '' @ bucket @ ''/'' @ key) err), w')
      | (Inr body, w') \<Rightarrow>
          (case t_archive t of
             None \<Rightarrow> (Some nil_archive, w')
           | Some A \<Rightarrow> ar_Put A bucket key body w'))"

abbreviation failed_result :: "string \<Rightarrow> int \<Rightarrow> gerror \<Rightarrow> TierResult" where
  "failed_result key sz err \<equiv>
     \<lparr> tr_Key = key, tr_Outcome = TierFailed, tr_Size = sz, tr_Err = Some err \<rparr>"

text \<open>The upload of \<open>ArchiveKnownObject\<close> and the second verification after it.\<close>

definition upload_and_reverify ::
  "'w Tiering \<Rightarrow> string \<Rightarrow> string \<Rightarrow> int \<Rightarrow> 'w \<Rightarrow> gerror option \<times> 'w" where
  "upload_and_reverify t bucket key localSize w =
     (case copyToArchive t bucket key w of
        (Some err, w1) \<Rightarrow> (Some err, w1)
      | (None, w1) \<Rightarrow>
          (case VerifyArchived t bucket key localSize w1 of
             ((verified, reason, Some err), w2) \<Rightarrow> (Some err, w2)
           | ((verified, reason, None), w2) \<Rightarrow>
               (if \<not> verified
                then (Some (ErrorString (''archive verification failed after upload: '' @ reason_string reason)), w2)
                else (None, w2))))"

definition finish_archive ::
  "'w Tiering \<Rightarrow> string \<Rightarrow> string \<Rightarrow> int \<Rightarrow> bool \<Rightarrow> 'w \<Rightarrow> TierResult \<times> 'w" where
  "finish_archive t bucket key localSize evict w =
     (if \<not> evict then
        (\<lparr> tr_Key = key, tr_Outcome = TierArchivedKept, tr_Size = localSize, tr_Err = None \<rparr>, w)
      else
        (case RemoveObject (t_store t) bucket key w of
           (Some err, w') \<Rightarrow>
             (failed_result key localSize (Wrapf ''archived but local copy could not be removed'' err), w')
         | (None, w') \<Rightarrow>
             (\<lparr> tr_Key = key, tr_Outcome = TierArchived, tr_Size = localSize, tr_Err = None \<rparr>, w')))"

definition ArchiveKnownObject ::
  "'w Tiering \<Rightarrow> string \<Rightarrow> string \<Rightarrow> int \<Rightarrow> bool \<Rightarrow> 'w \<Rightarrow> TierResult \<times> 'w" where
  "ArchiveKnownObject t bucket key localSize evict w =
     (if \<not> TierEnabled t then (failed_result key localSize ErrArchiveDisabled, w)
      else if \<not> TierInScope t bucket then
        (\<lparr> tr_Key = key, tr_Outcome = TierNotInScope, tr_Size = localSize, tr_Err = None \<rparr>, w)
      else
        (case VerifyArchived t bucket key localSize w of
           ((verified, reason, Some verifyErr), w1) \<Rightarrow> (failed_result key localSize verifyErr, w1)
         | ((verified, reason, None), w1) \<Rightarrow>
             (if \<not> verified then
                (case upload_and_reverify t bucket key localSize w1 of
                   (Some err, w2) \<Rightarrow> (failed_result key localSize err, w2)
                 | (None, w2) \<Rightarrow> finish_archive t bucket key localSize evict w2)
              else finish_archive t bucket key localSize evict w1)))"

definition ArchiveObject ::
  "'w Tiering \<Rightarrow> string \<Rightarrow> string \<Rightarrow> bool \<Rightarrow> 'w \<Rightarrow> TierResult \<times> 'w" where
  "ArchiveObject t bucket key evict w =
     (if \<not> TierEnabled t then (failed_result key 0 ErrArchiveDisabled, w)
      else
        (case StatObject (t_store t) bucket key w of
           (Inl statErr, w1) \<Rightarrow>
             (case t_archive t of
                None \<Rightarrow> (failed_result key 0 nil_archive, w1)
              | Some A \<Rightarrow>
                  (case ar_Stat A bucket key w1 of
                     (Inr n, w2) \<Rightarrow>
                       (\<lparr> tr_Key = key, tr_Outcome = TierAlreadyArchived, tr_Size = 0, tr_Err = None \<rparr>, w2)
                   | (Inl e, w2) \<Rightarrow>
                       (\<lparr> tr_Key = key, tr_Outcome = TierNotFound, tr_Size = 0, tr_Err = Some statErr \<rparr>, w2)))
         | (Inr info, w1) \<Rightarrow> ArchiveKnownObject t bucket key (oi_Size info) evict w1))"

text \<open>
  \<open>io.ReadFull\<close> into a buffer of \<open>n\<close> bytes: what was read and the error, if the reader
  failed before the buffer was full (end of input is not a failure here).
\<close>

definition ReadFull :: "nat \<Rightarrow> reader \<Rightarrow> bytes \<times> gerror option" where
  "ReadFull n rd =
     (take n (rd_data rd), if n \<le> length (rd_data rd) then None else rd_fail rd)"

definition RestoreObject ::
  "(bytes \<Rightarrow> string) \<Rightarrow> 'w Tiering \<Rightarrow> string \<Rightarrow> string \<Rightarrow> int \<Rightarrow> 'w \<Rightarrow> TierResult \<times> 'w" where
  "RestoreObject detect t bucket key archivedSize w =
     (case t_archive t of
        None \<Rightarrow> (failed_result key archivedSize ErrArchiveDisabled, w)
      | Some A \<Rightarrow>
         (if \<not> ar_Enabled A then (failed_result key archivedSize ErrArchiveDisabled, w)
          else
           (case StatObject (t_store t) bucket key w of (st, w1) \<Rightarrow>
             (if (case st of Inr info \<Rightarrow> oi_Size info = archivedSize | Inl e \<Rightarrow> False) then
                (\<lparr> tr_Key = key, tr_Outcome = TierAlreadyLocal, tr_Size = archivedSize, tr_Err = None \<rparr>, w1)
              else
               (case ar_Open A bucket key w1 of
                  (Inl err, w2) \<Rightarrow>
                    (if errors_is err ErrArchiveNotFound then
                       (\<lparr> tr_Key = key, tr_Outcome = TierNotFound, tr_Size = archivedSize, tr_Err = None \<rparr>, w2)
                     else (failed_result key archivedSize err, w2))
                | (Inr (body, sz), w2) \<Rightarrow>
                    (case ReadFull 512 body of
                       (head, Some readErr) \<Rightarrow>
                         (failed_result key archivedSize (Wrapf ''read archived object'' readErr), w2)
                     | (head, None) \<Rightarrow>
                         (case PutObject (t_store t) bucket key
                                 (body\<lparr>rd_data := head @ drop 512 (rd_data body)\<rparr>) sz (detect head) w2 of
                            (Inl err, w3) \<Rightarrow>
                              (failed_result key archivedSize (Wrapf ''write to local storage'' err), w3)
                          | (Inr m, w3) \<Rightarrow>
                              (\<lparr> tr_Key = key, tr_Outcome = TierRestored, tr_Size = sz, tr_Err = None \<rparr>, w3))))))))"

definition EnsureBucket :: "'w Tiering \<Rightarrow> string \<Rightarrow> 'w \<Rightarrow> gerror option \<times> 'w" where
  "EnsureBucket t bucket w =
     (case BucketExists (t_store t) bucket w of
        (Inl err, w1) \<Rightarrow> (Some err, w1)
      | (Inr True, w1) \<Rightarrow> (None, w1)
      | (Inr False, w1) \<Rightarrow> MakeBucket (t_store t) bucket w1)"

definition TierWalk :: "'w Tiering \<Rightarrow> string \<Rightarrow> 'w walk_fn \<Rightarrow> 'w \<Rightarrow> gerror option \<times> 'w" where
  "TierWalk t bucket fn w =
     (case t_archive t of None \<Rightarrow> (Some nil_archive, w) | Some A \<Rightarrow> ar_Walk A bucket fn w)"

section \<open>The gate in front of every local delete\<close>

lemma VerifyArchived_cases:
  assumes "VerifyArchived t b k n w = ((ok, reason, err), w')"
  obtains (nil) "t_archive t = None" "\<not> ok" "reason = VerifyError" "err = Some nil_archive" "w' = w"
  | (stat) A r where "t_archive t = Some A" "ar_Stat A b k w = (r, w')" "ok \<longleftrightarrow> r = Inr n"
      "ok \<longleftrightarrow> reason = VerifyOK" "err \<noteq> None \<longleftrightarrow> reason = VerifyError"
  using assms
  by (auto simp: VerifyArchived_def split: option.splits prod.splits sum.splits if_splits)

text \<open>
  An invariant \<open>I\<close> of the outside world survives archiving one object when reading,
  asking and uploading keep it, and when a removal keeps it provided that the archive's
  very last answer about this object was the expected size.
\<close>

lemma VerifyArchived_keeps:
  assumes "VerifyArchived t b k n w = ((ok, reason, err), w')" and "I w"
    and "\<And>A r w w'. t_archive t = Some A \<Longrightarrow> ar_Stat A b k w = (r, w') \<Longrightarrow> I w \<Longrightarrow> I w'"
  shows "I w'"
  using assms(1) by (cases rule: VerifyArchived_cases) (use assms(2,3) in auto)

lemma copyToArchive_keeps:
  assumes "copyToArchive t b k w = (u, w')" and "I w"
    and "\<And>g w w'. OpenObject (t_store t) b k w = (g, w') \<Longrightarrow> I w \<Longrightarrow> I w'"
    and "\<And>A rd u w w'. t_archive t = Some A \<Longrightarrow> ar_Put A b k rd w = (u, w') \<Longrightarrow> I w \<Longrightarrow> I w'"
  shows "I w'"
proof -
  obtain g w1 where open': "OpenObject (t_store t) b k w = (g, w1)" by fastforce
  then have "I w1" using assms(2,3) by blast
  then show ?thesis using assms(1) open' assms(4)
    by (auto simp: copyToArchive_def split: sum.splits option.splits prod.splits)
qed

text \<open>
  \<open>ArchiveKnownObject\<close> ends in one of two ways: it stops without removing anything, or it
  reaches \<open>finish_archive\<close> in a world that the archive's matching answer has just produced.
\<close>

lemma upload_and_reverify_ok:
  assumes "upload_and_reverify t b k n w = (None, w2)"
  obtains A w1 where "copyToArchive t b k w = (None, w1)" "t_archive t = Some A"
    "ar_Stat A b k w1 = (Inr n, w2)"
proof -
  from assms obtain w1 ok reason where c: "copyToArchive t b k w = (None, w1)"
    and v: "VerifyArchived t b k n w1 = ((ok, reason, None), w2)" and ok
    by (auto simp: upload_and_reverify_def split: option.splits prod.splits if_splits)
  from v show ?thesis
    by (cases rule: VerifyArchived_cases) (use that c \<open>ok\<close> in auto)
qed

lemma upload_and_reverify_keeps:
  assumes "upload_and_reverify t b k n w = (u, w')" and "I w"
    and stat: "\<And>A r w w'. t_archive t = Some A \<Longrightarrow> ar_Stat A b k w = (r, w') \<Longrightarrow> I w \<Longrightarrow> I w'"
    and op: "\<And>g w w'. OpenObject (t_store t) b k w = (g, w') \<Longrightarrow> I w \<Longrightarrow> I w'"
    and put: "\<And>A rd u w w'. t_archive t = Some A \<Longrightarrow> ar_Put A b k rd w = (u, w') \<Longrightarrow> I w \<Longrightarrow> I w'"
  shows "I w'"
proof -
  obtain e w1 where c: "copyToArchive t b k w = (e, w1)" by fastforce
  have "I w1" by (rule copyToArchive_keeps [where I = I, OF c assms(2) op put])
  with assms(1) c show ?thesis
    by (auto simp: upload_and_reverify_def split: option.splits prod.splits if_splits
        intro: VerifyArchived_keeps [where I = I, OF _ _ stat])
qed

lemma finish_archive_cases:
  assumes "finish_archive t b k n evict w = (res, w')"
  obtains (kept) "\<not> evict" "tr_Outcome res = TierArchivedKept" "w' = w" "tr_Size res = n" "tr_Err res = None"
  | (removed) u where "evict" "RemoveObject (t_store t) b k w = (u, w')" "tr_Size res = n"
      "tr_Outcome res = (if u = None then TierArchived else TierFailed)" "tr_Err res = None \<longleftrightarrow> u = None"
  using assms by (auto simp: finish_archive_def split: if_splits prod.splits option.splits)

lemma ArchiveKnownObject_cases:
  assumes run: "ArchiveKnownObject t b k n evict w = (res, w')" and "I w"
    and stat: "\<And>A r w w'. t_archive t = Some A \<Longrightarrow> ar_Stat A b k w = (r, w') \<Longrightarrow> I w \<Longrightarrow> I w'"
    and op: "\<And>g w w'. OpenObject (t_store t) b k w = (g, w') \<Longrightarrow> I w \<Longrightarrow> I w'"
    and put: "\<And>A rd u w w'. t_archive t = Some A \<Longrightarrow> ar_Put A b k rd w = (u, w') \<Longrightarrow> I w \<Longrightarrow> I w'"
  obtains (stopped) "I w'" "tr_Outcome res \<in> {TierFailed, TierNotInScope}"
  | (settled) A w0 w1 where "t_archive t = Some A" "ar_Enabled A" "ar_InScope A b"
      "ar_Stat A b k w0 = (Inr n, w1)" "I w0" "I w1" "finish_archive t b k n evict w1 = (res, w')"
proof (cases "TierEnabled t \<and> TierInScope t b")
  case False
  with run \<open>I w\<close> show ?thesis
    by (intro stopped) (auto simp: ArchiveKnownObject_def split: if_splits)
next
  case True
  then obtain A where A: "t_archive t = Some A" "ar_Enabled A" "ar_InScope A b"
    by (auto simp: TierEnabled_def TierInScope_def split: option.splits)
  obtain ok reason err w1 where v: "VerifyArchived t b k n w = ((ok, reason, err), w1)"
    by (cases "VerifyArchived t b k n w") auto
  have w1: "I w1" by (rule VerifyArchived_keeps [where I = I, OF v \<open>I w\<close> stat])
  from v A(1) have ok: "ok \<Longrightarrow> ar_Stat A b k w = (Inr n, w1)"
    by (cases rule: VerifyArchived_cases) auto
  obtain u w2 where up: "upload_and_reverify t b k n w1 = (u, w2)" by fastforce
  have w2: "I w2" by (rule upload_and_reverify_keeps [where I = I, OF up w1 stat op put])
  consider (fail) "I w'" "tr_Outcome res \<in> {TierFailed, TierNotInScope}"
    | (first) "ok" "finish_archive t b k n evict w1 = (res, w')"
    | (second) "u = None" "finish_archive t b k n evict w2 = (res, w')"
    using run True v up w1 w2 by (auto simp: ArchiveKnownObject_def split: option.splits if_splits)
  then show ?thesis
  proof cases
    case fail
    then show ?thesis by (rule stopped)
  next
    case first
    then show ?thesis using ok A \<open>I w\<close> w1 by (intro settled) auto
  next
    case second
    from up second(1) obtain A' wp where c: "copyToArchive t b k w1 = (None, wp)"
      and "t_archive t = Some A'" and st: "ar_Stat A' b k wp = (Inr n, w2)"
      by (auto elim: upload_and_reverify_ok)
    moreover have "I wp" by (rule copyToArchive_keeps [where I = I, OF c w1 op put])
    ultimately show ?thesis using A w2 second(2) by (intro settled [of A wp w2]) auto
  qed
qed

lemma ArchiveKnownObject_gate:
  assumes run: "ArchiveKnownObject t b k n evict w = (res, w')" and "I w"
    and stat: "\<And>A r w w'. t_archive t = Some A \<Longrightarrow> ar_Stat A b k w = (r, w') \<Longrightarrow> I w \<Longrightarrow> I w'"
    and op: "\<And>g w w'. OpenObject (t_store t) b k w = (g, w') \<Longrightarrow> I w \<Longrightarrow> I w'"
    and put: "\<And>A rd u w w'. t_archive t = Some A \<Longrightarrow> ar_Put A b k rd w = (u, w') \<Longrightarrow> I w \<Longrightarrow> I w'"
    and remove: "\<And>A w0 w1 u w2. evict \<Longrightarrow> t_archive t = Some A \<Longrightarrow> ar_Enabled A \<Longrightarrow> ar_InScope A b \<Longrightarrow>
      ar_Stat A b k w0 = (Inr n, w1) \<Longrightarrow> I w1 \<Longrightarrow> RemoveObject (t_store t) b k w1 = (u, w2) \<Longrightarrow> I w2"
  shows "I w'"
proof (rule ArchiveKnownObject_cases [where I = I, OF run \<open>I w\<close>])
  fix A w0 w1
  assume settled: "t_archive t = Some A" "ar_Enabled A" "ar_InScope A b"
    "ar_Stat A b k w0 = (Inr n, w1)" "I w0" "I w1" "finish_archive t b k n evict w1 = (res, w')"
  from settled(7) show "I w'"
    by (cases rule: finish_archive_cases) (use settled remove in auto)
qed (use stat op put in blast)+

section \<open>What never happens: operations that do not depend on a service call\<close>

text \<open>
  That an operation never calls a method is expressed by its result being the same
  whatever the method does.
\<close>

lemma NewTiering_sel [simp]:
  "t_store (NewTiering S Ao) = S" "t_archive (NewTiering S Ao) = Ao"
  by (simp_all add: NewTiering_def)

lemma TierEnabled_New [simp]: "TierEnabled (NewTiering S (Some A)) = ar_Enabled A"
  by (simp add: TierEnabled_def)

lemma TierInScope_New [simp]: "TierInScope (NewTiering S (Some A)) b = ar_InScope A b"
  by (simp add: TierInScope_def)

lemma VerifyArchived_store: "VerifyArchived (NewTiering S Ao) = VerifyArchived (NewTiering S' Ao)"
  by (simp add: VerifyArchived_def fun_eq_iff)

lemma copyToArchive_remove:
  "copyToArchive (NewTiering (S\<lparr>RemoveObject := R\<rparr>) Ao) = copyToArchive (NewTiering S Ao)"
  by (auto simp: copyToArchive_def fun_eq_iff split: prod.splits sum.splits)

lemma upload_and_reverify_remove:
  "upload_and_reverify (NewTiering (S\<lparr>RemoveObject := R\<rparr>) Ao) = upload_and_reverify (NewTiering S Ao)"
  unfolding upload_and_reverify_def fun_eq_iff copyToArchive_remove
    VerifyArchived_store [of "S\<lparr>RemoveObject := R\<rparr>" Ao S] by simp

lemmas remove_free = copyToArchive_remove upload_and_reverify_remove
  VerifyArchived_store [of "S\<lparr>RemoveObject := R\<rparr>" Ao S for S R Ao]

lemma finish_archive_copy:
  "finish_archive t b k n False w =
     (\<lparr> tr_Key = k, tr_Outcome = TierArchivedKept, tr_Size = n, tr_Err = None \<rparr>, w)"
  by (simp add: finish_archive_def)

lemma ArchiveKnownObject_copy_remove:
  "ArchiveKnownObject (NewTiering (S\<lparr>RemoveObject := R\<rparr>) (Some A)) b k n False w =
   ArchiveKnownObject (NewTiering S (Some A)) b k n False w"
  unfolding ArchiveKnownObject_def remove_free finish_archive_copy by simp

lemma ArchiveKnownObject_unanswered:
  assumes no: "\<And>w w'. ar_Stat A b k w \<noteq> (Inr n, w')"
  shows "ArchiveKnownObject (NewTiering (S\<lparr>RemoveObject := R\<rparr>) (Some A)) b k n evict w =
         ArchiveKnownObject (NewTiering S (Some A)) b k n evict w"
proof -
  let ?t = "NewTiering S (Some A)"
  have "\<not> ok" if "VerifyArchived ?t b k n v = ((ok, r, e), v')" for ok r e v v'
    using that no by (auto elim!: VerifyArchived_cases)
  moreover have "u \<noteq> None" if "upload_and_reverify ?t b k n v = (u, v')" for u v v'
    using that no by (cases u) (auto elim!: upload_and_reverify_ok)
  ultimately show ?thesis
    unfolding ArchiveKnownObject_def remove_free
    by (auto split: prod.splits option.splits; fastforce)
qed

lemma RestoreObject_remove_put:
  "RestoreObject detect (NewTiering (S\<lparr>RemoveObject := R\<rparr>) (Some (A\<lparr>ar_Put := P\<rparr>))) b k n w =
   RestoreObject detect (NewTiering S (Some A)) b k n w"
proof -
  have "t_store (NewTiering (S\<lparr>RemoveObject := R\<rparr>) Ao) = S\<lparr>RemoveObject := R\<rparr>" for Ao by simp
  then show ?thesis
    unfolding RestoreObject_def NewTiering_sel by (simp split: prod.split sum.split option.split)
qed

section \<open>No object is lost\<close>

text \<open>
  \<open>kept hot cold w w1\<close>: from \<open>w\<close> to \<open>w1\<close> the local objects are unchanged and nothing that was
  archived has gone.  Asking, reading and uploading keep it, in either order.
\<close>

definition kept :: "('w \<Rightarrow> string \<Rightarrow> string \<Rightarrow> bytes option) \<Rightarrow>
    ('w \<Rightarrow> string \<Rightarrow> string \<Rightarrow> bytes option) \<Rightarrow> 'w \<Rightarrow> 'w \<Rightarrow> bool" where
  "kept hot cold w w1 \<longleftrightarrow> hot w1 = hot w \<and>
     (\<forall>b k. slashless b \<longrightarrow> cold w b k \<noteq> None \<longrightarrow> cold w1 b k \<noteq> None)"

lemma kept_refl [simp]: "kept hot cold w w"
  by (simp add: kept_def)

lemma kept_hot: "kept hot cold w w1 \<Longrightarrow> hot w1 = hot w"
  by (simp add: kept_def)

lemma kept_cold: "kept hot cold w w1 \<Longrightarrow> slashless b \<Longrightarrow> cold w b k \<noteq> None \<Longrightarrow> cold w1 b k \<noteq> None"
  by (simp add: kept_def)

context two_tiers
begin

lemma stat_kept: "ar_Stat A b k u = (r, u') \<Longrightarrow> kept hot cold w u \<Longrightarrow> kept hot cold w u'"
  by (simp add: kept_def stat_frame stat_hot)

lemma open_kept: "ar_Open A b k u = (g, u') \<Longrightarrow> kept hot cold w u \<Longrightarrow> kept hot cold w u'"
  by (simp add: kept_def open_frame open_hot)

lemma statobj_kept: "StatObject S b k u = (r, u') \<Longrightarrow> kept hot cold w u \<Longrightarrow> kept hot cold w u'"
  by (simp add: kept_def statobj_frame statobj_cold)

lemma openobj_kept: "OpenObject S b k u = (g, u') \<Longrightarrow> kept hot cold w u \<Longrightarrow> kept hot cold w u'"
  by (simp add: kept_def openobj_frame openobj_cold)

lemma put_kept:
  assumes "ar_Put A b k rd u = (p, u')" and "slashless b" and "kept hot cold w u"
  shows "kept hot cold w u'"
proof -
  have "cold u b' k' \<noteq> None \<Longrightarrow> cold u' b' k' \<noteq> None" if "slashless b'" for b' k'
    using put_other [OF assms(1,2) that, of k'] put_keeps [OF assms(1)]
    by (cases "(b', k') = (b, k)") auto
  with assms(3) put_hot [OF assms(1)] show ?thesis by (simp add: kept_def)
qed

text \<open>
  The shape of every run: it stops with both tiers kept, or the archive holds an
  object of the expected size in a kept world and \<open>finish_archive\<close> acts on that world.
\<close>

lemma ArchiveKnownObject_shape:
  assumes run: "ArchiveKnownObject (NewTiering S (Some A)) b k n evict w = (res, w')" and sl: "slashless b"
  obtains (stopped) "kept hot cold w w'" "tr_Outcome res \<in> {TierFailed, TierNotInScope}"
  | (settled) w1 c where "kept hot cold w w1" "cold w1 b k = Some c" "int (length c) = n"
      "finish_archive (NewTiering S (Some A)) b k n evict w1 = (res, w')"
proof (rule ArchiveKnownObject_cases [where I = "kept hot cold w", OF run kept_refl])
  fix A' w0 w1
  assume "t_archive (NewTiering S (Some A)) = Some A'" and st: "ar_Stat A' b k w0 = (Inr n, w1)"
    and w1: "kept hot cold w w1" and fin: "finish_archive (NewTiering S (Some A)) b k n evict w1 = (res, w')"
  then have st: "ar_Stat A b k w0 = (Inr n, w1)" by simp
  from stat_ok [OF st] stat_frame [OF st] obtain c where "cold w1 b k = Some c" "n = int (length c)"
    by auto
  then show ?thesis using w1 fin by (intro settled) auto
qed (use stopped stat_kept openobj_kept put_kept sl in auto)

lemma finish_archive_hot:
  assumes "finish_archive (NewTiering S (Some A)) b k n evict w1 = (res, w')"
  shows "cold w' = cold w1 \<and> (hot w' b' k' = hot w1 b' k' \<or> evict \<and> b' = b \<and> k' = k)"
  using assms
  by (cases rule: finish_archive_cases) (auto simp: remove_cold dest: remove_other)

lemma ArchiveKnownObject_safe:
  assumes run: "ArchiveKnownObject (NewTiering S (Some A)) b k n evict w = (res, w')" and sl: "slashless b"
    and had: "hot w b' k' = Some c"
  shows "hot w' b' k' = Some c \<or>
         evict \<and> b' = b \<and> k' = k \<and> (\<exists>c'. cold w' b k = Some c' \<and> int (length c') = n)"
  using run sl
proof (cases rule: ArchiveKnownObject_shape)
  case stopped
  then show ?thesis using had by (simp add: kept_hot)
next
  case (settled w1 c1)
  then show ?thesis
    using finish_archive_hot [OF settled(4), of b' k'] had kept_hot [OF settled(1)] by auto
qed

lemma ArchiveKnownObject_cold:
  assumes run: "ArchiveKnownObject (NewTiering S (Some A)) b k n evict w = (res, w')" and sl: "slashless b"
    and "slashless b'" and "cold w b' k' \<noteq> None"
  shows "cold w' b' k' \<noteq> None"
  using run sl
proof (cases rule: ArchiveKnownObject_shape)
  case stopped
  then show ?thesis using assms(3,4) by (auto dest: kept_cold)
next
  case (settled w1 c1)
  then show ?thesis using finish_archive_hot [OF settled(4)] assms(3,4) by (auto dest: kept_cold)
qed

lemma ArchiveKnownObject_copy:
  assumes run: "ArchiveKnownObject (NewTiering S (Some A)) b k n False w = (res, w')" and sl: "slashless b"
  shows "kept hot cold w w'"
  using run sl
proof (cases rule: ArchiveKnownObject_shape)
  case (settled w1 c1)
  from settled(4) have "w' = w1" by (simp add: finish_archive_def)
  then show ?thesis using settled by simp
qed simp

lemma ArchiveKnownObject_truthful:
  assumes run: "ArchiveKnownObject (NewTiering S (Some A)) b k n evict w = (res, w')" and sl: "slashless b"
    and "tr_Outcome res \<in> {TierArchived, TierArchivedKept}"
  shows "\<exists>c. cold w' b k = Some c \<and> int (length c) = n"
  using run sl
proof (cases rule: ArchiveKnownObject_shape)
  case stopped
  then show ?thesis using assms(3) by auto
next
  case (settled w1 c1)
  then show ?thesis using finish_archive_hot [OF settled(4)] by auto
qed

lemma ArchiveObject_safe:
  assumes run: "ArchiveObject (NewTiering S (Some A)) b k evict w = (res, w')" and sl: "slashless b"
    and had: "hot w b' k' = Some c"
  shows "hot w' b' k' = Some c \<or>
         evict \<and> b' = b \<and> k' = k \<and> (\<exists>c'. cold w' b k = Some c' \<and> length c' = length c)"
proof -
  obtain st w1 where st: "StatObject S b k w = (st, w1)" by fastforce
  have hot1: "hot w1 = hot w" by (rule statobj_frame [OF st])
  show ?thesis
  proof (cases "ar_Enabled A")
    case False
    with run had show ?thesis by (simp add: ArchiveObject_def)
  next
    case True
    show ?thesis
    proof (cases st)
      case (Inl e)
      obtain r w2 where r: "ar_Stat A b k w1 = (r, w2)" by fastforce
      from run st Inl True r have "w' = w2"
        by (auto simp: ArchiveObject_def split: sum.splits)
      then show ?thesis using had hot1 stat_hot [OF r] by simp
    next
      case (Inr info)
      with run st True have run1: "ArchiveKnownObject (NewTiering S (Some A)) b k (oi_Size info) evict w1 = (res, w')"
        by (simp add: ArchiveObject_def)
      from st Inr obtain cl where "hot w b k = Some cl" "oi_Size info = int (length cl)"
        using statobj_ok by blast
      then show ?thesis
        using ArchiveKnownObject_safe [OF run1 sl, of b' k' c] had hot1 by auto
    qed
  qed
qed

end

section \<open>Restoring\<close>

lemma RestoreObject_keeps:
  assumes "RestoreObject detect t b k n w = (res, w')" and "I w"
    and stat: "\<And>r v v'. StatObject (t_store t) b k v = (r, v') \<Longrightarrow> I v \<Longrightarrow> I v'"
    and op: "\<And>A g v v'. t_archive t = Some A \<Longrightarrow> ar_Open A b k v = (g, v') \<Longrightarrow> I v \<Longrightarrow> I v'"
    and put: "\<And>rd m ct p v v'. PutObject (t_store t) b k rd m ct v = (p, v') \<Longrightarrow> I v \<Longrightarrow> I v'"
  shows "I w'"
proof -
  obtain st w1 where st: "StatObject (t_store t) b k w = (st, w1)" by fastforce
  with stat \<open>I w\<close> have w1: "I w1" by blast
  show ?thesis
  proof (cases "t_archive t")
    case None
    with assms(1,2) show ?thesis by (simp add: RestoreObject_def)
  next
    case (Some A)
    obtain g w2 where g: "ar_Open A b k w1 = (g, w2)" by fastforce
    with op [OF Some] w1 have w2: "I w2" by blast
    from assms(1) st Some g have "w' = w \<or> w' = w1 \<or> w' = w2 \<or>
        (\<exists>rd m ct p. PutObject (t_store t) b k rd m ct w2 = (p, w'))"
      by (auto simp: RestoreObject_def split: if_splits sum.splits prod.splits option.splits)
    with put assms(2) w1 w2 show ?thesis by blast
  qed
qed

context two_tiers
begin

text \<open>A restore reads both tiers and writes the local store, once, when it reports success.\<close>

lemma RestoreObject_shape:
  assumes run: "RestoreObject detect (NewTiering S (Some A)) b k n w = (res, w')"
  obtains (stopped) "kept hot cold w w'" "tr_Outcome res \<in> {TierFailed, TierNotFound, TierAlreadyLocal}"
  | (written) w2 body sz w1 p where "cold w1 = cold w" "hot w2 = hot w"
      "ar_Open A b k w1 = (Inr (body, sz), w2)" "w1 = snd (StatObject S b k w)"
      "PutObject S b k body sz (detect (take 512 (rd_data body))) w2 = (p, w')"
      "tr_Outcome res = (case p of Inl e \<Rightarrow> TierFailed | Inr m \<Rightarrow> TierRestored)"
      "\<not> isl p \<Longrightarrow> tr_Size res = sz"
proof (cases "ar_Enabled A")
  case False
  with run have "w' = w" "tr_Outcome res = TierFailed" by (auto simp: RestoreObject_def)
  then show ?thesis by (intro stopped) auto
next
  case True
  obtain st w1 where st: "StatObject S b k w = (st, w1)" by fastforce
  have w1: "kept hot cold w w1" by (rule statobj_kept [OF st kept_refl])
  obtain g w2 where g: "ar_Open A b k w1 = (g, w2)" by fastforce
  have w2: "kept hot cold w w2" by (rule open_kept [OF g w1])
  show ?thesis
  proof (cases "case st of Inr info \<Rightarrow> oi_Size info = n | Inl e \<Rightarrow> False")
    case True
    with \<open>ar_Enabled A\<close> run st have "w' = w1" "tr_Outcome res = TierAlreadyLocal"
      by (auto simp: RestoreObject_def)
    with w1 show ?thesis by (intro stopped) auto
  next
    case here: False
    show ?thesis
    proof (cases g)
      case (Inl e)
      with \<open>ar_Enabled A\<close> run st here g have "w' = w2" "tr_Outcome res \<in> {TierFailed, TierNotFound}"
        by (auto simp: RestoreObject_def split: if_splits)
      with w2 show ?thesis by (intro stopped) auto
    next
      case (Inr bs)
      obtain body sz where bs: "bs = (body, sz)" by fastforce
      obtain head e where rf: "ReadFull 512 body = (head, e)" by fastforce
      then have head: "head = take 512 (rd_data body)" and "head @ drop 512 (rd_data body) = rd_data body"
        by (auto simp: ReadFull_def)
      then have same: "body\<lparr>rd_data := head @ drop 512 (rd_data body)\<rparr> = body" by simp
      obtain p w3 where p: "PutObject S b k body sz (detect head) w2 = (p, w3)" by fastforce
      note run = run [unfolded RestoreObject_def NewTiering_sel, simplified, unfolded st]
      show ?thesis
      proof (cases e)
        case (Some e)
        with \<open>ar_Enabled A\<close> run st here g Inr bs rf have "w' = w2" "tr_Outcome res = TierFailed"
          by auto
        with w2 show ?thesis by (intro stopped) auto
      next
        case None
        with \<open>ar_Enabled A\<close> run st here g Inr bs rf p same
        have "w' = w3" "tr_Outcome res = (case p of Inl e \<Rightarrow> TierFailed | Inr m \<Rightarrow> TierRestored)"
          "\<not> isl p \<Longrightarrow> tr_Size res = sz"
          by (auto split: sum.splits)
        with p [unfolded head] g Inr bs st statobj_cold [OF st] w2 show ?thesis
          by (intro written [of w1 w2 body sz p]) (auto dest: kept_hot)
      qed
    qed
  qed
qed

lemma RestoreObject_frame:
  assumes run: "RestoreObject detect (NewTiering S (Some A)) b k n w = (res, w')"
  shows "\<forall>b' k'. (b', k') \<noteq> (b, k) \<longrightarrow> hot w' b' k' = hot w b' k'"
  using run
proof (cases rule: RestoreObject_shape)
  case stopped
  then show ?thesis by (auto simp: kept_def)
next
  case (written w2 body sz w1 p)
  then show ?thesis using putobj_other [OF written(5)] by simp
qed

text \<open>A restore is atomic: the local object is untouched, or it is the archived copy.\<close>

lemma RestoreObject_atomic:
  assumes run: "RestoreObject detect (NewTiering S (Some A)) b k n w = (res, w')"
  shows "hot w' b k = hot w b k \<or> (\<exists>c. cold w b k = Some c \<and> hot w' b k \<in> {Some c, Some []})"
  using run
proof (cases rule: RestoreObject_shape)
  case stopped
  then show ?thesis by (simp add: kept_hot)
next
  case (written w2 body sz w1 p)
  from open_ok [OF written(3)] obtain c where c: "cold w1 b k = Some c" "streams body c"
    "sz = 0 \<or> sz = int (length c)" by blast
  then have "0 \<le> sz" by auto
  then have "hot w' b k = hot w2 b k \<or>
      sz \<le> int (length (rd_data body)) \<and> hot w' b k = Some (take (nat sz) (rd_data body))"
    using putobj_ok putobj_err written(5) by (cases p) blast+
  moreover have "take (nat sz) (rd_data body) \<in> {c, []}" if "sz \<le> int (length (rd_data body))"
    using that c streams_take [OF c(2)] by auto
  ultimately show ?thesis using c(1) written(1,2) by auto
qed

lemma RestoreObject_cold:
  "RestoreObject detect (NewTiering S (Some A)) b k n w = (res, w') \<Longrightarrow> cold w' = cold w"
proof (erule RestoreObject_keeps [where I = "\<lambda>v. cold v = cold w"])
  show "StatObject (t_store (NewTiering S (Some A))) b k v = (r, v') \<Longrightarrow> cold v = cold w \<Longrightarrow> cold v' = cold w"
    for r v v' using statobj_cold [of b k v r v'] by simp
  show "t_archive (NewTiering S (Some A)) = Some A' \<Longrightarrow> ar_Open A' b k v = (g, v') \<Longrightarrow> cold v = cold w \<Longrightarrow>
      cold v' = cold w" for A' g v v' using open_frame [of b k v g v'] by simp
  show "PutObject (t_store (NewTiering S (Some A))) b k rd m ct v = (p, v') \<Longrightarrow> cold v = cold w \<Longrightarrow> cold v' = cold w"
    for rd m ct p v v' using putobj_cold [of b k rd m ct v p v'] by simp
qed simp

lemma RestoreObject_content:
  assumes run: "RestoreObject detect (NewTiering S (Some A)) b k n w = (res, w')"
    and ok: "tr_Outcome res = TierRestored"
  shows "\<exists>c. cold w b k = Some c \<and>
           (hot w' b k = Some c \<and> tr_Size res = int (length c) \<or>
            c \<noteq> [] \<and> hot w' b k = Some [] \<and> tr_Size res = 0 \<and>
            (\<exists>body w2. ar_Open A b k (snd (StatObject S b k w)) = (Inr (body, 0), w2)))"
  using run
proof (cases rule: RestoreObject_shape)
  case stopped
  then show ?thesis using ok by auto
next
  case (written w2 body sz w1 p)
  with ok obtain m' where p: "p = Inr m'" by (cases p) auto
  with written have size: "tr_Size res = sz" by simp
  from open_ok [OF written(3)] obtain c where c: "cold w1 b k = Some c" "streams body c"
    "sz = 0 \<or> sz = int (length c)" by blast
  from c(3) have "0 \<le> sz" by auto
  with putobj_ok [OF written(5) [unfolded p]]
  have put: "sz \<le> int (length (rd_data body))" "hot w' b k = Some (take (nat sz) (rd_data body))"
    by auto
  show ?thesis
  proof (cases "sz = 0")
    case True
    then show ?thesis using put size c(1) written(1,3,4) by (cases "c = []") auto
  next
    case False
    with c put have "rd_data body = c" by (intro streams_take) auto
    then show ?thesis using put size c False written(1) by auto
  qed
qed

end

section \<open>The deployed pair: MinIO and the S3 archive\<close>

text \<open>
  What the two storage services promise, without anything about the repository's own
  code: S3 and MinIO keep their contracts and neither touches what the other one stores.
  Then \<open>archive.go\<close> over S3 and the local store are two tiers.
\<close>

locale deployment = archived_s3 a s3 + hot_store S hot
  for a :: "'w archive" and s3 and S :: "'w object_store" and hot +
  assumes head_hot: "sdk_HeadObject (a_aws a) b k w = (h, w') \<Longrightarrow> hot w' = hot w"
    and get_hot: "sdk_GetObject (a_aws a) b k w = (g, w') \<Longrightarrow> hot w' = hot w"
    and upload_hot: "sdk_Upload (a_aws a) b k rd w = (u, w') \<Longrightarrow> hot w' = hot w"
    and statobj_s3: "StatObject S b k w = (ro, w') \<Longrightarrow> s3 w' = s3 w"
    and list_s3: "ListObjects S b w = (lo, w') \<Longrightarrow> s3 w' = s3 w"
    and buckets_s3: "ListBuckets S w = (bo, w') \<Longrightarrow> s3 w' = s3 w"
    and exists_s3: "BucketExists S b w = (ex, w') \<Longrightarrow> s3 w' = s3 w"
    and make_s3: "MakeBucket S b w = (mk, w') \<Longrightarrow> s3 w' = s3 w"
    and pages_hot: "sdk_Pages (a_aws a) b p w = (ps, w') \<Longrightarrow> hot w' = hot w"
    and openobj_s3: "OpenObject S b k w = (go, w') \<Longrightarrow> s3 w' = s3 w"
    and remove_s3: "RemoveObject S b k w = (uo, w') \<Longrightarrow> s3 w' = s3 w"
    and putobj_s3: "PutObject S b k rd n ct w = (po, w') \<Longrightarrow> s3 w' = s3 w"

sublocale deployment \<subseteq> two_tiers "archive_iface a" "cold_of a s3" S hot
proof unfold_locales
  fix b k w r w' assume "ar_Stat (archive_iface a) b k w = (r, w')"
  then show "hot w' = hot w" using Stat_world head_hot by fastforce
next
  fix b k w g w' assume "ar_Open (archive_iface a) b k w = (g, w')"
  then show "hot w' = hot w" using Open_world get_hot by fastforce
next
  fix b k rd w u w' assume "ar_Put (archive_iface a) b k rd w = (u, w')"
  then show "hot w' = hot w" using Put_world upload_hot by fastforce
qed (rule cold_cong, (erule statobj_s3 list_s3 buckets_s3 exists_s3 make_s3 openobj_s3 remove_s3 putobj_s3))+

context deployment
begin

lemma tiers: "two_tiers (archive_iface a) (cold_of a s3) S hot"
  by (rule two_tiers_axioms)

text \<open>\<open>Open\<close> names a wrong size in one case only.\<close>

lemma Open_size:
  assumes "Open a b k w = (Inr (body, n), w')"
  shows "\<exists>c. cold_of a s3 w b k = Some c \<and> streams body c \<and>
    (n = int (length c) \<or>
     n = 0 \<and> sdk_GetObject (a_aws a) (fst (resolve a b k)) (snd (resolve a b k)) w = (Inr (body, None), w'))"
  using Open_Inr [OF assms] get_ok by (fastforce simp: cold_of_def split: option.splits)

end

interpretation mem_deployment: deployment mem_archive m_s3 mem_store m_hot
  by unfold_locales (auto simp: mem_archive_def split: option.splits if_splits)

text \<open>The world of the witnesses: a local photo of two bytes, and another one already archived.\<close>

definition tier_world :: mem where
  "tier_world =
     \<lparr> m_hot = upd2 (upd2 (\<lambda>_ _. None) ''photos'' ''a.png'' (Some [1, 2])) ''photos'' ''b.png'' (Some [3]),
       m_s3 = upd2 (\<lambda>_ _. None) ''cold'' ''photos/b.png'' (Some [3]),
       m_buckets = [''photos''], m_list = (\<lambda>_. []), m_pages = [] \<rparr>"

abbreviation mem_tiering :: "mem Tiering" where
  "mem_tiering \<equiv> NewTiering mem_store (Some (archive_iface mem_archive))"

lemma mem_archive_sel [simp]:
  "a_aws mem_archive = mem_sdk" "a_enabled mem_archive = True"
  "a_bucket mem_archive = ''cold''" "a_only mem_archive = None"
  by (simp_all add: mem_archive_def)

lemmas run_tiers = ArchiveObject_def ArchiveKnownObject_def upload_and_reverify_def copyToArchive_def
  finish_archive_def VerifyArchived_def RestoreObject_def ReadFull_def EnsureBucket_def
  Stat_def Open_def Put_def InScope_def resolve_def S3HeadObject_def S3GetObject_def S3PutObject_def
  isNotFound_def Let_def

section \<open>Properties\<close>

text \<open>
  Property C1.  Archiving never loses an object.  Whatever fails on the way, every local
  object is still there afterwards, except the archived one when eviction was asked for;
  and if that one has gone, the archive holds a copy of the same length.
\<close>

theorem evict_never_loses:
  assumes "deployment a s3 S hot" and "slashless b"
    and "ArchiveObject (NewTiering S (Some (archive_iface a))) b k evict w = (res, w')"
    and "hot w b' k' = Some c"
  shows "hot w' b' k' = Some c \<or>
         evict \<and> b' = b \<and> k' = k \<and> (\<exists>c'. cold_of a s3 w' b k = Some c' \<and> length c' = length c)"
  by (rule two_tiers.ArchiveObject_safe [OF deployment.tiers [OF assms(1)] assms(3,2,4)])

theorem evict_never_loses_witness:
  "\<exists>res w'. ArchiveObject mem_tiering ''photos'' ''a.png'' True tier_world = (res, w') \<and>
     tr_Outcome res = TierArchived \<and> m_hot w' ''photos'' ''a.png'' = None \<and>
     (\<exists>c'. cold_of mem_archive m_s3 w' ''photos'' ''a.png'' = Some c' \<and> length c' = 2)"
proof -
  obtain res w' where run: "ArchiveObject mem_tiering ''photos'' ''a.png'' True tier_world = (res, w')"
    and gone: "tr_Outcome res = TierArchived" "m_hot w' ''photos'' ''a.png'' = None"
    by (simp add: run_tiers tier_world_def)
  have "slashless ''photos''" by (simp add: slashless_def)
  from evict_never_loses [OF mem_deployment.deployment_axioms this run, of "''photos''" "''a.png''" "[1, 2]"] gone
  have "\<exists>c'. cold_of mem_archive m_s3 w' ''photos'' ''a.png'' = Some c' \<and> length c' = 2"
    by (simp add: tier_world_def upd2_def numeral_2_eq_2)
  with run gone show ?thesis by blast
qed

text \<open>
  The archive only grows: no archiving or restoring run removes an object
  from cold storage, whichever branch it takes.
\<close>

theorem cold_never_shrinks:
  assumes "deployment a s3 S hot" and "slashless b" and "slashless b'"
    and "ArchiveKnownObject (NewTiering S (Some (archive_iface a))) b k n evict w = (res, w1)"
    and "RestoreObject detect (NewTiering S (Some (archive_iface a))) b k n w1 = (res', w2)"
    and "cold_of a s3 w b' k' \<noteq> None"
  shows "cold_of a s3 w1 b' k' \<noteq> None \<and> cold_of a s3 w2 b' k' \<noteq> None"
  using two_tiers.ArchiveKnownObject_cold [OF deployment.tiers [OF assms(1)] assms(4,2,3,6)]
    two_tiers.RestoreObject_cold [OF deployment.tiers [OF assms(1)] assms(5)] by simp

theorem cold_never_shrinks_witness:
  "\<exists>w1 w2 res res'. ArchiveKnownObject mem_tiering ''photos'' ''a.png'' 2 True tier_world = (res, w1) \<and>
     RestoreObject (\<lambda>h. '''') mem_tiering ''photos'' ''a.png'' 2 w1 = (res', w2) \<and>
     tr_Outcome res = TierArchived \<and> tr_Outcome res' = TierRestored \<and>
     cold_of mem_archive m_s3 w2 ''photos'' ''b.png'' \<noteq> None"
proof -
  let ?w1 = "tier_world\<lparr>m_hot := upd2 (m_hot tier_world) ''photos'' ''a.png'' None,
               m_s3 := upd2 (m_s3 tier_world) ''cold'' ''photos/a.png'' (Some [1, 2])\<rparr>"
  obtain res where run: "ArchiveKnownObject mem_tiering ''photos'' ''a.png'' 2 True tier_world = (res, ?w1)"
    and res: "tr_Outcome res = TierArchived"
    by (simp add: run_tiers tier_world_def)
  obtain res' w2 where run': "RestoreObject (\<lambda>h. '''') mem_tiering ''photos'' ''a.png'' 2 ?w1 = (res', w2)"
    and res': "tr_Outcome res' = TierRestored"
    by (simp add: run_tiers)
  have s: "slashless ''photos''" by (simp add: slashless_def)
  have "cold_of mem_archive m_s3 tier_world ''photos'' ''b.png'' \<noteq> None"
    by (simp add: cold_of_def resolve_def tier_world_def)
  from cold_never_shrinks [OF mem_deployment.deployment_axioms s s run run' this] run run' res res'
  show ?thesis by blast
qed

text \<open>
  The outcome does not lie: \<open>archived\<close> and \<open>archived_kept\<close> are reported only
  when the archive holds an object of the local size under this key.
\<close>

theorem archived_outcome_truthful:
  assumes "deployment a s3 S hot" and "slashless b"
    and "ArchiveKnownObject (NewTiering S (Some (archive_iface a))) b k n evict w = (res, w')"
    and "tr_Outcome res \<in> {TierArchived, TierArchivedKept}"
  shows "\<exists>c. cold_of a s3 w' b k = Some c \<and> int (length c) = n"
  by (rule two_tiers.ArchiveKnownObject_truthful [OF deployment.tiers [OF assms(1)] assms(3,2,4)])

theorem archived_outcome_truthful_witness:
  "\<exists>res w'. ArchiveKnownObject mem_tiering ''photos'' ''a.png'' 2 False tier_world = (res, w') \<and>
     (\<exists>c. cold_of mem_archive m_s3 w' ''photos'' ''a.png'' = Some c \<and> int (length c) = 2)"
proof -
  obtain res w' where run: "ArchiveKnownObject mem_tiering ''photos'' ''a.png'' 2 False tier_world = (res, w')"
    and kept: "tr_Outcome res = TierArchivedKept"
    by (simp add: run_tiers tier_world_def)
  have "slashless ''photos''" by (simp add: slashless_def)
  from archived_outcome_truthful [OF mem_deployment.deployment_axioms this run] kept run
  show ?thesis by blast
qed

lemma ArchiveObject_copy_remove:
  "ArchiveObject (NewTiering (S\<lparr>RemoveObject := R\<rparr>) (Some A)) b k False w =
   ArchiveObject (NewTiering S (Some A)) b k False w"
  unfolding ArchiveObject_def ArchiveKnownObject_copy_remove NewTiering_sel by simp

text \<open>
  Copying is not evicting: with \<open>evict\<close> off the outcome, the error and the
  final state are the same whatever the store's \<open>RemoveObject\<close> does, so it is never called.
\<close>

theorem copy_never_removes:
  "ArchiveObject (NewTiering (S\<lparr>RemoveObject := R\<rparr>) (Some A)) b k False w =
     ArchiveObject (NewTiering S (Some A)) b k False w \<and>
   ArchiveKnownObject (NewTiering (S\<lparr>RemoveObject := R\<rparr>) (Some A)) b k n False w =
     ArchiveKnownObject (NewTiering S (Some A)) b k n False w"
  by (simp only: ArchiveObject_copy_remove ArchiveKnownObject_copy_remove)

text \<open>
  No answer, no eviction: as long as the archive never reports the expected
  size for this object (it is down, it refuses, the object is missing or has another size),
  \<open>RemoveObject\<close> is never called, even right after an upload that reported success.
\<close>

theorem eviction_needs_answer:
  assumes "\<And>w w'. ar_Stat A b k w \<noteq> (Inr n, w')"
  shows "ArchiveKnownObject (NewTiering (S\<lparr>RemoveObject := R\<rparr>) (Some A)) b k n evict w =
         ArchiveKnownObject (NewTiering S (Some A)) b k n evict w"
  by (rule ArchiveKnownObject_unanswered [OF assms])

theorem eviction_needs_answer_witness:
  fixes A
  defines "A \<equiv> archive_iface (mem_archive\<lparr>a_aws := mem_sdk\<lparr>sdk_HeadObject := \<lambda>b k w. (Inl (ErrorString ''503''), w)\<rparr>\<rparr>)"
  shows "ArchiveKnownObject (NewTiering (mem_store\<lparr>RemoveObject := \<lambda>b k w. (None, empty_mem)\<rparr>) (Some A))
           ''photos'' ''a.png'' 2 True tier_world =
         ArchiveKnownObject (NewTiering mem_store (Some A)) ''photos'' ''a.png'' 2 True tier_world"
proof -
  have "ar_Stat A ''photos'' ''a.png'' w \<noteq> (Inr 2, w')" for w w'
    by (simp add: A_def run_tiers)
  from eviction_needs_answer [OF this] show ?thesis .
qed


text \<open>
  What \<open>ArchiveKnownObject\<close> can report: the key and size it was given, an error
  exactly with \<open>failed\<close>, \<open>archived\<close> only under eviction and \<open>archived_kept\<close> only without, and
  never \<open>already_archived\<close>: an object whose verified copy was in the archive before the call
  is reported like one this call uploaded.
\<close>

theorem known_object_outcomes:
  "case fst (ArchiveKnownObject t b k n evict w) of r \<Rightarrow>
     tr_Key r = k \<and> tr_Size r = n \<and> (tr_Err r \<noteq> None \<longleftrightarrow> tr_Outcome r = TierFailed) \<and>
     tr_Outcome r \<in> {TierFailed, TierNotInScope, if evict then TierArchived else TierArchivedKept}"
proof -
  obtain r w' where r: "ArchiveKnownObject t b k n evict w = (r, w')" by fastforce
  then have "(\<exists>e. r = failed_result k n e) \<or>
      r = \<lparr> tr_Key = k, tr_Outcome = TierNotInScope, tr_Size = n, tr_Err = None \<rparr> \<or>
      (\<exists>v. finish_archive t b k n evict v = (r, w'))"
    unfolding ArchiveKnownObject_def by (auto split: prod.splits option.splits if_splits)
  then show ?thesis
    unfolding r by (auto simp: finish_archive_def split: if_splits prod.splits option.splits)
qed

text \<open>
  Property C13.  A restored object is the archived one.  When a restore reports \<open>restored\<close>, the
  local copy is byte for byte what the archive holds, however short the stream was cut, and
  its size is the one reported; the one exception is that S3 answered the request for the object
  without a content length, which the code takes for zero and turns into an empty local
  object.  Nothing else in the local tier is touched, and nothing at all in the archive.
\<close>

theorem restored_object_is_archived_copy:
  assumes "deployment a s3 S hot"
    and "RestoreObject detect (NewTiering S (Some (archive_iface a))) b k n w = (res, w')"
    and "tr_Outcome res = TierRestored"
  shows "(\<exists>c. cold_of a s3 w b k = Some c \<and>
            (hot w' b k = Some c \<and> tr_Size res = int (length c) \<or>
             hot w' b k = Some [] \<and> tr_Size res = 0 \<and>
             (\<exists>body w2. sdk_GetObject (a_aws a) (fst (resolve a b k)) (snd (resolve a b k)) (snd (StatObject S b k w)) =
                (Inr (body, None), w2)))) \<and>
         (\<forall>b' k'. (b', k') \<noteq> (b, k) \<longrightarrow> hot w' b' k' = hot w b' k') \<and>
         cold_of a s3 w' = cold_of a s3 w"
proof -
  note tiers = deployment.tiers [OF assms(1)]
  obtain c where c: "cold_of a s3 w b k = Some c"
    "hot w' b k = Some c \<and> tr_Size res = int (length c) \<or>
     c \<noteq> [] \<and> hot w' b k = Some [] \<and> tr_Size res = 0 \<and>
     (\<exists>body w2. ar_Open (archive_iface a) b k (snd (StatObject S b k w)) = (Inr (body, 0), w2))"
    using two_tiers.RestoreObject_content [OF tiers assms(2,3)] by blast
  have "cold_of a s3 (snd (StatObject S b k w)) = cold_of a s3 w"
    using two_tiers.statobj_cold [OF tiers] prod.collapse by metis
  with c have "hot w' b k = Some c \<and> tr_Size res = int (length c) \<or> hot w' b k = Some [] \<and> tr_Size res = 0 \<and>
     (\<exists>body w2. sdk_GetObject (a_aws a) (fst (resolve a b k)) (snd (resolve a b k)) (snd (StatObject S b k w)) = (Inr (body, None), w2))"
    using deployment.Open_size [OF assms(1)] by fastforce
  with c(1) show ?thesis
    using two_tiers.RestoreObject_frame [OF tiers assms(2)] two_tiers.RestoreObject_cold [OF tiers assms(2)] by blast
qed

theorem restored_object_is_archived_copy_witness:
  "\<exists>w'. RestoreObject (\<lambda>h. '''') mem_tiering ''photos'' ''b.png'' 9 tier_world =
          (\<lparr> tr_Key = ''b.png'', tr_Outcome = TierRestored, tr_Size = 1, tr_Err = None \<rparr>, w') \<and>
        m_hot w' ''photos'' ''b.png'' = Some [3] \<and> m_hot w' ''photos'' ''a.png'' = Some [1, 2]"
proof -
  obtain w' where run: "RestoreObject (\<lambda>h. '''') mem_tiering ''photos'' ''b.png'' 9 tier_world =
          (\<lparr> tr_Key = ''b.png'', tr_Outcome = TierRestored, tr_Size = 1, tr_Err = None \<rparr>, w')"
    by (simp add: run_tiers tier_world_def)
  from restored_object_is_archived_copy [OF mem_deployment.deployment_axioms run]
  have "m_hot w' ''photos'' ''a.png'' = m_hot tier_world ''photos'' ''a.png''" "m_hot w' ''photos'' ''b.png'' = Some [3]"
    by (auto simp: tier_world_def cold_of_def resolve_def upd2_def)
  with run show ?thesis by (simp add: tier_world_def)
qed

text \<open>
  Restoring is not a two-way sync: a restore neither removes a local object nor
  writes to the archive, since its result does not depend on what those two calls do.
\<close>

theorem restore_never_removes_or_archives:
  "RestoreObject detect (NewTiering (S\<lparr>RemoveObject := R\<rparr>) (Some (A\<lparr>ar_Put := P\<rparr>))) b k n w =
   RestoreObject detect (NewTiering S (Some A)) b k n w"
  by (rule RestoreObject_remove_put)

end
