(* ===== verification/Retention.thy ===== *)
theory Retention
  imports Tiering
begin

text \<open>
  \<open>service/retention.go\<close>: the scheduled sweep that frees local disk by removing objects the
  archive holds.  One goroutine lists a bucket and feeds a bounded queue; a pool of workers
  verifies and deletes.  The sweep of a bucket is given twice: as the step relation
  \<open>sweep_step\<close>, over every interleaving of the listing and the workers, and as the
  executable \<open>sweep_objects\<close>, which handles the objects one after the other and is one of the
  runs of the relation.  The archive answers and the deletions are single steps.
\<close>

section \<open>Configuration and counters\<close>

record RetentionStats =
  Scanned :: int
  Eligible :: int
  Deleted :: int
  BytesFreed :: int
  NotArchived :: int
  SizeMismatch :: int
  Errors :: int

record 'w Retention =
  r_store :: "'w object_store"
  r_archive :: "'w Archive option"
  r_tiering :: "'w Tiering"
  r_enabled :: bool
  r_dryRun :: bool
  r_window :: duration
  r_interval :: duration
  r_buckets :: "string list"

definition at_least_one :: "int \<Rightarrow> int" where
  "at_least_one n = (if n < 1 then 1 else n)"

definition NewRetention :: "env \<Rightarrow> 'w object_store \<Rightarrow> 'w Archive option \<Rightarrow> 'w Retention" where
  "NewRetention env store arch =
     (let days = at_least_one (GetEnvAsIntOrDefault env ''RETENTION_DAYS'' 365);
          hours = at_least_one (GetEnvAsIntOrDefault env ''RETENTION_INTERVAL_HOURS'' 24)
      in \<lparr> r_store = store, r_archive = arch, r_tiering = NewTiering store arch,
           r_enabled = GetEnvAsBoolOrDefault env ''RETENTION_ENABLED'' False,
           r_dryRun = GetEnvAsBoolOrDefault env ''RETENTION_DRY_RUN'' True,
           r_window = word_of_int days * 24 * hour,
           r_interval = word_of_int hours * hour,
           r_buckets = scope_entries (GetEnvOrDefault env ''RETENTION_BUCKETS'' '''') \<rparr>)"

definition RetentionEnabled :: "'w Retention \<Rightarrow> bool" where
  "RetentionEnabled r = (r_enabled r \<and> (case r_archive r of None \<Rightarrow> False | Some A \<Rightarrow> ar_Enabled A))"

text \<open>The atomic counters; \<open>snapshot\<close> reads them all.\<close>

record retentionCounters =
  c_scanned :: int
  c_eligible :: int
  c_deleted :: int
  c_bytesFreed :: int
  c_notArchived :: int
  c_sizeMismatch :: int
  c_errors :: int

definition zero_counters :: retentionCounters where
  "zero_counters = \<lparr> c_scanned = 0, c_eligible = 0, c_deleted = 0, c_bytesFreed = 0,
                     c_notArchived = 0, c_sizeMismatch = 0, c_errors = 0 \<rparr>"

definition snapshot :: "retentionCounters \<Rightarrow> RetentionStats" where
  "snapshot c = \<lparr> Scanned = c_scanned c, Eligible = c_eligible c, Deleted = c_deleted c,
                  BytesFreed = c_bytesFreed c, NotArchived = c_notArchived c,
                  SizeMismatch = c_sizeMismatch c, Errors = c_errors c \<rparr>"

section \<open>One object\<close>

definition verifyArchived ::
  "'w Retention \<Rightarrow> string \<Rightarrow> object_info \<Rightarrow> retentionCounters \<Rightarrow> 'w \<Rightarrow> (bool \<times> retentionCounters) \<times> 'w" where
  "verifyArchived r bucket obj c w =
     (case VerifyArchived (r_tiering r) bucket (oi_Key obj) (oi_Size obj) w of
        ((ok, reason, err), w') \<Rightarrow>
          (if ok then ((True, c), w')
           else (case reason of
              VerifyNotArchived \<Rightarrow> ((False, c\<lparr>c_notArchived := c_notArchived c + 1\<rparr>), w')
            | VerifySizeMismatch \<Rightarrow> ((False, c\<lparr>c_sizeMismatch := c_sizeMismatch c + 1\<rparr>), w')
            | _ \<Rightarrow> ((False, c\<lparr>c_errors := c_errors c + 1\<rparr>), w'))))"

definition count_deleted :: "object_info \<Rightarrow> retentionCounters \<Rightarrow> retentionCounters" where
  "count_deleted obj c =
     c\<lparr>c_deleted := c_deleted c + 1, c_bytesFreed := c_bytesFreed c + oi_Size obj\<rparr>"

text \<open>The second half of \<open>process\<close>: what happens to an object that verified.\<close>

definition delete_verified ::
  "'w Retention \<Rightarrow> string \<Rightarrow> object_info \<Rightarrow> retentionCounters \<Rightarrow> 'w \<Rightarrow> retentionCounters \<times> 'w" where
  "delete_verified r bucket obj c w =
     (if r_dryRun r then (count_deleted obj c, w)
      else (case RemoveObject (r_store r) bucket (oi_Key obj) w of
              (Some err, w') \<Rightarrow> (c\<lparr>c_errors := c_errors c + 1\<rparr>, w')
            | (None, w') \<Rightarrow> (count_deleted obj c, w')))"

definition process ::
  "'w Retention \<Rightarrow> string \<Rightarrow> object_info \<Rightarrow> retentionCounters \<Rightarrow> 'w \<Rightarrow> retentionCounters \<times> 'w" where
  "process r bucket obj c w =
     (case verifyArchived r bucket obj c w of
        ((False, c'), w') \<Rightarrow> (c', w')
      | ((True, c'), w') \<Rightarrow> delete_verified r bucket obj c' w')"

section \<open>A sweep of everything, one object at a time\<close>

definition old_enough :: "int \<Rightarrow> object_info \<Rightarrow> bool" where
  "old_enough cutoff obj \<longleftrightarrow> oi_LastModified obj < cutoff"

fun sweep_objects ::
  "'w Retention \<Rightarrow> string \<Rightarrow> int \<Rightarrow> object_info list \<Rightarrow> retentionCounters \<Rightarrow> 'w \<Rightarrow> retentionCounters \<times> 'w" where
  "sweep_objects r bucket cutoff [] c w = (c, w)"
| "sweep_objects r bucket cutoff (obj # objs) c w =
     (if oi_Err obj \<noteq> None then
        sweep_objects r bucket cutoff objs (c\<lparr>c_errors := c_errors c + 1\<rparr>) w
      else
        (let c = c\<lparr>c_scanned := c_scanned c + 1\<rparr> in
         if \<not> old_enough cutoff obj then sweep_objects r bucket cutoff objs c w
         else (case process r bucket obj (c\<lparr>c_eligible := c_eligible c + 1\<rparr>) w of
                 (c', w') \<Rightarrow> sweep_objects r bucket cutoff objs c' w')))"

definition targetBuckets :: "'w Retention \<Rightarrow> 'w \<Rightarrow> string list result \<times> 'w" where
  "targetBuckets r w =
     (case (if r_buckets r = [] then ListBuckets (r_store r) w else (Inr (r_buckets r), w)) of
        (Inl err, w') \<Rightarrow> (Inl err, w')
      | (Inr candidates, w') \<Rightarrow>
          (case r_archive r of
             None \<Rightarrow> (Inl nil_archive, w')
           | Some A \<Rightarrow> (Inr (filter (ar_InScope A) candidates), w')))"

text \<open>\<open>ctx.Err()\<close> is read from the world before every bucket.\<close>

fun sweep_buckets ::
  "('w \<Rightarrow> gerror option) \<Rightarrow> 'w Retention \<Rightarrow> int \<Rightarrow> string list \<Rightarrow> retentionCounters \<Rightarrow> 'w \<Rightarrow>
     (RetentionStats \<times> gerror option) \<times> 'w" where
  "sweep_buckets ctxErr r cutoff [] c w = ((snapshot c, None), w)"
| "sweep_buckets ctxErr r cutoff (b # bs) c w =
     (if ctxErr w \<noteq> None then ((snapshot c, ctxErr w), w)
      else (case ListObjects (r_store r) b w of
              (objs, w1) \<Rightarrow>
                (case sweep_objects r b cutoff objs c w1 of
                   (c2, w2) \<Rightarrow> sweep_buckets ctxErr r cutoff bs c2 w2)))"

definition RunOnce ::
  "('w \<Rightarrow> gerror option) \<Rightarrow> 'w Retention \<Rightarrow> int \<Rightarrow> 'w \<Rightarrow> (RetentionStats \<times> gerror option) \<times> 'w" where
  "RunOnce ctxErr r now w =
     (if \<not> RetentionEnabled r then ((snapshot zero_counters, Some ErrArchiveDisabled), w)
      else (case targetBuckets r w of
              (Inl err, w1) \<Rightarrow> ((snapshot zero_counters, Some err), w1)
            | (Inr buckets, w1) \<Rightarrow>
                sweep_buckets ctxErr r (now + sint (- r_window r)) buckets zero_counters w1))"

text \<open>
  The goroutine of \<open>Start\<close>, driven by what its \<open>select\<close> receives: a tick with the current
  time, or the cancellation.
\<close>

datatype loop_event = CtxDone | Tick int

fun retention_loop ::
  "('w \<Rightarrow> gerror option) \<Rightarrow> 'w Retention \<Rightarrow> loop_event list \<Rightarrow> 'w \<Rightarrow> RetentionStats list \<times> 'w" where
  "retention_loop ctxErr r [] w = ([], w)"
| "retention_loop ctxErr r (CtxDone # evs) w = ([], w)"
| "retention_loop ctxErr r (Tick now # evs) w =
     (case RunOnce ctxErr r now w of
        ((stats, err), w') \<Rightarrow>
          (case retention_loop ctxErr r evs w' of (log, w'') \<Rightarrow> (stats # log, w'')))"

definition Start ::
  "('w \<Rightarrow> gerror option) \<Rightarrow> 'w Retention \<Rightarrow> loop_event list \<Rightarrow> 'w \<Rightarrow> RetentionStats list \<times> 'w" where
  "Start ctxErr r evs w = (if \<not> RetentionEnabled r then ([], w) else retention_loop ctxErr r evs w)"

section \<open>The concurrent sweep of a bucket\<close>

text \<open>
  A worker is idle, or holds an object it is about to verify, or one that verified and is
  about to be deleted.  The queue holds at most four objects per worker.
\<close>

datatype phase = Idle | Verifying object_info | Deleting object_info

record 'w sweep =
  sw_todo :: "object_info list"
  sw_queue :: "object_info list"
  sw_workers :: "phase list"
  sw_count :: retentionCounters
  sw_world :: 'w

inductive sweep_step :: "'w Retention \<Rightarrow> string \<Rightarrow> int \<Rightarrow> 'w sweep \<Rightarrow> 'w sweep \<Rightarrow> bool"
  for r :: "'w Retention" and bucket :: string and cutoff :: int where
  list_error: "sw_todo s = obj # objs \<Longrightarrow> oi_Err obj \<noteq> None \<Longrightarrow>
    sweep_step r bucket cutoff s
      (s\<lparr>sw_todo := objs, sw_count := (sw_count s)\<lparr>c_errors := c_errors (sw_count s) + 1\<rparr>\<rparr>)"
| list_young: "sw_todo s = obj # objs \<Longrightarrow> oi_Err obj = None \<Longrightarrow> \<not> old_enough cutoff obj \<Longrightarrow>
    sweep_step r bucket cutoff s
      (s\<lparr>sw_todo := objs, sw_count := (sw_count s)\<lparr>c_scanned := c_scanned (sw_count s) + 1\<rparr>\<rparr>)"
| list_old: "sw_todo s = obj # objs \<Longrightarrow> oi_Err obj = None \<Longrightarrow> old_enough cutoff obj \<Longrightarrow>
    length (sw_queue s) < 4 * length (sw_workers s) \<Longrightarrow>
    sweep_step r bucket cutoff s
      (s\<lparr>sw_todo := objs, sw_queue := sw_queue s @ [obj],
         sw_count := (sw_count s)\<lparr>c_scanned := c_scanned (sw_count s) + 1,
                                   c_eligible := c_eligible (sw_count s) + 1\<rparr>\<rparr>)"
| dequeue: "sw_queue s = obj # q \<Longrightarrow> i < length (sw_workers s) \<Longrightarrow> sw_workers s ! i = Idle \<Longrightarrow>
    sweep_step r bucket cutoff s
      (s\<lparr>sw_queue := q, sw_workers := (sw_workers s)[i := Verifying obj]\<rparr>)"
| verify: "i < length (sw_workers s) \<Longrightarrow> sw_workers s ! i = Verifying obj \<Longrightarrow>
    verifyArchived r bucket obj (sw_count s) (sw_world s) = ((ok, c'), w') \<Longrightarrow>
    sweep_step r bucket cutoff s
      (s\<lparr>sw_workers := (sw_workers s)[i := (if ok then Deleting obj else Idle)],
         sw_count := c', sw_world := w'\<rparr>)"
| delete: "i < length (sw_workers s) \<Longrightarrow> sw_workers s ! i = Deleting obj \<Longrightarrow>
    delete_verified r bucket obj (sw_count s) (sw_world s) = (c', w') \<Longrightarrow>
    sweep_step r bucket cutoff s
      (s\<lparr>sw_workers := (sw_workers s)[i := Idle], sw_count := c', sw_world := w'\<rparr>)"

inductive_cases sweep_stepE: "sweep_step r bucket cutoff s s'"

definition sweep_start :: "nat \<Rightarrow> object_info list \<Rightarrow> retentionCounters \<Rightarrow> 'w \<Rightarrow> 'w sweep" where
  "sweep_start n objs c w =
     \<lparr> sw_todo = objs, sw_queue = [], sw_workers = replicate n Idle, sw_count = c, sw_world = w \<rparr>"

text \<open>\<open>wg.Wait()\<close> returns: the listing is exhausted, the queue drained, every worker idle.\<close>

definition sweep_done :: "'w sweep \<Rightarrow> bool" where
  "sweep_done s \<longleftrightarrow> sw_todo s = [] \<and> sw_queue s = [] \<and> (\<forall>p\<in>set (sw_workers s). p = Idle)"

definition sweep_workers :: "env \<Rightarrow> nat" where
  "sweep_workers env = nat (at_least_one (GetEnvAsIntOrDefault env ''RETENTION_MAX_CONCURRENT'' 8))"

lemma sweep_workers_pos: "0 < sweep_workers env"
  by (simp add: sweep_workers_def at_least_one_def)

section \<open>How the counters move\<close>

text \<open>The counters of the four ways an eligible object can end.\<close>

definition settled :: "retentionCounters \<Rightarrow> int" where
  "settled c = c_deleted c + c_notArchived c + c_sizeMismatch c + c_errors c"

lemma settled_upd [counter_simps]:
  "settled (c\<lparr>c_errors := n\<rparr>) = settled c - c_errors c + n"
  "settled (c\<lparr>c_notArchived := n\<rparr>) = settled c - c_notArchived c + n"
  "settled (c\<lparr>c_sizeMismatch := n\<rparr>) = settled c - c_sizeMismatch c + n"
  "settled (c\<lparr>c_scanned := n\<rparr>) = settled c"
  "settled (c\<lparr>c_eligible := n\<rparr>) = settled c"
  "settled (count_deleted obj c) = settled c + 1"
  by (simp_all add: settled_def count_deleted_def)

lemma count_deleted_sel [counter_simps]:
  "c_scanned (count_deleted obj c) = c_scanned c"
  "c_eligible (count_deleted obj c) = c_eligible c"
  "c_errors (count_deleted obj c) = c_errors c"
  by (simp_all add: count_deleted_def)

lemma verifyArchived_counts [counter_simps]:
  assumes "verifyArchived r bucket obj c w = ((ok, c'), w')"
  shows "c_scanned c' = c_scanned c" and "c_eligible c' = c_eligible c"
    and "settled c' = (if ok then settled c else settled c + 1)"
  using assms
  by (auto simp: verifyArchived_def counter_simps split: prod.splits if_splits VerifyReason.splits)

lemma delete_verified_counts [counter_simps]:
  assumes "delete_verified r bucket obj c w = (c', w')"
  shows "c_scanned c' = c_scanned c" and "c_eligible c' = c_eligible c"
    and "settled c' = settled c + 1"
  using assms
  by (auto simp: delete_verified_def counter_simps split: prod.splits if_splits option.splits)

section \<open>Conservation under every interleaving\<close>

abbreviation eligible_object :: "int \<Rightarrow> object_info \<Rightarrow> bool" where
  "eligible_object cutoff obj \<equiv> oi_Err obj = None \<and> old_enough cutoff obj"

definition count_of :: "('a \<Rightarrow> bool) \<Rightarrow> 'a list \<Rightarrow> int" where
  "count_of P xs = int (length (filter P xs))"

lemma count_of_simps [simp]:
  "count_of P [] = 0"
  "count_of P (x # xs) = (if P x then 1 else 0) + count_of P xs"
  "count_of P (xs @ ys) = count_of P xs + count_of P ys"
  by (simp_all add: count_of_def)

lemma count_of_update:
  "i < length xs \<Longrightarrow>
   count_of P (xs[i := y]) = count_of P xs - (if P (xs ! i) then 1 else 0) + (if P y then 1 else 0)"
proof (induction xs arbitrary: i)
  case Nil
  then show ?case by simp
next
  case (Cons x xs)
  then show ?case by (cases i) auto
qed

lemma count_of_none: "(\<forall>x\<in>set xs. \<not> P x) \<Longrightarrow> count_of P xs = 0"
  by (simp add: count_of_def filter_empty_conv)

text \<open>Objects that were counted as eligible and have not been settled yet.\<close>

definition in_flight :: "'w sweep \<Rightarrow> int" where
  "in_flight s = int (length (sw_queue s)) + count_of (\<lambda>p. p \<noteq> Idle) (sw_workers s)"

definition scan_total :: "'w sweep \<Rightarrow> int" where
  "scan_total s = c_scanned (sw_count s) + count_of (\<lambda>obj. oi_Err obj = None) (sw_todo s)"

definition eligible_total :: "int \<Rightarrow> 'w sweep \<Rightarrow> int" where
  "eligible_total cutoff s =
     c_eligible (sw_count s) + count_of (eligible_object cutoff) (sw_todo s)"

definition balance :: "'w sweep \<Rightarrow> int" where
  "balance s = settled (sw_count s) + in_flight s - c_eligible (sw_count s) +
               count_of (\<lambda>obj. oi_Err obj \<noteq> None) (sw_todo s)"

lemmas sweep_measures = scan_total_def eligible_total_def balance_def in_flight_def

lemma sweep_step_totals:
  "sweep_step r bucket cutoff s s' \<Longrightarrow>
   scan_total s' = scan_total s \<and> eligible_total cutoff s' = eligible_total cutoff s \<and>
   balance s' = balance s"
  by (erule sweep_step.cases)
    (auto simp: sweep_measures counter_simps count_of_update split: if_splits)

lemma sweep_run_totals:
  "(sweep_step r bucket cutoff)\<^sup>*\<^sup>* s s' \<Longrightarrow>
   scan_total s' = scan_total s \<and> eligible_total cutoff s' = eligible_total cutoff s \<and>
   balance s' = balance s"
  by (induction rule: rtranclp_induct) (use sweep_step_totals in force)+

lemma sweep_start_sel [simp]:
  "sw_todo (sweep_start n objs c w) = objs" "sw_queue (sweep_start n objs c w) = []"
  "sw_workers (sweep_start n objs c w) = replicate n Idle"
  "sw_count (sweep_start n objs c w) = c" "sw_world (sweep_start n objs c w) = w"
  by (simp_all add: sweep_start_def)

lemma sweep_done_in_flight: "sweep_done s \<Longrightarrow> sw_todo s = [] \<and> in_flight s = 0"
  by (auto simp: sweep_done_def in_flight_def intro: count_of_none)

section \<open>Every sweep finishes\<close>

fun phase_work :: "phase \<Rightarrow> nat" where
  "phase_work Idle = 0"
| "phase_work (Verifying obj) = 2"
| "phase_work (Deleting obj) = 1"

definition sweep_work :: "'w sweep \<Rightarrow> nat" where
  "sweep_work s = 4 * length (sw_todo s) + 3 * length (sw_queue s) + sum_list (map phase_work (sw_workers s))"

lemma sum_phase_update:
  "i < length ws \<Longrightarrow>
   sum_list (map phase_work (ws[i := p])) + phase_work (ws ! i) = sum_list (map phase_work ws) + phase_work p"
proof (induction ws arbitrary: i)
  case Nil
  then show ?case by simp
next
  case (Cons x ws)
  then show ?case by (cases i) auto
qed

lemma sweep_step_work:
  assumes "sweep_step r bucket cutoff s s'"
  shows "sweep_work s' < sweep_work s"
  using assms
proof cases
  case (dequeue obj q i)
  then show ?thesis using sum_phase_update [of i "sw_workers s" "Verifying obj"]
    by (simp add: sweep_work_def)
next
  case (verify i obj ok c' w')
  then show ?thesis using sum_phase_update [of i "sw_workers s" "if ok then Deleting obj else Idle"]
    by (simp add: sweep_work_def split: if_splits)
next
  case (delete i obj c' w')
  then show ?thesis using sum_phase_update [of i "sw_workers s" Idle]
    by (simp add: sweep_work_def)
qed (simp_all add: sweep_work_def)

lemma sweep_step_workers:
  "sweep_step r bucket cutoff s s' \<Longrightarrow> length (sw_workers s') = length (sw_workers s)"
  by (erule sweep_step.cases) simp_all

lemma busy_worker_steps:
  assumes "p \<in> set (sw_workers s)" and "p \<noteq> Idle"
  shows "\<exists>s'. sweep_step r bucket cutoff s s'"
proof -
  from assms(1) obtain i where i: "i < length (sw_workers s)" "sw_workers s ! i = p"
    by (auto simp: in_set_conv_nth)
  show ?thesis
  proof (cases p)
    case Idle
    with assms(2) show ?thesis by simp
  next
    case (Verifying obj)
    obtain ok c' w' where "verifyArchived r bucket obj (sw_count s) (sw_world s) = ((ok, c'), w')"
      by (metis surj_pair)
    with i Verifying show ?thesis by (blast intro: verify)
  next
    case (Deleting obj)
    obtain c' w' where "delete_verified r bucket obj (sw_count s) (sw_world s) = (c', w')" by fastforce
    with i Deleting show ?thesis by (blast intro: delete)
  qed
qed

lemma sweep_progress:
  assumes "sw_workers s \<noteq> []" and "\<not> sweep_done s"
  shows "\<exists>s'. sweep_step r bucket cutoff s s'"
proof (cases "\<exists>p\<in>set (sw_workers s). p \<noteq> Idle")
  case True
  then show ?thesis using busy_worker_steps by blast
next
  case idle: False
  with assms(1) have i: "0 < length (sw_workers s)" "sw_workers s ! 0 = Idle" by auto
  show ?thesis
  proof (cases "sw_queue s")
    case (Cons obj q)
    with i show ?thesis by (blast intro: dequeue)
  next
    case Nil
    with assms(2) idle obtain obj objs where todo: "sw_todo s = obj # objs"
      by (cases "sw_todo s") (auto simp: sweep_done_def)
    from Nil i(1) have "length (sw_queue s) < 4 * length (sw_workers s)" by simp
    with todo show ?thesis
      by (cases "oi_Err obj = None"; cases "old_enough cutoff obj")
        (blast intro: list_error list_young list_old)+
  qed
qed

section \<open>The sequential sweep is one of the runs\<close>

abbreviation sweeps :: "'w Retention \<Rightarrow> string \<Rightarrow> int \<Rightarrow> 'w sweep \<Rightarrow> 'w sweep \<Rightarrow> bool" where
  "sweeps r bucket cutoff \<equiv> (sweep_step r bucket cutoff)\<^sup>*\<^sup>*"

abbreviation resting :: "nat \<Rightarrow> object_info list \<Rightarrow> retentionCounters \<Rightarrow> 'w \<Rightarrow> 'w sweep" where
  "resting n objs c w \<equiv> sweep_start n objs c w"

lemma rest_verify_step:
  assumes "verifyArchived r b obj c w = ((ok, c1), w1)"
  shows "sweep_step r b cutoff
    \<lparr>sw_todo = objs, sw_queue = [], sw_workers = Verifying obj # ps, sw_count = c, sw_world = w\<rparr>
    \<lparr>sw_todo = objs, sw_queue = [], sw_workers = (if ok then Deleting obj else Idle) # ps, sw_count = c1, sw_world = w1\<rparr>"
  using verify [of 0 "\<lparr>sw_todo = objs, sw_queue = [], sw_workers = Verifying obj # ps, sw_count = c, sw_world = w\<rparr>"
      obj r b ok c1 w1 cutoff] assms by simp

lemma rest_delete_step:
  assumes "delete_verified r b obj c w = (c1, w1)"
  shows "sweep_step r b cutoff
    \<lparr>sw_todo = objs, sw_queue = [], sw_workers = Deleting obj # ps, sw_count = c, sw_world = w\<rparr>
    \<lparr>sw_todo = objs, sw_queue = [], sw_workers = Idle # ps, sw_count = c1, sw_world = w1\<rparr>"
  using delete [of 0 "\<lparr>sw_todo = objs, sw_queue = [], sw_workers = Deleting obj # ps, sw_count = c, sw_world = w\<rparr>"
      obj r b c1 w1 cutoff] assms by simp

lemma rest_object:
  assumes obj: "eligible_object cutoff obj" and p: "process r b obj
      (c\<lparr>c_scanned := c_scanned c + 1, c_eligible := c_eligible c + 1\<rparr>) w = (c', w')"
  shows "sweeps r b cutoff (resting (Suc n) (obj # objs) c w) (resting (Suc n) objs c' w')"
proof -
  let ?c = "c\<lparr>c_scanned := c_scanned c + 1, c_eligible := c_eligible c + 1\<rparr>"
  let ?ps = "replicate n Idle"
  let ?at = "\<lambda>q p d v. \<lparr>sw_todo = objs, sw_queue = q, sw_workers = p # ?ps, sw_count = d, sw_world = v\<rparr>"
  have 1: "sweep_step r b cutoff (resting (Suc n) (obj # objs) c w) (?at [obj] Idle ?c w)"
    using list_old [of "resting (Suc n) (obj # objs) c w" obj objs cutoff r b] obj
    by (simp add: sweep_start_def)
  have 2: "sweep_step r b cutoff (?at [obj] Idle ?c w) (?at [] (Verifying obj) ?c w)"
    using dequeue [of "?at [obj] Idle ?c w" obj "[]" 0 r b cutoff] by simp
  obtain ok c1 w1 where v: "verifyArchived r b obj ?c w = ((ok, c1), w1)" by (metis surj_pair)
  note 3 = rest_verify_step [OF v, of cutoff objs ?ps]
  have end': "resting (Suc n) objs c' w' = ?at [] Idle c' w'" by (simp add: sweep_start_def)
  show ?thesis
  proof (cases ok)
    case False
    with p v have "c' = c1" "w' = w1" by (auto simp: process_def)
    with 1 2 3 False show ?thesis
      unfolding end' by (auto intro: converse_rtranclp_into_rtranclp)
  next
    case True
    with p v have "delete_verified r b obj c1 w1 = (c', w')" by (auto simp: process_def)
    from rest_delete_step [OF this, of cutoff objs ?ps] 1 2 3 True show ?thesis
      unfolding end' by (auto intro: converse_rtranclp_into_rtranclp)
  qed
qed

lemma sweep_objects_run:
  "sweep_objects r b cutoff objs c w = (c', w') \<Longrightarrow>
   sweeps r b cutoff (resting (Suc n) objs c w) (resting (Suc n) [] c' w')"
proof (induction objs arbitrary: c w)
  case Nil
  then show ?case by simp
next
  case (Cons obj objs)
  show ?case
  proof (cases "eligible_object cutoff obj")
    case True
    obtain c1 w1 where p: "process r b obj
      (c\<lparr>c_scanned := c_scanned c + 1, c_eligible := c_eligible c + 1\<rparr>) w = (c1, w1)" by fastforce
    with Cons.prems True have "sweep_objects r b cutoff objs c1 w1 = (c', w')" by simp
    from rtranclp_trans [OF rest_object [OF True p] Cons.IH [OF this]] show ?thesis .
  next
    case False
    let ?c = "if oi_Err obj = None then c\<lparr>c_scanned := c_scanned c + 1\<rparr> else c\<lparr>c_errors := c_errors c + 1\<rparr>"
    have "sweep_step r b cutoff (resting (Suc n) (obj # objs) c w) (resting (Suc n) objs ?c w)"
      using False list_error [of "resting (Suc n) (obj # objs) c w" obj objs r b cutoff]
        list_young [of "resting (Suc n) (obj # objs) c w" obj objs cutoff r b]
      by (auto simp: sweep_start_def)
    moreover have "sweep_objects r b cutoff objs ?c w = sweep_objects r b cutoff (obj # objs) c w"
      using False by (cases "oi_Err obj") simp_all
    then have "sweep_objects r b cutoff objs ?c w = (c', w')" using Cons.prems by simp
    ultimately show ?thesis by (rule converse_rtranclp_into_rtranclp [OF _ Cons.IH])
  qed
qed

lemma sweep_objects_totals:
  assumes "sweep_objects r b cutoff objs c w = (c', w')"
  shows "c_scanned c' = c_scanned c + count_of (\<lambda>obj. oi_Err obj = None) objs"
    and "c_eligible c' = c_eligible c + count_of (eligible_object cutoff) objs"
    and "settled c' - c_eligible c' = settled c - c_eligible c + count_of (\<lambda>obj. oi_Err obj \<noteq> None) objs"
  using sweep_run_totals [OF sweep_objects_run [OF assms, of 0]]
  by (simp_all add: sweep_measures)

section \<open>What a sweep can remove\<close>

lemma NewRetention_sel [simp]:
  "r_store (NewRetention env S Ao) = S" "r_archive (NewRetention env S Ao) = Ao"
  "r_tiering (NewRetention env S Ao) = NewTiering S Ao"
  "r_dryRun (NewRetention env S Ao) = GetEnvAsBoolOrDefault env ''RETENTION_DRY_RUN'' True"
  "r_enabled (NewRetention env S Ao) = GetEnvAsBoolOrDefault env ''RETENTION_ENABLED'' False"
  by (simp_all add: NewRetention_def Let_def)

definition held :: "'w sweep \<Rightarrow> object_info set" where
  "held s = set (sw_queue s) \<union> {obj. Verifying obj \<in> set (sw_workers s) \<or> Deleting obj \<in> set (sw_workers s)}"

text \<open>
  What may be gone: an eligible object of the listing whose archived copy has the listed size.
\<close>

definition removable :: "string \<Rightarrow> int \<Rightarrow> object_info list \<Rightarrow>
    (string \<Rightarrow> string \<Rightarrow> bytes option) \<Rightarrow> string \<Rightarrow> string \<Rightarrow> bool" where
  "removable bucket cutoff objs cold_objects b k \<longleftrightarrow>
     b = bucket \<and> (\<exists>obj\<in>set objs. oi_Key obj = k \<and> eligible_object cutoff obj \<and>
                     (\<exists>c. cold_objects b k = Some c \<and> int (length c) = oi_Size obj))"

lemma set_update_cases: "x \<in> set (xs[i := y]) \<Longrightarrow> x \<in> set xs \<or> x = y"
  using set_update_subset_insert [of xs i y] by auto

lemma held_update:
  "sw_workers s' = (sw_workers s)[i := Idle] \<Longrightarrow> sw_queue s' = sw_queue s \<Longrightarrow> held s' \<subseteq> held s"
  by (auto simp: held_def dest: set_update_cases)

context two_tiers
begin

definition sweep_safe :: "'w Retention \<Rightarrow> string \<Rightarrow> int \<Rightarrow> object_info list \<Rightarrow> 'w \<Rightarrow> 'w sweep \<Rightarrow> bool" where
  "sweep_safe r bucket cutoff objs w0 s \<longleftrightarrow>
     set (sw_todo s) \<subseteq> set objs \<and> held s \<subseteq> {obj\<in>set objs. eligible_object cutoff obj} \<and>
     (\<forall>obj. Deleting obj \<in> set (sw_workers s) \<longrightarrow>
        (\<exists>c. cold w0 bucket (oi_Key obj) = Some c \<and> int (length c) = oi_Size obj)) \<and>
     cold (sw_world s) = cold w0 \<and>
     (\<forall>b k. hot (sw_world s) b k = hot w0 b k \<or> \<not> r_dryRun r \<and> removable bucket cutoff objs (cold w0) b k)"

lemma verifyArchived_frame:
  assumes "verifyArchived r b obj c w = ((ok, c'), w')" and "r_tiering r = NewTiering S (Some A)"
  shows "hot w' = hot w \<and> cold w' = cold w \<and>
         (ok \<longrightarrow> (\<exists>d. cold w b (oi_Key obj) = Some d \<and> int (length d) = oi_Size obj))"
proof -
  obtain ok' reason err v where v: "VerifyArchived (r_tiering r) b (oi_Key obj) (oi_Size obj) w = ((ok', reason, err), v)"
    by (metis surj_pair)
  with assms(1) have "ok = ok'" "w' = v"
    by (auto simp: verifyArchived_def split: if_splits VerifyReason.splits)
  moreover from v assms(2) have "hot v = hot w \<and> cold v = cold w \<and>
      (ok' \<longrightarrow> (\<exists>d. cold w b (oi_Key obj) = Some d \<and> int (length d) = oi_Size obj))"
    by (cases rule: VerifyArchived_cases) (auto dest: stat_hot stat_frame stat_ok)
  ultimately show ?thesis by simp
qed

lemma delete_verified_frame:
  assumes "delete_verified r b obj c w = (c', w')" and "r_store r = S"
  shows "cold w' = cold w \<and> (\<forall>b' k'. hot w' b' k' = hot w b' k' \<or> \<not> r_dryRun r \<and> b' = b \<and> k' = oi_Key obj)"
proof (cases "r_dryRun r")
  case True
  with assms show ?thesis by (simp add: delete_verified_def)
next
  case False
  with assms obtain u where "RemoveObject S b (oi_Key obj) w = (u, w')"
    by (auto simp: delete_verified_def split: prod.splits option.splits)
  from remove_cold [OF this] remove_other [OF this] False show ?thesis by blast
qed

lemma sweep_safe_upd:
  assumes "sweep_safe r bucket cutoff objs w0 s"
    and "set (sw_todo s') \<subseteq> set (sw_todo s)"
    and "held s' \<subseteq> held s \<union> {obj\<in>set (sw_todo s). eligible_object cutoff obj}"
    and "\<And>obj. Deleting obj \<in> set (sw_workers s') \<Longrightarrow> Deleting obj \<in> set (sw_workers s) \<or>
           (\<exists>c. cold (sw_world s) bucket (oi_Key obj) = Some c \<and> int (length c) = oi_Size obj)"
    and "cold (sw_world s') = cold (sw_world s)"
    and "\<And>b k. hot (sw_world s') b k = hot (sw_world s) b k \<or>
           \<not> r_dryRun r \<and> removable bucket cutoff objs (cold (sw_world s)) b k"
  shows "sweep_safe r bucket cutoff objs w0 s'"
  unfolding sweep_safe_def
proof (intro conjI allI impI)
  show "set (sw_todo s') \<subseteq> set objs" using assms(1,2) by (auto simp: sweep_safe_def)
  show "held s' \<subseteq> {obj\<in>set objs. eligible_object cutoff obj}"
    using assms(1,3) unfolding sweep_safe_def by blast
  show cold: "cold (sw_world s') = cold w0" using assms(1,5) by (simp add: sweep_safe_def)
  show "\<exists>c. cold w0 bucket (oi_Key obj) = Some c \<and> int (length c) = oi_Size obj"
    if "Deleting obj \<in> set (sw_workers s')" for obj
    using assms(4) [OF that] assms(1) by (auto simp: sweep_safe_def)
  show "hot (sw_world s') b k = hot w0 b k \<or> \<not> r_dryRun r \<and> removable bucket cutoff objs (cold w0) b k" for b k
    using assms(6) [of b k] assms(1) unfolding sweep_safe_def by metis
qed

lemma sweep_step_safe:
  assumes step: "sweep_step r bucket cutoff s s'" and safe: "sweep_safe r bucket cutoff objs w0 s"
    and r: "r_store r = S" "r_tiering r = NewTiering S (Some A)"
  shows "sweep_safe r bucket cutoff objs w0 s'"
  using step
proof cases
  case (dequeue obj q i)
  then show ?thesis
    by (intro sweep_safe_upd [OF safe]) (auto simp: held_def dest!: set_update_cases)
next
  case (verify i obj ok c' w')
  then have "Verifying obj \<in> set (sw_workers s)" by (metis nth_mem)
  with verify verifyArchived_frame [OF verify(4) r(2)] show ?thesis
    by (intro sweep_safe_upd [OF safe]) (auto simp: held_def dest!: set_update_cases split: if_splits)
next
  case (delete i obj c' w')
  then have obj: "Deleting obj \<in> set (sw_workers s)" by (metis nth_mem)
  then have rem: "removable bucket cutoff objs (cold (sw_world s)) bucket (oi_Key obj)"
    using safe unfolding sweep_safe_def held_def removable_def by auto
  note frame = delete_verified_frame [OF delete(4) r(1)]
  show ?thesis
  proof (rule sweep_safe_upd [OF safe])
    show "hot (sw_world s') b k = hot (sw_world s) b k \<or>
           \<not> r_dryRun r \<and> removable bucket cutoff objs (cold (sw_world s)) b k" for b k
      using frame rem delete(1) by auto
  qed (use delete(1) frame in \<open>auto simp: held_def dest!: set_update_cases\<close>)
qed (intro sweep_safe_upd [OF safe]; auto simp: held_def)+

lemma sweep_start_safe: "sweep_safe r bucket cutoff objs w (sweep_start n objs c w)"
  by (auto simp: sweep_safe_def held_def)

lemma sweeps_safe:
  assumes "sweeps r bucket cutoff (sweep_start n objs c w) s"
    and r: "r_store r = S" "r_tiering r = NewTiering S (Some A)"
  shows "sweep_safe r bucket cutoff objs w s"
  using assms(1)
  by (induction rule: rtranclp_induct) (auto simp: sweep_start_safe intro: sweep_step_safe r)

end

text \<open>Some listing of the bucket has reported the object with a modification time before the cutoff.\<close>

definition reported_old :: "'w object_store \<Rightarrow> int \<Rightarrow> string \<Rightarrow> string \<Rightarrow> bool" where
  "reported_old S cutoff b k \<longleftrightarrow>
     (\<exists>v v' objs. ListObjects S b v = (objs, v') \<and>
        (\<exists>obj\<in>set objs. oi_Key obj = k \<and> eligible_object cutoff obj))"

context two_tiers
begin

text \<open>What a pass may have taken away from the state \<open>w\<close>.\<close>

definition freed :: "'w Retention \<Rightarrow> int \<Rightarrow> string set \<Rightarrow> 'w \<Rightarrow> string \<Rightarrow> string \<Rightarrow> nat \<Rightarrow> bool" where
  "freed r cutoff bs w b k n \<longleftrightarrow> \<not> r_dryRun r \<and> b \<in> bs \<and> reported_old S cutoff b k \<and>
     (\<exists>c'. cold w b k = Some c' \<and> length c' = n)"

lemma listed_sweep_safe:
  assumes list: "ListObjects S b w = (objs, w1)"
    and run: "sweeps r b cutoff (sweep_start n objs c w1) s"
    and r: "r_store r = S" "r_tiering r = NewTiering S (Some A)"
  shows "cold (sw_world s) = cold w \<and>
         (hot w b' k' = Some d \<longrightarrow> hot (sw_world s) b' k' = Some d \<or> freed r cutoff {b} w b' k' (length d))"
proof -
  note safe = sweeps_safe [OF run r] and frame = list_frame [OF list] list_cold [OF list]
  have "freed r cutoff {b} w b' k' (length d)"
    if "hot w b' k' = Some d" "\<not> r_dryRun r" "removable b cutoff objs (cold w) b' k'"
  proof -
    from that(3) obtain obj c1 where "b' = b" and obj: "obj \<in> set objs" "oi_Key obj = k'" "eligible_object cutoff obj"
      and c1: "cold w b' k' = Some c1" "int (length c1) = oi_Size obj"
      unfolding removable_def by blast
    moreover from list_ok [OF list obj(1)] obj that(1) \<open>b' = b\<close> have "oi_Size obj = int (length d)" by auto
    ultimately show ?thesis using that(2) list unfolding freed_def reported_old_def by auto
  qed
  with safe frame show ?thesis unfolding sweep_safe_def by metis
qed

lemma sweep_buckets_safe:
  assumes "sweep_buckets ctxErr r cutoff bs c w = (res, w')"
    and r: "r_store r = S" "r_tiering r = NewTiering S (Some A)"
  shows "cold w' = cold w \<and>
         (hot w b k = Some d \<longrightarrow> hot w' b k = Some d \<or> freed r cutoff (set bs) w b k (length d))"
  using assms(1)
proof (induction bs arbitrary: c w)
  case Nil
  then show ?case by simp
next
  case (Cons b1 bs)
  show ?case
  proof (cases "ctxErr w = None")
    case False
    with Cons.prems show ?thesis by auto
  next
    case True
    obtain objs w1 where l: "ListObjects S b1 w = (objs, w1)" by fastforce
    obtain c2 w2 where s: "sweep_objects r b1 cutoff objs c w1 = (c2, w2)" by fastforce
    from Cons.prems True l s r have rest: "sweep_buckets ctxErr r cutoff bs c2 w2 = (res, w')" by simp
    from listed_sweep_safe [OF l sweep_objects_run [OF s, of 0] r, of b k d]
    have "cold w2 = cold w" and "hot w b k = Some d \<longrightarrow> hot w2 b k = Some d \<or> freed r cutoff {b1} w b k (length d)"
      by simp_all
    with Cons.IH [OF rest] show ?thesis by (auto simp: freed_def)
  qed
qed

lemma RunOnce_safe:
  assumes run: "RunOnce ctxErr r now w = (res, w')"
    and r: "r_store r = S" "r_archive r = Some A" "r_tiering r = NewTiering S (Some A)"
  shows "cold w' = cold w \<and>
         (hot w b k = Some d \<longrightarrow> hot w' b k = Some d \<or>
            RetentionEnabled r \<and> ar_InScope A b \<and> freed r (now + sint (- r_window r)) UNIV w b k (length d))"
proof (cases "RetentionEnabled r")
  case False
  with run show ?thesis by (simp add: RunOnce_def)
next
  case True
  obtain bs w1 where t: "targetBuckets r w = (bs, w1)" by fastforce
  then have w1: "hot w1 = hot w \<and> cold w1 = cold w"
    using r(1,2) buckets_frame buckets_cold
    by (auto simp: targetBuckets_def split: if_splits prod.splits sum.splits)
  from t r(2) have scope: "bs = Inr l \<Longrightarrow> \<forall>b\<in>set l. ar_InScope A b" for l
    by (auto simp: targetBuckets_def split: if_splits prod.splits sum.splits)
  show ?thesis
  proof (cases bs)
    case (Inl e)
    with run True t w1 show ?thesis by (simp add: RunOnce_def)
  next
    case (Inr l)
    with run True t have "sweep_buckets ctxErr r (now + sint (- r_window r)) l zero_counters w1 = (res, w')"
      by (simp add: RunOnce_def)
    from sweep_buckets_safe [OF this r(1,3), of b k d] w1 True scope [OF Inr] show ?thesis
      by (auto simp: freed_def)
  qed
qed

end

section \<open>The retention window\<close>

lemma window_word: "r_window (NewRetention env S Ao) =
   word_of_int (at_least_one (GetEnvAsIntOrDefault env ''RETENTION_DAYS'' 365) * 86400000000000)"
  by (simp add: NewRetention_def Let_def)

section \<open>Properties\<close>

text \<open>
  Property C16.  No object is forgotten or counted twice, under any interleaving of the
  listing and any number of workers: once a sweep of a bucket has finished, every listed
  object was scanned or its listing error counted, every object older than the cutoff was
  counted as eligible, and each of those ended in exactly one of deleted, not archived,
  size mismatch or error.
\<close>

theorem sweep_conserves_objects:
  assumes "sweeps r b cutoff (sweep_start n objs zero_counters w) s" and "sweep_done s"
  shows "Scanned (snapshot (sw_count s)) = count_of (\<lambda>obj. oi_Err obj = None) objs \<and>
         Eligible (snapshot (sw_count s)) = count_of (eligible_object cutoff) objs \<and>
         Deleted (snapshot (sw_count s)) + NotArchived (snapshot (sw_count s)) +
         SizeMismatch (snapshot (sw_count s)) + Errors (snapshot (sw_count s)) =
           Eligible (snapshot (sw_count s)) + count_of (\<lambda>obj. oi_Err obj \<noteq> None) objs"
  using sweep_run_totals [OF assms(1)] sweep_done_in_flight [OF assms(2)]
  by (auto simp: sweep_measures snapshot_def settled_def zero_counters_def count_of_none)

definition old_photo :: object_info where
  "old_photo = \<lparr> oi_Key = ''b.png'', oi_Size = 1, oi_LastModified = 10, oi_Err = None \<rparr>"

abbreviation mem_retention :: "env \<Rightarrow> mem Retention" where
  "mem_retention env \<equiv> NewRetention env mem_store (Some (archive_iface mem_archive))"

definition sweep_env :: env where
  "sweep_env = (\<lambda>_. '''')(''RETENTION_ENABLED'' := ''true'', ''RETENTION_DRY_RUN'' := ''false'',
     ''RETENTION_DAYS'' := ''1'')"

definition sweep_world :: mem where
  "sweep_world = tier_world\<lparr>m_list := (\<lambda>b. if b = ''photos'' then [old_photo] else [])\<rparr>"

lemma sweep_world_list: "ListObjects mem_store ''photos'' sweep_world = ([old_photo], sweep_world)"
  by (simp add: sweep_world_def tier_world_def listed_def old_photo_def)

lemma sweep_env_flags:
  "GetEnvAsBoolOrDefault sweep_env ''RETENTION_DRY_RUN'' True = False"
  "GetEnvAsBoolOrDefault sweep_env ''RETENTION_ENABLED'' False = True"
  by (simp_all add: GetEnvAsBoolOrDefault_def sweep_env_def ParseBool_def)

definition sweep_counts :: retentionCounters where
  "sweep_counts = \<lparr> c_scanned = 1, c_eligible = 1, c_deleted = 1, c_bytesFreed = 1, c_notArchived = 0,
                    c_sizeMismatch = 0, c_errors = 0 \<rparr>"

lemma sweep_env_run:
  "sweep_objects (mem_retention sweep_env) ''photos'' 20 [old_photo] zero_counters sweep_world =
     (sweep_counts, sweep_world\<lparr>m_hot := upd2 (m_hot sweep_world) ''photos'' ''b.png'' None\<rparr>)"
  by (simp add: old_photo_def old_enough_def process_def verifyArchived_def delete_verified_def
      run_tiers sweep_world_def tier_world_def zero_counters_def count_deleted_def sweep_counts_def sweep_env_flags)

theorem sweep_conserves_objects_witness:
  "\<exists>s. sweeps (mem_retention sweep_env) ''photos'' 20 (sweep_start 1 [old_photo] zero_counters sweep_world) s \<and>
       sweep_done s \<and> Eligible (snapshot (sw_count s)) = 1"
proof -
  note run = sweep_objects_run [OF sweep_env_run, of 0]
  have d: "sweep_done (sweep_start (Suc 0) [] c w)" for c and w :: mem
    by (simp add: sweep_done_def)
  from sweep_conserves_objects [OF run d] run d show ?thesis
    by (auto simp: old_photo_def old_enough_def intro!: exI)
qed

text \<open>
  Property C27.  Every sweep finishes: whatever \<open>RETENTION_MAX_CONCURRENT\<close> says, from every state a sweep can
  reach, some further steps complete it, and no sequence of steps is infinite, whatever the
  archive and the store answer.
\<close>

theorem sweep_terminates:
  assumes "sweeps r b cutoff (sweep_start (sweep_workers env) objs c w) s"
  shows "(\<exists>s'. sweeps r b cutoff s s' \<and> sweep_done s') \<and>
         (\<nexists>f. f 0 = s \<and> (\<forall>i. sweep_step r b cutoff (f i) (f (Suc i))))"
proof -
  have "sw_workers s \<noteq> []"
    using assms sweep_workers_pos [of env]
    by (induction rule: rtranclp_induct) (auto dest: sweep_step_workers)
  then have "\<exists>s'. sweeps r b cutoff s s' \<and> sweep_done s'"
  proof (induction "sweep_work s" arbitrary: s rule: less_induct)
    case less
    show ?case
    proof (cases "sweep_done s")
      case True
      then show ?thesis by blast
    next
      case False
      from sweep_progress [OF less.prems False] obtain s1 where s1: "sweep_step r b cutoff s s1" by blast
      moreover from sweep_step_workers [OF s1] less.prems have "sw_workers s1 \<noteq> []" by auto
      ultimately show ?thesis using less.hyps sweep_step_work [OF s1] converse_rtranclp_into_rtranclp
        by meson
    qed
  qed
  moreover have "\<not> (\<forall>i. sweep_step r b cutoff (f i) (f (Suc i)))" for f :: "nat \<Rightarrow> 'a sweep"
  proof
    assume "\<forall>i. sweep_step r b cutoff (f i) (f (Suc i))"
    then have "sweep_step r b cutoff (f i) (f (Suc i))" for i by blast
    from sweep_step_work [OF this] have "(f (Suc i), f i) \<in> measure sweep_work" for i by simp
    then show False using wf_no_infinite_down_chainE [OF wf_measure [of sweep_work]] by metis
  qed
  ultimately show ?thesis by blast
qed

theorem sweep_terminates_witness:
  "\<exists>s'. sweeps (mem_retention sweep_env) ''photos'' 20
         (sweep_start (sweep_workers sweep_env) [old_photo, old_photo] zero_counters tier_world) s' \<and> sweep_done s'"
  using sweep_terminates [of "mem_retention sweep_env" "''photos''" 20 sweep_env "[old_photo, old_photo]" zero_counters
      tier_world, OF rtranclp.rtrancl_refl] by (rule conjunct1)

text \<open>
  Property C5.  Age alone never deletes.  In the middle of a sweep or at its end, under every
  interleaving of the workers, a local object is still there, or the sweep is not a dry run,
  some listing reported the object older than the cutoff, and the archive holds a copy of the
  same length; the archive itself is unchanged.
\<close>

theorem sweep_never_loses:
  assumes "deployment a s3 S hot"
    and "ListObjects S b w = (objs, w1)"
    and "sweeps (NewRetention env S (Some (archive_iface a))) b cutoff (sweep_start n objs c w1) s"
    and "hot w b' k' = Some d"
  shows "cold_of a s3 (sw_world s) = cold_of a s3 w \<and>
         (hot (sw_world s) b' k' = Some d \<or>
          \<not> GetEnvAsBoolOrDefault env ''RETENTION_DRY_RUN'' True \<and> b' = b \<and> reported_old S cutoff b k' \<and>
          (\<exists>c'. cold_of a s3 w b k' = Some c' \<and> length c' = length d))"
  using two_tiers.listed_sweep_safe [OF deployment.tiers [OF assms(1)] assms(2,3), of b' k' d] assms(4)
  by (auto simp: two_tiers.freed_def [OF deployment.tiers [OF assms(1)]])

theorem sweep_never_loses_witness:
  "\<exists>s. sweeps (mem_retention sweep_env) ''photos'' 20 (sweep_start 1 [old_photo] zero_counters sweep_world) s \<and>
       m_hot (sw_world s) ''photos'' ''b.png'' = None \<and>
       (\<exists>c'. cold_of mem_archive m_s3 sweep_world ''photos'' ''b.png'' = Some c' \<and> length c' = 1)"
proof -
  note run = sweep_objects_run [OF sweep_env_run, of 0]
  from sweep_never_loses [OF mem_deployment.deployment_axioms sweep_world_list run,
      of "''photos''" "''b.png''" "[3]"] run
  show ?thesis by (auto simp: sweep_world_def tier_world_def upd2_def intro!: exI)
qed

text \<open>
  Property C6.  The same for a whole pass of \<open>RunOnce\<close>, over all target buckets and whatever
  fails or is cancelled on the way: a local object that disappears lies in a bucket of the
  archive scope, was reported older than the window, and has an archived copy of its length;
  and retention was switched on, out of dry-run, with a working archive.
\<close>

theorem retention_never_loses:
  assumes "deployment a s3 S hot"
    and "RunOnce ctxErr (NewRetention env S (Some (archive_iface a))) now w = (res, w')"
    and "hot w b k = Some d"
  shows "hot w' b k = Some d \<or>
         GetEnvAsBoolOrDefault env ''RETENTION_ENABLED'' False \<and>
         \<not> GetEnvAsBoolOrDefault env ''RETENTION_DRY_RUN'' True \<and> a_enabled a \<and> InScope a b \<and>
         reported_old S (now + sint (- r_window (NewRetention env S (Some (archive_iface a))))) b k \<and>
         (\<exists>c'. cold_of a s3 w' b k = Some c' \<and> length c' = length d)"
  using two_tiers.RunOnce_safe [OF deployment.tiers [OF assms(1)] assms(2), of b k d] assms(3)
  by (auto simp: two_tiers.freed_def [OF deployment.tiers [OF assms(1)]] RetentionEnabled_def)

lemma sweep_env_RunOnce:
  "RunOnce (\<lambda>w. None) (mem_retention sweep_env) 86400000000020 sweep_world =
     ((snapshot sweep_counts, None),
      sweep_world\<lparr>m_hot := upd2 (m_hot sweep_world) ''photos'' ''b.png'' None\<rparr>)"
proof -
  have w: "sint (- r_window (mem_retention sweep_env)) = - 86400000000000"
    by (simp add: window_word sweep_env_def GetEnvAsIntOrDefault_def at_least_one_def Atoi_def is_digit_def
        digits_val_def digit_val_def flip: of_int_minus)
  have "targetBuckets (mem_retention sweep_env) sweep_world = (Inr [''photos''], sweep_world)"
    by (simp add: targetBuckets_def NewRetention_def Let_def sweep_env_def scope_entries_def gostr
        sweep_world_def tier_world_def InScope_def)
  then show ?thesis
    using sweep_world_list sweep_env_run
    by (simp add: RunOnce_def w RetentionEnabled_def sweep_env_flags)
qed

theorem retention_never_loses_witness:
  "\<exists>res w'. RunOnce (\<lambda>w. None) (mem_retention sweep_env) 86400000000020 sweep_world = (res, w') \<and>
     m_hot w' ''photos'' ''b.png'' = None \<and>
     (\<exists>c'. cold_of mem_archive m_s3 w' ''photos'' ''b.png'' = Some c' \<and> length c' = 1)"
  using retention_never_loses [OF mem_deployment.deployment_axioms sweep_env_RunOnce, of "''photos''" "''b.png''" "[3]"]
    sweep_env_RunOnce
  by (auto simp: sweep_world_def tier_world_def upd2_def intro!: exI)

text \<open>
  The executable one-at-a-time sweep refines the concurrent one: it is one of
  the runs of the step relation for any number of workers, and ends at rest.
\<close>

theorem sequential_sweep_refines:
  assumes "sweep_objects r b cutoff objs c w = (c', w')"
  shows "\<exists>s. sweeps r b cutoff (sweep_start (Suc n) objs c w) s \<and> sweep_done s \<and>
             sw_count s = c' \<and> sw_world s = w'"
  using sweep_objects_run [OF assms, of n] by (intro exI [of _ "resting (Suc n) [] c' w'"]) (auto simp: sweep_done_def)

theorem sequential_sweep_refines_witness:
  "\<exists>s. sweeps (mem_retention sweep_env) ''photos'' 20 (sweep_start (Suc 7) [old_photo] zero_counters sweep_world) s \<and>
       sweep_done s \<and> c_deleted (sw_count s) = 1"
  using sequential_sweep_refines [OF sweep_env_run, of 7] by (auto simp: sweep_counts_def)

lemma removals_free:
  "verifyArchived (NewRetention env (S\<lparr>RemoveObject := R\<rparr>) Ao) = verifyArchived (NewRetention env S Ao)"
  unfolding verifyArchived_def NewRetention_sel VerifyArchived_store [of "S\<lparr>RemoveObject := R\<rparr>" Ao S] ..

lemma dry_sweep_removals:
  assumes "GetEnvAsBoolOrDefault env ''RETENTION_DRY_RUN'' True"
  shows "sweep_objects (NewRetention env (S\<lparr>RemoveObject := R\<rparr>) Ao) b cutoff objs c w =
         sweep_objects (NewRetention env S Ao) b cutoff objs c w"
proof (induction objs arbitrary: c w)
  case Nil
  then show ?case by simp
next
  case (Cons obj objs)
  have d: "delete_verified (NewRetention env (S\<lparr>RemoveObject := R\<rparr>) Ao) b obj =
      delete_verified (NewRetention env S Ao) b obj"
    using assms by (simp add: delete_verified_def fun_eq_iff)
  have "process (NewRetention env (S\<lparr>RemoveObject := R\<rparr>) Ao) b obj c w =
      process (NewRetention env S Ao) b obj c w" for c w
    unfolding process_def removals_free d ..
  with Cons.IH show ?case by (simp add: Let_def split: prod.split)
qed

lemma dry_buckets_removals:
  assumes "GetEnvAsBoolOrDefault env ''RETENTION_DRY_RUN'' True"
  shows "sweep_buckets ctxErr (NewRetention env (S\<lparr>RemoveObject := R\<rparr>) Ao) cutoff bs c w =
         sweep_buckets ctxErr (NewRetention env S Ao) cutoff bs c w"
proof (induction bs arbitrary: c w)
  case Nil
  then show ?case by simp
next
  case (Cons b bs)
  then show ?case by (simp add: dry_sweep_removals [OF assms] split: prod.splits)
qed

lemma NewRetention_fields:
  "r_buckets (NewRetention env (S\<lparr>RemoveObject := R\<rparr>) Ao) = r_buckets (NewRetention env S Ao)"
  "r_window (NewRetention env (S\<lparr>RemoveObject := R\<rparr>) Ao) = r_window (NewRetention env S Ao)"
  by (simp_all add: NewRetention_def Let_def)

lemma dry_RunOnce_removals:
  assumes "GetEnvAsBoolOrDefault env ''RETENTION_DRY_RUN'' True"
  shows "RunOnce ctxErr (NewRetention env (S\<lparr>RemoveObject := R\<rparr>) Ao) now w =
         RunOnce ctxErr (NewRetention env S Ao) now w"
  unfolding RunOnce_def targetBuckets_def RetentionEnabled_def NewRetention_sel NewRetention_fields
    dry_buckets_removals [OF assms] by (simp split: sum.splits prod.splits)

text \<open>
  The defaults are the cautious ones.  Without \<open>RETENTION_ENABLED\<close> the job never
  runs, whatever ticks arrive; without \<open>RETENTION_DRY_RUN\<close> it never calls \<open>RemoveObject\<close>,
  through any number of passes.
\<close>

theorem retention_is_opt_in:
  "(env ''RETENTION_ENABLED'' = '''' \<longrightarrow> Start ctxErr (NewRetention env S Ao) evs w = ([], w)) \<and>
   (env ''RETENTION_DRY_RUN'' = '''' \<longrightarrow>
      Start ctxErr (NewRetention env (S\<lparr>RemoveObject := R\<rparr>) Ao) evs w = Start ctxErr (NewRetention env S Ao) evs w)"
proof -
  have "retention_loop ctxErr (NewRetention env (S\<lparr>RemoveObject := R\<rparr>) Ao) evs w =
        retention_loop ctxErr (NewRetention env S Ao) evs w" if "env ''RETENTION_DRY_RUN'' = ''''" for evs w
  proof (induction ctxErr "NewRetention env S Ao" evs w rule: retention_loop.induct)
    case (3 ctxErr now evs w)
    from that have dry: "GetEnvAsBoolOrDefault env ''RETENTION_DRY_RUN'' True" by simp
    show ?case using 3 by (simp add: dry_RunOnce_removals [OF dry] split: prod.splits)
  qed simp_all
  then show ?thesis by (simp add: Start_def RetentionEnabled_def)
qed

theorem retention_is_opt_in_witness:
  "Start (\<lambda>w. None) (mem_retention (\<lambda>_. '''')) [Tick 0, Tick 1] sweep_world = ([], sweep_world) \<and>
   Start (\<lambda>w. None) (mem_retention ((\<lambda>_. '''')(''RETENTION_ENABLED'' := ''true''))) [Tick 5] sweep_world =
   Start (\<lambda>w. None) (NewRetention ((\<lambda>_. '''')(''RETENTION_ENABLED'' := ''true''))
     (mem_store\<lparr>RemoveObject := \<lambda>b k w. (None, empty_mem)\<rparr>) (Some (archive_iface mem_archive))) [Tick 5] sweep_world"
  using retention_is_opt_in [of "\<lambda>_. ''''" "\<lambda>w. None" mem_store "Some (archive_iface mem_archive)"
      "[Tick 0, Tick 1]" sweep_world]
    retention_is_opt_in [of "(\<lambda>_. '''')(''RETENTION_ENABLED'' := ''true'')" "\<lambda>w. None" mem_store
      "Some (archive_iface mem_archive)" "[Tick 5]" sweep_world "\<lambda>b k w. (None, empty_mem)"]
  by simp

text \<open>
  The retention window is what was configured only up to 106751 days: there the
  64-bit duration is exact and at least one day.  From 106752 days (up to 213503) the
  multiplication wraps to a negative window, the cutoff lies in the future, and every object
  written so far counts as older than the window.
\<close>

theorem retention_window_bounds:
  "let days = GetEnvAsIntOrDefault env ''RETENTION_DAYS'' 365; r = NewRetention env S Ao
   in (days \<le> 106751 \<longrightarrow> sint (r_window r) = max 1 days * 86400000000000) \<and>
      (106752 \<le> days \<and> days \<le> 213503 \<longrightarrow> sint (r_window r) < 0 \<and>
         (\<forall>obj now. oi_LastModified obj \<le> now \<longrightarrow> old_enough (now + sint (- r_window r)) obj))"
proof -
  define days where "days = GetEnvAsIntOrDefault env ''RETENTION_DAYS'' 365"
  define r where "r = NewRetention env S Ao"
  let ?x = "at_least_one days * 86400000000000"
  have w: "r_window r = word_of_int ?x" by (simp add: r_def days_def window_word)
  have "sint (r_window r) = max 1 days * 86400000000000" if "days \<le> 106751"
    unfolding w using that by (subst sint_word_of_int_in) (auto simp: at_least_one_def)
  moreover have "sint (r_window r) < 0 \<and> 0 < sint (- r_window r)" if "106752 \<le> days" "days \<le> 213503"
  proof
    show "sint (r_window r) < 0"
      unfolding w using that by (subst sint_word_of_int_over) (auto simp: at_least_one_def)
    have "- r_window r = word_of_int (2 ^ 64 - ?x)"
      by (simp add: w word_of_int_eq_iff)
    moreover have "sint (word_of_int (2 ^ 64 - ?x) :: 64 word) = 2 ^ 64 - ?x"
      using that by (intro sint_word_of_int_in) (auto simp: at_least_one_def)
    ultimately show "0 < sint (- r_window r)" using that by (simp add: at_least_one_def)
  qed
  ultimately show ?thesis by (auto simp: Let_def old_enough_def simp flip: days_def r_def)
qed

theorem retention_window_bounds_witness:
  "old_enough (7 + sint (- r_window (mem_retention ((\<lambda>_. '''')(''RETENTION_DAYS'' := ''110000'')))))
     (old_photo\<lparr>oi_LastModified := 7\<rparr>)"
proof -
  have "GetEnvAsIntOrDefault ((\<lambda>_. '''')(''RETENTION_DAYS'' := ''110000'')) ''RETENTION_DAYS'' 365 = 110000"
    by (simp add: GetEnvAsIntOrDefault_def Atoi_def is_digit_def digits_val_def digit_val_def)
  then show ?thesis
    using retention_window_bounds [of "(\<lambda>_. '''')(''RETENTION_DAYS'' := ''110000'')" mem_store
      "Some (archive_iface mem_archive)"] by (simp add: Let_def)
qed

end
