(* ===== verification/Backfill.thy ===== *)
theory Backfill
  imports Tiering
begin

text \<open>
  \<open>cmd/backfill/main.go\<close>: the command that copies the objects of the local store to the
  archive and never removes anything.  The pool of workers is modelled by handling each object
  when it is listed: the decision to go on depends only on the listing goroutine's own counter,
  and two objects never share a key.  Progress reports and the printed help are left out.
\<close>

section \<open>Counters and arguments\<close>

record backfill_stats =
  bf_scanned :: int
  bf_uploaded :: int
  bf_skipped :: int
  bf_failed :: int
  bf_bytes :: int

definition no_stats :: backfill_stats where
  "no_stats = \<lparr> bf_scanned = 0, bf_uploaded = 0, bf_skipped = 0, bf_failed = 0, bf_bytes = 0 \<rparr>"

definition argBuckets :: "'w object_store \<Rightarrow> string \<Rightarrow> 'w \<Rightarrow> string list result \<times> 'w" where
  "argBuckets store arg w =
     (if TrimSpace arg \<noteq> '''' then (Inr (scope_entries arg), w)
      else (case ListBuckets store w of
              (Inl err, w') \<Rightarrow> (Inl err, w')
            | (Inr infos, w') \<Rightarrow> (Inr infos, w')))"

text \<open>The usable buckets in order, and the error of each unreachable one.\<close>

fun checkDestinations ::
  "'w Archive \<Rightarrow> string list \<Rightarrow> 'w \<Rightarrow> (string list \<times> (string \<rightharpoonup> gerror)) \<times> 'w" where
  "checkDestinations A [] w = (([], Map.empty), w)"
| "checkDestinations A (b # bs) w =
     (if \<not> ar_InScope A b then checkDestinations A bs w
      else (case ar_Reachable A b w of
              (Some err, w1) \<Rightarrow>
                (case checkDestinations A bs w1 of
                   ((usable, unreachable), w2) \<Rightarrow>
                     ((usable, if b \<in> dom unreachable then unreachable else unreachable(b \<mapsto> err)), w2))
            | (None, w1) \<Rightarrow>
                (case checkDestinations A bs w1 of
                   ((usable, unreachable), w2) \<Rightarrow> ((b # usable, unreachable), w2))))"

section \<open>One object\<close>

definition count_upload :: "object_info \<Rightarrow> backfill_stats \<Rightarrow> backfill_stats" where
  "count_upload obj s = s\<lparr>bf_uploaded := bf_uploaded s + 1, bf_bytes := bf_bytes s + oi_Size obj\<rparr>"

definition count_failed :: "backfill_stats \<Rightarrow> backfill_stats" where
  "count_failed s = s\<lparr>bf_failed := bf_failed s + 1\<rparr>"

definition count_skipped :: "backfill_stats \<Rightarrow> backfill_stats" where
  "count_skipped s = s\<lparr>bf_skipped := bf_skipped s + 1\<rparr>"

definition handle ::
  "'w Tiering \<Rightarrow> string \<Rightarrow> bool \<Rightarrow> object_info \<Rightarrow> backfill_stats \<Rightarrow> 'w \<Rightarrow> backfill_stats \<times> 'w" where
  "handle t bucket apply obj s w =
     (if \<not> apply then
        (case VerifyArchived t bucket (oi_Key obj) (oi_Size obj) w of
           ((ok, reason, err), w') \<Rightarrow>
             (if err \<noteq> None then count_failed s
              else if ok then count_skipped s
              else count_upload obj s, w'))
      else
        (case ArchiveKnownObject t bucket (oi_Key obj) (oi_Size obj) False w of
           (res, w') \<Rightarrow>
             (case tr_Outcome res of
                TierArchivedKept \<Rightarrow> (count_upload obj s, w')
              | TierAlreadyArchived \<Rightarrow> (count_skipped s, w')
              | _ \<Rightarrow> (count_failed s, w'))))"

section \<open>One bucket, and the command\<close>

text \<open>The loop over the listing: cancellation, listing errors, the limit, then the work.\<close>

fun run_objects ::
  "('w \<Rightarrow> gerror option) \<Rightarrow> 'w Tiering \<Rightarrow> string \<Rightarrow> bool \<Rightarrow> int \<Rightarrow> object_info list \<Rightarrow> backfill_stats \<Rightarrow> 'w \<Rightarrow>
     backfill_stats \<times> 'w" where
  "run_objects ctxErr t bucket apply limit [] s w = (s, w)"
| "run_objects ctxErr t bucket apply limit (obj # objs) s w =
     (if ctxErr w \<noteq> None then (s, w)
      else if oi_Err obj \<noteq> None then run_objects ctxErr t bucket apply limit objs (count_failed s) w
      else if 0 < limit \<and> limit \<le> bf_scanned s then (s, w)
      else (case handle t bucket apply obj (s\<lparr>bf_scanned := bf_scanned s + 1\<rparr>) w of
              (s', w') \<Rightarrow> run_objects ctxErr t bucket apply limit objs s' w'))"

definition run ::
  "('w \<Rightarrow> gerror option) \<Rightarrow> 'w Tiering \<Rightarrow> 'w object_store \<Rightarrow> string \<Rightarrow> bool \<Rightarrow> int \<Rightarrow> backfill_stats \<Rightarrow> 'w \<Rightarrow>
     backfill_stats \<times> 'w" where
  "run ctxErr t store bucket apply limit s w =
     (case ListObjects store bucket w of
        (objs, w') \<Rightarrow> run_objects ctxErr t bucket apply limit objs s w')"

fun run_buckets ::
  "('w \<Rightarrow> gerror option) \<Rightarrow> 'w Tiering \<Rightarrow> 'w object_store \<Rightarrow> bool \<Rightarrow> int \<Rightarrow> string list \<Rightarrow> backfill_stats \<Rightarrow> 'w \<Rightarrow>
     backfill_stats \<times> 'w" where
  "run_buckets ctxErr t store apply limit [] s w = (s, w)"
| "run_buckets ctxErr t store apply limit (b # bs) s w =
     (if ctxErr w \<noteq> None then (s, w)
      else (case run ctxErr t store b apply limit s w of
              (s', w') \<Rightarrow> run_buckets ctxErr t store apply limit bs s' w'))"

text \<open>\<open>main\<close> after the flags are parsed: an error is the message of \<open>fatal\<close>.\<close>

definition backfill_main ::
  "('w \<Rightarrow> gerror option) \<Rightarrow> 'w Archive \<Rightarrow> 'w object_store \<Rightarrow> bool \<Rightarrow> string \<Rightarrow> int \<Rightarrow> 'w \<Rightarrow>
     backfill_stats result \<times> 'w" where
  "backfill_main ctxErr A store apply bucketArg limit w =
     (if \<not> ar_Enabled A then (Inl (ErrorString ''archive is not configured''), w)
      else (case argBuckets store bucketArg w of
         (Inl err, w1) \<Rightarrow> (Inl (Wrapf ''listing buckets'' err), w1)
       | (Inr buckets, w1) \<Rightarrow>
          (case checkDestinations A buckets w1 of
             ((usable, unreachable), w2) \<Rightarrow>
               (if usable = [] then (Inl (ErrorString ''no bucket has a reachable archive destination''), w2)
                else (case run_buckets ctxErr (NewTiering store (Some A)) store apply limit usable no_stats w2 of
                        (s, w3) \<Rightarrow> (Inr s, w3))))))"

section \<open>Destinations\<close>

lemma checkDestinations_usable:
  "checkDestinations A bs w = ((usable, unreachable), w') \<Longrightarrow>
   set usable \<subseteq> {b\<in>set bs. ar_InScope A b} \<and> dom unreachable \<subseteq> {b\<in>set bs. ar_InScope A b} \<and>
   {b\<in>set bs. ar_InScope A b} \<subseteq> set usable \<union> dom unreachable"
proof (induction A bs w arbitrary: usable unreachable rule: checkDestinations.induct)
  case (1 A w)
  then show ?case by simp
next
  case (2 A b bs w)
  show ?case
  proof (cases "ar_InScope A b")
    case False
    with 2 show ?thesis by auto
  next
    case True
    obtain r w1 where r: "ar_Reachable A b w = (r, w1)" by fastforce
    obtain us un w2 where c: "checkDestinations A bs w1 = ((us, un), w2)" by (metis surj_pair)
    have "set us \<subseteq> {b\<in>set bs. ar_InScope A b} \<and> dom un \<subseteq> {b\<in>set bs. ar_InScope A b} \<and>
        {b\<in>set bs. ar_InScope A b} \<subseteq> set us \<union> dom un" if "w2 = w'"
      using 2(2,3) True r c that by (cases r) auto
    moreover from 2(4) True r c have "w2 = w'" "set usable = (case r of None \<Rightarrow> insert b (set us) | _ \<Rightarrow> set us)"
      "dom unreachable = (case r of None \<Rightarrow> dom un | Some e \<Rightarrow> insert b (dom un))"
      by (cases r; fastforce split: if_splits)+
    ultimately show ?thesis using True by (cases r) auto
  qed
qed

section \<open>Counting\<close>

definition bf_total :: "backfill_stats \<Rightarrow> int" where
  "bf_total s = bf_uploaded s + bf_skipped s + bf_failed s"

lemma backfill_counts [counter_simps]:
  "bf_total (count_upload obj s) = bf_total s + 1" "bf_total (count_failed s) = bf_total s + 1"
  "bf_total (count_skipped s) = bf_total s + 1"
  "bf_scanned (count_upload obj s) = bf_scanned s" "bf_scanned (count_failed s) = bf_scanned s"
  "bf_scanned (count_skipped s) = bf_scanned s"
  "bf_total (s\<lparr>bf_scanned := n\<rparr>) = bf_total s"
  "bf_failed (count_upload obj s) = bf_failed s" "bf_failed (count_failed s) = bf_failed s + 1"
  "bf_failed (count_skipped s) = bf_failed s"
  "bf_skipped (count_upload obj s) = bf_skipped s" "bf_skipped (count_failed s) = bf_skipped s"
  by (simp_all add: bf_total_def count_upload_def count_failed_def count_skipped_def)

lemma handle_counts [counter_simps]:
  assumes "handle t b apply obj s w = (s', w')"
  shows "bf_total s' = bf_total s + 1" and "bf_scanned s' = bf_scanned s" and "bf_failed s \<le> bf_failed s'"
  using assms
  by (auto simp: handle_def counter_simps split: if_splits prod.splits TierOutcome.splits)

lemma known_object_never_already:
  "ArchiveKnownObject t b k n evict w = (res, w') \<Longrightarrow> tr_Outcome res \<noteq> TierAlreadyArchived"
  unfolding ArchiveKnownObject_def
  by (auto split: prod.splits option.splits if_splits simp: finish_archive_def)

lemma handle_apply_cases:
  assumes "handle t b True obj s w = (s', w')"
  obtains res where "ArchiveKnownObject t b (oi_Key obj) (oi_Size obj) False w = (res, w')"
    and "s' = (if tr_Outcome res = TierArchivedKept then count_upload obj s else count_failed s)"
proof -
  obtain res v where r: "ArchiveKnownObject t b (oi_Key obj) (oi_Size obj) False w = (res, v)" by fastforce
  with known_object_never_already [OF r] assms have "v = w'"
    and "s' = (if tr_Outcome res = TierArchivedKept then count_upload obj s else count_failed s)"
    by (auto simp: handle_def split: TierOutcome.splits)
  with r show thesis by (intro that) auto
qed

lemma run_objects_counts:
  "run_objects ctxErr t b apply limit objs s w = (s', w') \<Longrightarrow>
   bf_failed s \<le> bf_failed s' \<and>
   bf_total s - bf_scanned s \<le> bf_total s' - bf_scanned s' \<and>
   bf_total s' - bf_scanned s' \<le> bf_total s - bf_scanned s + int (length (filter (\<lambda>obj. oi_Err obj \<noteq> None) objs)) \<and>
   (0 < limit \<and> bf_scanned s \<le> limit \<longrightarrow> bf_scanned s' \<le> limit) \<and>
   (apply \<longrightarrow> bf_skipped s' = bf_skipped s)"
proof (induction objs arbitrary: s w)
  case Nil
  then show ?case by simp
next
  case (Cons obj objs)
  consider "s' = s" | (err) "oi_Err obj \<noteq> None" "run_objects ctxErr t b apply limit objs (count_failed s) w = (s', w')"
    | (work) s1 w1 where "oi_Err obj = None" "\<not> (0 < limit \<and> limit \<le> bf_scanned s)"
        "handle t b apply obj (s\<lparr>bf_scanned := bf_scanned s + 1\<rparr>) w = (s1, w1)"
        "run_objects ctxErr t b apply limit objs s1 w1 = (s', w')"
    using Cons.prems by (auto split: if_splits prod.splits)
  then show ?case
  proof cases
    case 1
    then show ?thesis by simp
  next
    case err
    from Cons.IH [OF err(2)] err(1) show ?thesis by (simp add: counter_simps)
  next
    case work
    have "apply \<longrightarrow> bf_skipped s1 = bf_skipped s"
      using work(3) by (cases "apply") (auto elim!: handle_apply_cases simp: counter_simps)
    with Cons.IH [OF work(4)] handle_counts [OF work(3)] work(1,2) show ?thesis
      by (auto simp: counter_simps)
  qed
qed

section \<open>What a copying run leaves behind\<close>

context two_tiers
begin

lemma ArchiveKnownObject_other:
  assumes run: "ArchiveKnownObject (NewTiering S (Some A)) b k n False w = (res, w')"
    and sl: "slashless b" "slashless b'" and ne: "(b', k') \<noteq> (b, k)"
  shows "cold w' b' k' = cold w b' k'"
proof -
  let ?I = "\<lambda>v. cold v b' k' = cold w b' k'"
  show ?thesis
  proof (rule ArchiveKnownObject_cases [where I = ?I, OF run])
    fix A' w0 w1
    assume "?I w1" and "finish_archive (NewTiering S (Some A)) b k n False w1 = (res, w')"
    then show ?thesis by (simp add: finish_archive_copy)
  next
    fix A' rd u v v'
    assume "t_archive (NewTiering S (Some A)) = Some A'" and "ar_Put A' b k rd v = (u, v')" and "?I v"
    then show "?I v'" using put_other [OF _ sl ne] by simp
  qed (auto dest: stat_frame openobj_cold)
qed

lemma handle_apply:
  assumes "handle (NewTiering S (Some A)) b True obj s w = (s', w')" and sl: "slashless b"
  shows "kept hot cold w w'"
    and "bf_failed s' = bf_failed s \<Longrightarrow> \<exists>c. cold w' b (oi_Key obj) = Some c \<and> int (length c) = oi_Size obj"
    and "k' \<noteq> oi_Key obj \<Longrightarrow> cold w' b k' = cold w b k'"
proof -
  from assms(1) obtain res
    where run: "ArchiveKnownObject (NewTiering S (Some A)) b (oi_Key obj) (oi_Size obj) False w = (res, w')"
      and s': "s' = (if tr_Outcome res = TierArchivedKept then count_upload obj s else count_failed s)"
    by (rule handle_apply_cases)
  from ArchiveKnownObject_copy [OF run sl] show "kept hot cold w w'" .
  show "\<exists>c. cold w' b (oi_Key obj) = Some c \<and> int (length c) = oi_Size obj" if "bf_failed s' = bf_failed s"
    using that s' ArchiveKnownObject_truthful [OF run sl] by (auto simp: counter_simps split: if_splits)
  show "cold w' b k' = cold w b k'" if "k' \<noteq> oi_Key obj"
    using ArchiveKnownObject_other [OF run sl sl, of k'] that by simp
qed

lemma kept_trans: "kept hot cold u v \<Longrightarrow> kept hot cold v w \<Longrightarrow> kept hot cold u w"
  by (auto simp: kept_def)

lemma run_objects_apply_kept:
  "run_objects ctxErr (NewTiering S (Some A)) b True limit objs s w = (s', w') \<Longrightarrow> slashless b \<Longrightarrow>
   kept hot cold w w' \<and> (\<forall>k. k \<notin> oi_Key ` set objs \<longrightarrow> cold w' b k = cold w b k)"
proof (induction objs arbitrary: s w)
  case Nil
  then show ?case by simp
next
  case (Cons obj objs)
  consider "w' = w" | s1 where "run_objects ctxErr (NewTiering S (Some A)) b True limit objs s1 w = (s', w')"
    | (work) s1 w1 s2 where "handle (NewTiering S (Some A)) b True obj s2 w = (s1, w1)"
        "run_objects ctxErr (NewTiering S (Some A)) b True limit objs s1 w1 = (s', w')"
    using Cons.prems(1) by (auto split: if_splits prod.splits)
  then show ?case
  proof cases
    case work
    from Cons.IH [OF work(2) Cons.prems(2)] handle_apply(1,3) [OF work(1) Cons.prems(2)] show ?thesis
      by (auto intro: kept_trans)
  qed (use Cons.IH Cons.prems(2) in auto)
qed

lemma run_objects_complete:
  assumes "run_objects ctxErr (NewTiering S (Some A)) b True limit objs s w = (s', w')"
    and "slashless b" and "distinct (map oi_Key objs)"
    and "limit \<le> 0" and "\<And>w. ctxErr w = None" and "bf_failed s' = bf_failed s"
  shows "\<forall>obj\<in>set objs. \<exists>c. cold w' b (oi_Key obj) = Some c \<and> int (length c) = oi_Size obj"
  using assms(1,3,6)
proof (induction objs arbitrary: s w)
  case Nil
  then show ?case by simp
next
  case (Cons obj objs)
  show ?case
  proof (cases "oi_Err obj")
    case (Some e)
    with Cons.prems(1) assms(5) [of w] have "run_objects ctxErr (NewTiering S (Some A)) b True limit objs (count_failed s) w = (s', w')"
      by simp
    from run_objects_counts [OF this] Cons.prems(3) show ?thesis by (simp add: counter_simps)
  next
    case None
    let ?s = "s\<lparr>bf_scanned := bf_scanned s + 1\<rparr>"
    obtain s1 w1 where h: "handle (NewTiering S (Some A)) b True obj ?s w = (s1, w1)" by fastforce
    with Cons.prems(1) None assms(4) assms(5) [of w]
    have rest: "run_objects ctxErr (NewTiering S (Some A)) b True limit objs s1 w1 = (s', w')" by simp
    from run_objects_counts [OF rest] handle_counts(3) [OF h] Cons.prems(3)
    have f: "bf_failed s1 = bf_failed ?s" "bf_failed s' = bf_failed s1" by auto
    from handle_apply(2) [OF h assms(2) f(1)] run_objects_apply_kept [OF rest assms(2)] Cons.prems(2)
    have "\<exists>c. cold w' b (oi_Key obj) = Some c \<and> int (length c) = oi_Size obj" by auto
    with Cons.IH [OF rest _ f(2)] Cons.prems(2) show ?thesis by simp
  qed
qed

end

section \<open>Properties\<close>

text \<open>
  Property C26.  A clean backfill is complete.  When a run with \<open>-apply\<close> over a bucket is not
  cancelled, has no limit and counts no failure, then every listed object has an archived
  copy of the listed size at the end, and the local store is exactly as it was.
\<close>

theorem backfill_complete:
  assumes "deployment a s3 S hot" and "slashless b"
    and "ListObjects S b w = (objs, w0)" and "distinct (map oi_Key objs)"
    and "run ctxErr (NewTiering S (Some (archive_iface a))) S b True limit s w = (s', w')"
    and "limit \<le> 0" and "\<And>v. ctxErr v = None" and "bf_failed s' = bf_failed s"
  shows "hot w' = hot w \<and>
         (\<forall>obj\<in>set objs. \<exists>c. cold_of a s3 w' b (oi_Key obj) = Some c \<and> int (length c) = oi_Size obj)"
proof -
  note tiers = deployment.tiers [OF assms(1)]
  from assms(3,5) have run: "run_objects ctxErr (NewTiering S (Some (archive_iface a))) b True limit objs s w0 = (s', w')"
    by (simp add: run_def)
  have "hot w' = hot w0"
    using two_tiers.run_objects_apply_kept [OF tiers run assms(2)] by (auto simp: kept_def)
  moreover have "hot w0 = hot w"
    using assms(1,3) unfolding deployment_def by (blast dest: hot_store.list_frame)
  ultimately show ?thesis
    using two_tiers.run_objects_complete [OF tiers run assms(2,4,6,7,8)] by simp
qed

definition photo_a :: object_info where
  "photo_a = \<lparr> oi_Key = ''a.png'', oi_Size = 2, oi_LastModified = 10, oi_Err = None \<rparr>"

definition backfill_world :: mem where
  "backfill_world = tier_world\<lparr>m_list := (\<lambda>b. if b = ''photos'' then [photo_a] else [])\<rparr>"

lemma backfill_world_list: "ListObjects mem_store ''photos'' backfill_world = ([photo_a], backfill_world)"
  by (simp add: backfill_world_def tier_world_def listed_def photo_a_def)

lemma backfill_world_run:
  "run (\<lambda>w. None) mem_tiering mem_store ''photos'' True 0 no_stats backfill_world =
     (no_stats\<lparr>bf_scanned := 1, bf_uploaded := 1, bf_bytes := 2\<rparr>,
      backfill_world\<lparr>m_s3 := upd2 (m_s3 tier_world) ''cold'' ''photos/a.png'' (Some [1, 2])\<rparr>)"
  using backfill_world_list
  by (simp add: run_def handle_def photo_a_def no_stats_def run_tiers backfill_world_def tier_world_def count_upload_def)

theorem backfill_complete_witness:
  "\<exists>s' w'. run (\<lambda>w. None) mem_tiering mem_store ''photos'' True 0 no_stats backfill_world = (s', w') \<and>
     m_hot w' = m_hot backfill_world \<and>
     (\<exists>c. cold_of mem_archive m_s3 w' ''photos'' ''a.png'' = Some c \<and> int (length c) = 2)"
proof -
  have s: "slashless ''photos''" by (simp add: slashless_def)
  have f: "bf_failed (no_stats\<lparr>bf_scanned := 1, bf_uploaded := 1, bf_bytes := 2\<rparr>) = bf_failed no_stats"
    by (simp add: no_stats_def)
  from backfill_complete [OF mem_deployment.deployment_axioms s backfill_world_list _ backfill_world_run _ _ f]
  have "m_hot (backfill_world\<lparr>m_s3 := upd2 (m_s3 tier_world) ''cold'' ''photos/a.png'' (Some [1, 2])\<rparr>) = m_hot backfill_world \<and>
     (\<exists>c. cold_of mem_archive m_s3 (backfill_world\<lparr>m_s3 := upd2 (m_s3 tier_world) ''cold'' ''photos/a.png'' (Some [1, 2])\<rparr>)
            ''photos'' ''a.png'' = Some c \<and> int (length c) = 2)"
    by (simp add: photo_a_def)
  with backfill_world_run show ?thesis by blast
qed

text \<open>
  The counters of a run add up: every scanned object ends as uploaded, skipped or
  failed, the surplus being exactly listing errors, and a limit is never exceeded.  With
  \<open>-apply\<close> nothing is ever counted as skipped: a rerun over a finished archive reports its
  objects as uploaded again.
\<close>

theorem backfill_accounting:
  "case run_objects ctxErr t b real_run limit objs no_stats w of (s, w') \<Rightarrow>
     bf_scanned s \<le> bf_uploaded s + bf_skipped s + bf_failed s \<and>
     bf_uploaded s + bf_skipped s + bf_failed s
       \<le> bf_scanned s + int (length (filter (\<lambda>obj. oi_Err obj \<noteq> None) objs)) \<and>
     (limit \<le> 0 \<or> bf_scanned s \<le> limit) \<and> (real_run \<longrightarrow> bf_skipped s = 0)"
proof -
  obtain s w' where run: "run_objects ctxErr t b real_run limit objs no_stats w = (s, w')" by fastforce
  from run_objects_counts [OF run] run show ?thesis
    by (auto simp: bf_total_def no_stats_def not_le)
qed

theorem backfill_accounting_witness:
  "case run_objects (\<lambda>w. None) mem_tiering ''photos'' True 1 [photo_a, photo_a] no_stats backfill_world of (s, w') \<Rightarrow>
     bf_skipped s = 0 \<and> bf_scanned s \<le> 1"
  using backfill_accounting [where ctxErr = "\<lambda>w. None" and t = mem_tiering and b = "''photos''"
      and real_run = True and limit = 1 and objs = "[photo_a, photo_a]" and w = backfill_world]
  by (cases "run_objects (\<lambda>w. None) mem_tiering ''photos'' True 1 [photo_a, photo_a] no_stats backfill_world")
    (simp del: run_objects.simps)

lemma run_objects_independent:
  assumes "\<And>obj s w. handle t b apply obj s w = handle t' b apply obj s w"
  shows "run_objects ctxErr t b apply limit objs s w = run_objects ctxErr t' b apply limit objs s w"
  by (induction objs arbitrary: s w) (simp_all add: assms split: prod.split)

lemma handle_remove_free:
  "handle (NewTiering (S\<lparr>RemoveObject := R\<rparr>) (Some A)) b apply obj s w = handle (NewTiering S (Some A)) b apply obj s w"
  unfolding handle_def ArchiveKnownObject_copy_remove VerifyArchived_store [of "S\<lparr>RemoveObject := R\<rparr>" _ S] ..

lemma handle_dry_free:
  "handle (NewTiering S' (Some (A\<lparr>ar_Put := P\<rparr>))) b False obj s w = handle (NewTiering S (Some A)) b False obj s w"
proof -
  have "VerifyArchived (NewTiering S' (Some (A\<lparr>ar_Put := P\<rparr>))) = VerifyArchived (NewTiering S (Some A))"
    by (simp add: VerifyArchived_def fun_eq_iff)
  then show ?thesis by (simp add: handle_def)
qed

text \<open>
  Backfill copies and never moves: with or without \<open>-apply\<close> the run of a bucket is
  the same whatever \<open>RemoveObject\<close> does, and without \<open>-apply\<close> also whatever an upload does, so
  neither is called.
\<close>

theorem backfill_never_moves:
  "run ctxErr (NewTiering (S\<lparr>RemoveObject := R\<rparr>) (Some A)) S b apply limit s w =
     run ctxErr (NewTiering S (Some A)) S b apply limit s w \<and>
   run ctxErr (NewTiering S (Some (A\<lparr>ar_Put := P\<rparr>))) S b False limit s w =
     run ctxErr (NewTiering S (Some A)) S b False limit s w"
  unfolding run_def
  using run_objects_independent [OF handle_remove_free] run_objects_independent [OF handle_dry_free]
  by (auto split: prod.split)

end
