(* ===== verification/Restore.thy ===== *)
theory Restore
  imports Tiering
begin

text \<open>
  \<open>cmd/restore/main.go\<close>: the command that pulls archived objects back onto local storage.  The
  listing callback updates the command's counters, so its state is a pair: the outside world and
  the counters.  The services act on the first component only: \<open>lift_store\<close> and \<open>lift_sdk\<close> carry
  any store and S3 client over to the pair.  As in the backfill, an object is handled when it
  is listed; the printed progress is left out.
\<close>

section \<open>The state of the command\<close>

record restore_stats =
  rs_scanned :: int
  rs_restored :: int
  rs_skipped :: int
  rs_failed :: int
  rs_bytes :: int

type_synonym 'v rworld = "'v \<times> restore_stats"

definition no_restores :: restore_stats where
  "no_restores = \<lparr> rs_scanned = 0, rs_restored = 0, rs_skipped = 0, rs_failed = 0, rs_bytes = 0 \<rparr>"

definition with_stats :: "('v \<Rightarrow> 'r \<times> 'v) \<Rightarrow> 'v \<times> 's \<Rightarrow> 'r \<times> 'v \<times> 's" where
  "with_stats f ws = (case f (fst ws) of (r, v) \<Rightarrow> (r, v, snd ws))"

definition lift_store :: "'v object_store \<Rightarrow> ('v \<times> 's) object_store" where
  "lift_store S =
     \<lparr> ListBuckets = with_stats (ListBuckets S), ListObjects = (\<lambda>b. with_stats (ListObjects S b)),
       StatObject = (\<lambda>b k. with_stats (StatObject S b k)),
       RemoveObject = (\<lambda>b k. with_stats (RemoveObject S b k)),
       PutObject = (\<lambda>b k rd n ct. with_stats (PutObject S b k rd n ct)),
       MakeBucket = (\<lambda>b. with_stats (MakeBucket S b)), BucketExists = (\<lambda>b. with_stats (BucketExists S b)),
       OpenObject = (\<lambda>b k. with_stats (OpenObject S b k)) \<rparr>"

definition lift_sdk :: "'v s3_sdk \<Rightarrow> ('v \<times> 's) s3_sdk" where
  "lift_sdk aws =
     \<lparr> sdk_Upload = (\<lambda>b k rd. with_stats (sdk_Upload aws b k rd)),
       sdk_HeadObject = (\<lambda>b k. with_stats (sdk_HeadObject aws b k)),
       sdk_HeadBucket = (\<lambda>b. with_stats (sdk_HeadBucket aws b)),
       sdk_Pages = (\<lambda>b p. with_stats (sdk_Pages aws b p)),
       sdk_GetObject = (\<lambda>b k. with_stats (sdk_GetObject aws b k)),
       sdk_ListBuckets = with_stats (sdk_ListBuckets aws),
       sdk_DeleteObjects = (\<lambda>b ks. with_stats (sdk_DeleteObjects aws b ks)) \<rparr>"

definition lift_archive :: "'v archive \<Rightarrow> ('v \<times> 's) archive" where
  "lift_archive a = \<lparr> a_aws = lift_sdk (a_aws a), a_enabled = a_enabled a, a_bucket = a_bucket a, a_only = a_only a \<rparr>"

section \<open>Operations\<close>

definition restoreBuckets :: "'w object_store \<Rightarrow> string \<Rightarrow> 'w \<Rightarrow> string list result \<times> 'w" where
  "restoreBuckets store arg w =
     (if TrimSpace arg \<noteq> '''' then (Inr (scope_entries arg), w)
      else (case ListBuckets store w of
              (Inl err, w') \<Rightarrow> (Inl err, w')
            | (Inr infos, w') \<Rightarrow> (Inr infos, w')))"

definition count_scanned :: "'v rworld \<Rightarrow> 'v rworld" where
  "count_scanned w = (fst w, (snd w)\<lparr>rs_scanned := rs_scanned (snd w) + 1\<rparr>)"

definition count_restored :: "int \<Rightarrow> 'v rworld \<Rightarrow> 'v rworld" where
  "count_restored n w =
     (fst w, (snd w)\<lparr>rs_restored := rs_restored (snd w) + 1, rs_bytes := rs_bytes (snd w) + n\<rparr>)"

definition count_local :: "'v rworld \<Rightarrow> 'v rworld" where
  "count_local w = (fst w, (snd w)\<lparr>rs_skipped := rs_skipped (snd w) + 1\<rparr>)"

definition count_error :: "'v rworld \<Rightarrow> 'v rworld" where
  "count_error w = (fst w, (snd w)\<lparr>rs_failed := rs_failed (snd w) + 1\<rparr>)"

definition restore_handle ::
  "(bytes \<Rightarrow> string) \<Rightarrow> 'v rworld Tiering \<Rightarrow> string \<Rightarrow> bool \<Rightarrow> string \<Rightarrow> int \<Rightarrow> 'v rworld \<Rightarrow> 'v rworld" where
  "restore_handle detect t bucket apply key sz w =
     (if \<not> apply then
        (case RestoreObject detect t bucket key sz w of
           (res, w') \<Rightarrow>
             (if tr_Outcome res = TierAlreadyLocal then count_local w' else count_restored sz w'))
      else
        (case RestoreObject detect t bucket key sz w of
           (res, w') \<Rightarrow>
             (case tr_Outcome res of
                TierRestored \<Rightarrow> count_restored (tr_Size res) w'
              | TierAlreadyLocal \<Rightarrow> count_local w'
              | _ \<Rightarrow> count_error w')))"

text \<open>The callback given to \<open>Walk\<close>: cancellation, the limit, then the work.\<close>

definition restore_visit ::
  "('v rworld \<Rightarrow> gerror option) \<Rightarrow> (bytes \<Rightarrow> string) \<Rightarrow> 'v rworld Tiering \<Rightarrow> string \<Rightarrow> bool \<Rightarrow> int \<Rightarrow> 'v rworld walk_fn" where
  "restore_visit ctxErr detect t bucket apply limit key sz w =
     (if ctxErr w \<noteq> None then (ctxErr w, w)
      else if 0 < limit \<and> limit \<le> rs_scanned (snd w) then (Some ContextCanceled, w)
      else (None, restore_handle detect t bucket apply key sz (count_scanned w)))"

definition restore_run ::
  "('v rworld \<Rightarrow> gerror option) \<Rightarrow> (bytes \<Rightarrow> string) \<Rightarrow> 'v rworld Tiering \<Rightarrow> string \<Rightarrow> bool \<Rightarrow> int \<Rightarrow> 'v rworld \<Rightarrow>
     gerror option \<times> 'v rworld" where
  "restore_run ctxErr detect t bucket apply limit w =
     (case (if apply then EnsureBucket t bucket w else (None, w)) of
        (Some err, w1) \<Rightarrow> (Some (Wrapf ''preparing local bucket'' err), w1)
      | (None, w1) \<Rightarrow>
          (case TierWalk t bucket (restore_visit ctxErr detect t bucket apply limit) w1 of
             (walkErr, w2) \<Rightarrow>
               (if walkErr \<noteq> None \<and> walkErr \<noteq> Some ContextCanceled \<and> ctxErr w2 = None then (walkErr, w2)
                else (None, w2))))"

text \<open>\<open>main\<close> after the flags are parsed; the error of a bucket is printed and the loop goes on.\<close>

fun restore_buckets ::
  "('v rworld \<Rightarrow> gerror option) \<Rightarrow> (bytes \<Rightarrow> string) \<Rightarrow> 'v rworld Tiering \<Rightarrow> bool \<Rightarrow> int \<Rightarrow> string list \<Rightarrow> 'v rworld \<Rightarrow>
     'v rworld" where
  "restore_buckets ctxErr detect t apply limit [] w = w"
| "restore_buckets ctxErr detect t apply limit (b # bs) w =
     (if ctxErr w \<noteq> None then w
      else (case restore_run ctxErr detect t b apply limit w of
              (err, w') \<Rightarrow> restore_buckets ctxErr detect t apply limit bs w'))"

definition restore_main ::
  "('v rworld \<Rightarrow> gerror option) \<Rightarrow> (bytes \<Rightarrow> string) \<Rightarrow> 'v rworld Archive \<Rightarrow> 'v rworld object_store \<Rightarrow> bool \<Rightarrow>
     string \<Rightarrow> int \<Rightarrow> 'v \<Rightarrow> unit result \<times> 'v rworld" where
  "restore_main ctxErr detect A store apply bucketArg limit v =
     (if \<not> ar_Enabled A then (Inl (ErrorString ''archive is not configured''), (v, no_restores))
      else (case restoreBuckets store bucketArg (v, no_restores) of
         (Inl err, w) \<Rightarrow> (Inl (Wrapf ''listing buckets'' err), w)
       | (Inr buckets, w) \<Rightarrow>
           (Inr (), restore_buckets ctxErr detect (NewTiering store (Some A)) apply limit buckets w)))"

section \<open>Lifting the services\<close>

lemma with_stats_eq: "with_stats f (v, s) = (r, v', s') \<longleftrightarrow> f v = (r, v') \<and> s' = s"
  by (auto simp: with_stats_def split: prod.splits)

lemma lift_store_sel [simp]:
  "ListBuckets (lift_store S) = with_stats (ListBuckets S)"
  "ListObjects (lift_store S) b = with_stats (ListObjects S b)"
  "StatObject (lift_store S) b k = with_stats (StatObject S b k)"
  "RemoveObject (lift_store S) b k = with_stats (RemoveObject S b k)"
  "PutObject (lift_store S) b k rd n ct = with_stats (PutObject S b k rd n ct)"
  "MakeBucket (lift_store S) b = with_stats (MakeBucket S b)"
  "BucketExists (lift_store S) b = with_stats (BucketExists S b)"
  "OpenObject (lift_store S) b k = with_stats (OpenObject S b k)"
  by (simp_all add: lift_store_def)

lemma lift_archive_sel [simp]:
  "a_aws (lift_archive a) = lift_sdk (a_aws a)" "a_enabled (lift_archive a) = a_enabled a"
  "a_bucket (lift_archive a) = a_bucket a" "a_only (lift_archive a) = a_only a"
  by (simp_all add: lift_archive_def)

lemma lift_sdk_sel [simp]:
  "sdk_Upload (lift_sdk aws) b k rd = with_stats (sdk_Upload aws b k rd)"
  "sdk_HeadObject (lift_sdk aws) b k = with_stats (sdk_HeadObject aws b k)"
  "sdk_GetObject (lift_sdk aws) b k = with_stats (sdk_GetObject aws b k)"
  "sdk_Pages (lift_sdk aws) b p = with_stats (sdk_Pages aws b p)"
  by (simp_all add: lift_sdk_def)

lemma with_stats_run: "with_stats f w = (r, w') \<longleftrightarrow> f (fst w) = (r, fst w') \<and> snd w' = snd w"
  by (cases w; cases w') (auto simp: with_stats_def split: prod.splits)

context s3_service
begin

lemma lift_s3: "s3_service (lift_sdk sdk) (\<lambda>w. s3 (fst w))"
  by unfold_locales
    (auto simp: with_stats_run dest: head_ok head_frame get_ok get_frame upload_other upload_keeps pages_frame)

end

context hot_store
begin

lemma lift_hot: "hot_store (lift_store S) (\<lambda>w. hot (fst w))"
  by unfold_locales
    (auto simp: with_stats_run dest: statobj_ok statobj_frame list_ok list_frame buckets_frame exists_frame
      make_frame openobj_frame remove_other remove_same putobj_other putobj_ok putobj_err)

end

context deployment
begin

lemma lift_deployment:
  "deployment (lift_archive a) (\<lambda>w. s3 (fst w)) (lift_store S) (\<lambda>w. hot (fst w))"
proof (intro deployment.intro archived_s3.intro deployment_axioms.intro)
  show "s3_service (a_aws (lift_archive a)) (\<lambda>w. s3 (fst w))" using lift_s3 by simp
  show "hot_store (lift_store S) (\<lambda>w. hot (fst w))" by (rule lift_hot)
qed (auto simp: with_stats_run dest: head_hot get_hot upload_hot pages_hot statobj_s3 list_s3 buckets_s3
    exists_s3 make_s3 openobj_s3 remove_s3 putobj_s3)

end

section \<open>Counting\<close>

text \<open>No operation of the lifted services touches the counters.\<close>

lemma RestoreObject_stats:
  assumes "RestoreObject detect (NewTiering (lift_store S) (Some (archive_iface (lift_archive a)))) b k n w = (res, w')"
  shows "snd w' = snd w"
proof (rule RestoreObject_keeps [where I = "\<lambda>v. snd v = snd w", OF assms])
  fix A g v v'
  assume "t_archive (NewTiering (lift_store S) (Some (archive_iface (lift_archive a)))) = Some A"
    and "ar_Open A b k v = (g, v')" and "snd v = snd w"
  then show "snd v' = snd w" using Open_world [of "lift_archive a" b k v g v'] by (auto simp: with_stats_run)
qed (auto simp: with_stats_run)

definition rs_total :: "restore_stats \<Rightarrow> int" where
  "rs_total s = rs_restored s + rs_skipped s + rs_failed s"

lemma restore_counts [counter_simps]:
  "rs_total (snd (count_restored n w)) = rs_total (snd w) + 1" "rs_total (snd (count_local w)) = rs_total (snd w) + 1"
  "rs_total (snd (count_error w)) = rs_total (snd w) + 1" "rs_total (snd (count_scanned w)) = rs_total (snd w)"
  "rs_scanned (snd (count_restored n w)) = rs_scanned (snd w)" "rs_scanned (snd (count_local w)) = rs_scanned (snd w)"
  "rs_scanned (snd (count_error w)) = rs_scanned (snd w)" "rs_scanned (snd (count_scanned w)) = rs_scanned (snd w) + 1"
  by (simp_all add: rs_total_def count_restored_def count_local_def count_error_def count_scanned_def)

lemma count_world [simp]:
  "fst (count_restored n w) = fst w" "fst (count_local w) = fst w" "fst (count_error w) = fst w"
  "fst (count_scanned w) = fst w"
  by (simp_all add: count_restored_def count_local_def count_error_def count_scanned_def)

lemma restore_handle_world:
  "fst (restore_handle detect t b apply k n w) = fst (snd (RestoreObject detect t b k n w))"
  by (simp add: restore_handle_def split: prod.split TierOutcome.split)

lemma restore_handle_counts [counter_simps]:
  assumes "t = NewTiering (lift_store S) (Some (archive_iface (lift_archive a)))"
  shows "rs_total (snd (restore_handle detect t b apply k n w)) = rs_total (snd w) + 1"
    and "rs_scanned (snd (restore_handle detect t b apply k n w)) = rs_scanned (snd w)"
proof -
  obtain res w' where r: "RestoreObject detect t b k n w = (res, w')" by (metis surj_pair)
  with RestoreObject_stats assms have "snd w' = snd w" by blast
  with r show "rs_total (snd (restore_handle detect t b apply k n w)) = rs_total (snd w) + 1"
    and "rs_scanned (snd (restore_handle detect t b apply k n w)) = rs_scanned (snd w)"
    by (simp_all add: restore_handle_def counter_simps split: TierOutcome.split)
qed

definition well_counted :: "int \<Rightarrow> 'v rworld \<Rightarrow> bool" where
  "well_counted limit w \<longleftrightarrow>
     rs_scanned (snd w) = rs_total (snd w) \<and> (0 < limit \<longrightarrow> rs_scanned (snd w) \<le> limit)"

lemma restore_visit_counts:
  assumes "restore_visit ctxErr detect t b apply limit k n w = (e, w')" and "well_counted limit w"
    and "t = NewTiering (lift_store S) (Some (archive_iface (lift_archive a)))"
  shows "well_counted limit w'"
  using assms(1,2) restore_handle_counts [OF assms(3), of detect b "apply" k n "count_scanned w"]
  by (auto simp: restore_visit_def well_counted_def counter_simps split: if_splits)

lemma EnsureBucket_world:
  "EnsureBucket t b w = (e, w') \<Longrightarrow>
   \<exists>r w1. BucketExists (t_store t) b w = (r, w1) \<and> (w' = w1 \<or> (\<exists>u. MakeBucket (t_store t) b w1 = (u, w')))"
  by (auto simp: EnsureBucket_def split: prod.splits sum.splits bool.splits)

text \<open>An invariant of a restore of one bucket: kept by preparing the bucket, listing and each object.\<close>

lemma restore_run_inv:
  assumes "restore_run ctxErr detect (NewTiering S (Some (archive_iface a))) b apply limit w = (e, w')" and "I w"
    and ex: "\<And>v r v'. BucketExists S b v = (r, v') \<Longrightarrow> I v \<Longrightarrow> I v'"
    and mk: "\<And>v r v'. MakeBucket S b v = (r, v') \<Longrightarrow> I v \<Longrightarrow> I v'"
    and pages: "\<And>b p v ps v'. sdk_Pages (a_aws a) b p v = (ps, v') \<Longrightarrow> I v \<Longrightarrow> I v'"
    and visit: "\<And>k n v e v'. restore_visit ctxErr detect (NewTiering S (Some (archive_iface a))) b apply limit k n v = (e, v') \<Longrightarrow>
      I v \<Longrightarrow> I v'"
  shows "I w'"
proof -
  let ?t = "NewTiering S (Some (archive_iface a))"
  obtain r w1 where p: "(if apply then EnsureBucket ?t b w else (None, w)) = (r, w1)" by (metis surj_pair)
  have w1: "I w1"
  proof (cases "apply")
    case False
    with p \<open>I w\<close> show ?thesis by simp
  next
    case True
    with p have "EnsureBucket ?t b w = (r, w1)" by simp
    from EnsureBucket_world [OF this] obtain r' v where v: "BucketExists S b w = (r', v)"
      and "w1 = v \<or> (\<exists>u. MakeBucket S b v = (u, w1))" by (metis NewTiering_sel(1))
    with ex [OF v \<open>I w\<close>] mk show ?thesis by blast
  qed
  obtain u w2 where u: "Walk a b (restore_visit ctxErr detect ?t b apply limit) w1 = (u, w2)" by (metis surj_pair)
  then have w2: "I w2" using w1 pages visit by (rule Walk_inv [where I = I])
  from assms(1) p u have "w' = w1 \<or> w' = w2"
    by (auto simp: restore_run_def TierWalk_def split: option.splits if_splits)
  with w1 w2 show ?thesis by blast
qed

section \<open>What a restore changes\<close>

definition restored_from :: "string \<Rightarrow> (string \<Rightarrow> string \<Rightarrow> bytes option) \<Rightarrow>
    (string \<Rightarrow> string \<Rightarrow> bytes option) \<Rightarrow> (string \<Rightarrow> string \<Rightarrow> bytes option) \<Rightarrow> bool" where
  "restored_from bucket cold_objects before after \<longleftrightarrow>
     (\<forall>b k. after b k = before b k \<or>
        b = bucket \<and> (\<exists>c. cold_objects b k = Some c \<and> after b k \<in> {Some c, Some []}))"

context two_tiers
begin

lemma RestoreObject_changes:
  assumes "RestoreObject detect (NewTiering S (Some A)) b k n w = (res, w')"
    and "cold w = cold0" and "restored_from b cold0 hot0 (hot w)"
  shows "cold w' = cold0 \<and> restored_from b cold0 hot0 (hot w')"
proof (intro conjI)
  show "cold w' = cold0" using RestoreObject_cold [OF assms(1)] assms(2) by simp
  have "hot w' b' k' = hot w b' k' \<or> b' = b \<and> (\<exists>c. cold0 b' k' = Some c \<and> hot w' b' k' \<in> {Some c, Some []})" for b' k'
    using RestoreObject_frame [OF assms(1)] RestoreObject_atomic [OF assms(1)] assms(2)
    by (cases "(b', k') = (b, k)") auto
  with assms(3) show "restored_from b cold0 hot0 (hot w')"
    unfolding restored_from_def by metis
qed

end

lemma restored_from_refl: "restored_from b cold0 hot0 hot0"
  by (simp add: restored_from_def)

context deployment
begin

lemma exists_same: "BucketExists S b v = (r, v') \<Longrightarrow> cold_of a s3 v' = cold_of a s3 v \<and> hot v' = hot v"
  using exists_cold exists_frame by blast

lemma make_same: "MakeBucket S b v = (r, v') \<Longrightarrow> cold_of a s3 v' = cold_of a s3 v \<and> hot v' = hot v"
  using make_cold make_frame by blast

lemma pages_same: "sdk_Pages (a_aws a) b p v = (r, v') \<Longrightarrow> cold_of a s3 v' = cold_of a s3 v \<and> hot v' = hot v"
  using pages_frame pages_hot cold_cong by blast

end

lemma restore_run_changes:
  fixes w :: "'v rworld"
  assumes D: "deployment a s3 S hot"
    and run: "restore_run ctxErr detect (NewTiering S (Some (archive_iface a))) b apply limit w = (e, w')"
    and outside: "\<And>u v :: 'v rworld. fst u = fst v \<Longrightarrow> s3 u = s3 v \<and> hot u = hot v"
  shows "cold_of a s3 w' = cold_of a s3 w \<and> restored_from b (cold_of a s3 w) (hot w) (hot w')"
proof -
  let ?I = "\<lambda>v. cold_of a s3 v = cold_of a s3 w \<and> restored_from b (cold_of a s3 w) (hot w) (hot v)"
  let ?t = "NewTiering S (Some (archive_iface a))"
  have same: "?I u" if "fst u = fst v" "?I v" for u v
  proof -
    from outside [OF that(1)] have o: "s3 u = s3 v" "hot u = hot v" by simp_all
    from o(1) have "cold_of a s3 u = cold_of a s3 v" by (simp add: cold_of_def fun_eq_iff)
    with that(2) o(2) show ?thesis by simp
  qed
  show ?thesis
  proof (rule restore_run_inv [where I = ?I, OF run])
    show "?I w" by (simp add: restored_from_refl)
  next
    fix v r v' assume "BucketExists S b v = (r, v')" and "?I v"
    then show "?I v'" using deployment.exists_same [OF D] by fastforce
  next
    fix v r v' assume "MakeBucket S b v = (r, v')" and "?I v"
    then show "?I v'" using deployment.make_same [OF D] by fastforce
  next
    fix b' p v ps v' assume "sdk_Pages (a_aws a) b' p v = (ps, v')" and "?I v"
    then show "?I v'" using deployment.pages_same [OF D] by fastforce
  next
    fix k n v r v'
    assume visit: "restore_visit ctxErr detect ?t b apply limit k n v = (r, v')" and v: "?I v"
    obtain res u where u: "RestoreObject detect ?t b k n (count_scanned v) = (res, u)" by (metis surj_pair)
    from same [OF _ v] have v1: "?I (count_scanned v)" by simp
    have u1: "?I u"
      using two_tiers.RestoreObject_changes [OF deployment.tiers [OF D] u] v1 by blast
    from visit have "v' = v \<or> v' = restore_handle detect ?t b apply k n (count_scanned v)"
      by (auto simp: restore_visit_def split: if_splits)
    then show "?I v'"
      using v same [OF _ u1, of v'] u restore_handle_world [of detect ?t b "apply" k n "count_scanned v"]
      by fastforce
  qed
qed

section \<open>Properties\<close>

text \<open>
  A restore only puts archived content back.  After restoring a bucket, whatever
  failed, was cancelled or ran into the limit, the archive is unchanged, and every local object
  is as it was, or, in that bucket, a copy of the archived object (or the empty object written
  when S3 answers without a content length).
\<close>

theorem restore_only_puts_back:
  fixes w :: "'v rworld"
  assumes "deployment a s3 S hot"
    and "restore_run ctxErr detect (NewTiering (lift_store S) (Some (archive_iface (lift_archive a)))) b real_run limit w = (e, w')"
  shows "cold_of a s3 (fst w') = cold_of a s3 (fst w) \<and>
         restored_from b (cold_of a s3 (fst w)) (hot (fst w)) (hot (fst w'))"
proof -
  have "cold_of (lift_archive a) (\<lambda>w. s3 (fst w)) v = cold_of a s3 (fst v)" for v :: "'v rworld"
    by (simp add: cold_of_def resolve_def fun_eq_iff)
  with restore_run_changes [OF deployment.lift_deployment [OF assms(1)] assms(2)] show ?thesis by simp
qed

definition restore_world :: "mem rworld" where
  "restore_world = (tier_world\<lparr>m_hot := \<lambda>b k. None, m_pages := [Inr [(Some ''photos/b.png'', Some 1)]]\<rparr>, no_restores)"

abbreviation restore_tiering :: "mem rworld Tiering" where
  "restore_tiering \<equiv> NewTiering (lift_store mem_store) (Some (archive_iface (lift_archive mem_archive)))"

lemma restore_world_run:
  "restore_run (\<lambda>w. None) (\<lambda>h. '''') restore_tiering ''photos'' False 0 restore_world =
     (None, (fst restore_world)\<lparr>m_hot := upd2 (\<lambda>b k. None) ''photos'' ''b.png'' (Some [3])\<rparr>,
      no_restores\<lparr>rs_scanned := 1, rs_restored := 1, rs_bytes := 1\<rparr>)"
  by (simp add: restore_run_def TierWalk_def Walk_def S3ListObjects_def resolve_def with_stats_def restore_world_def
      tier_world_def restore_visit_def restore_handle_def run_tiers no_restores_def count_scanned_def count_restored_def
      TrimPrefix_def HasPrefix_def)

theorem restore_only_puts_back_witness:
  "\<exists>w'. restore_run (\<lambda>w. None) (\<lambda>h. '''') restore_tiering ''photos'' False 0 restore_world = (None, w') \<and>
     m_hot (fst w') ''photos'' ''b.png'' = Some [3] \<and>
     restored_from ''photos'' (cold_of mem_archive m_s3 (fst restore_world)) (m_hot (fst restore_world)) (m_hot (fst w'))"
  using restore_only_puts_back [OF mem_deployment.deployment_axioms restore_world_run] restore_world_run
  by simp

text \<open>
  The dry run of the restore command is not dry: without \<open>-apply\<close> each object goes
  through the same \<open>RestoreObject\<close> as with it, so the outside world ends up the same, the
  transfer from the archive and the write to local storage included; only the counters differ.
\<close>

theorem restore_dry_run_writes:
  "fst (restore_handle detect t b False k n w) = fst (restore_handle detect t b True k n w)"
  by (simp add: restore_handle_world)

text \<open>
  The counters of a restore add up: every object scanned so far ended as restored,
  skipped or failed, and a limit holds across the buckets of a run.
\<close>

theorem restore_accounting:
  assumes "well_counted limit w"
    and "restore_run ctxErr detect (NewTiering (lift_store S) (Some (archive_iface (lift_archive a)))) b real_run limit w = (e, w')"
  shows "well_counted limit w'"
  using assms(2,1)
proof (rule restore_run_inv [where I = "well_counted limit"])
  fix k n v r v'
  assume "restore_visit ctxErr detect (NewTiering (lift_store S) (Some (archive_iface (lift_archive a)))) b real_run limit k n v = (r, v')"
    and "well_counted limit v"
  then show "well_counted limit v'" by (rule restore_visit_counts) simp
qed (auto simp: with_stats_run well_counted_def)

theorem restore_accounting_witness:
  "well_counted 5 (snd (restore_run (\<lambda>w. None) (\<lambda>h. '''') restore_tiering ''photos'' True 5 restore_world))"
proof -
  obtain e w' where run: "restore_run (\<lambda>w. None) (\<lambda>h. '''') restore_tiering ''photos'' True 5 restore_world = (e, w')"
    by (metis surj_pair)
  have "well_counted 5 restore_world" by (simp add: well_counted_def restore_world_def no_restores_def rs_total_def)
  from restore_accounting [OF this run] run show ?thesis by simp
qed

end
