(* ===== verification/Bucket_Tokens.thy ===== *)
theory Bucket_Tokens
  imports Env_Config "HOL-Library.Char_ord" "HOL-Library.List_Lexorder"
begin

text \<open>
  \<open>pkg/bucket/name.go\<close> and \<open>pkg/config/tokens.go\<close>: the grammar of bucket names, the general
  token's boot check, and the file of bucket-scoped tokens.  SHA-256, JSON decoding and RFC 3339
  parsing belong to Go's library and its formats; they are the parameters \<open>sha\<close>, \<open>unmarshal\<close>
  and \<open>parse\<close>.  A \<open>time.Time\<close> is the number of nanoseconds since Go's zero time, so \<open>IsZero\<close>
  is \<open>t = 0\<close>.
\<close>

section \<open>Bucket names\<close>

definition name_char :: "char \<Rightarrow> bool" where
  "name_char c \<longleftrightarrow> c \<in> set ''abcdefghijklmnopqrstuvwxyz0123456789''"

text \<open>The anchored pattern: an alphanumeric, 1 to 61 alphanumerics or dashes, an alphanumeric.\<close>

definition namePattern :: "string \<Rightarrow> bool" where
  "namePattern s =
     (case s of
        [] \<Rightarrow> False
      | c # cs \<Rightarrow>
          name_char c \<and> cs \<noteq> [] \<and> name_char (last cs) \<and>
          1 \<le> length (butlast cs) \<and> length (butlast cs) \<le> 61 \<and>
          list_all (\<lambda>d. name_char d \<or> d = CHR ''-'') (butlast cs))"

definition ValidateName :: "string \<Rightarrow> gerror option" where
  "ValidateName name = (if \<not> namePattern name then Some ErrInvalidName else None)"

section \<open>The general token\<close>

definition MinBucketTokenLength :: nat where
  "MinBucketTokenLength = 32"

definition placeholderTokens :: "string list" where
  "placeholderTokens =
     [''your-token-here'', ''your-secure-token'', ''your_token_here'', ''replace_me'', ''replace-me'',
      ''changeme'', ''change-me'', ''token'', ''secret'', ''password'', ''test'']"

datatype token_error = TokenUnset | TokenPlaceholder | TokenTooShort

definition ValidateGeneralToken :: "string \<Rightarrow> token_error option" where
  "ValidateGeneralToken token =
     (let token = TrimSpace token in
      if token = '''' then Some TokenUnset
      else if ToLower token \<in> set placeholderTokens then Some TokenPlaceholder
      else if length token < MinBucketTokenLength then Some TokenTooShort
      else None)"

section \<open>The token file\<close>

record BucketToken =
  bt_Bucket :: string
  bt_Token :: string
  bt_Label :: string
  bt_ExpiresAt :: string

record bucketCredential =
  bc_digest :: bytes
  bc_expiresAt :: int

type_synonym token_map = "string \<rightharpoonup> bucketCredential"

datatype file_answer = FileMissing | FileError gerror | FileContent string

datatype load_error =
    LoadRead gerror
  | LoadParse gerror
  | LoadInvalidName nat
  | LoadShortToken nat string
  | LoadDuplicate nat string
  | LoadBadExpiry nat string

text \<open>The loop over the entries; \<open>idx\<close> is the entry's position, used in the messages.\<close>

fun load_entries ::
  "(string \<Rightarrow> bytes) \<Rightarrow> (string \<Rightarrow> int option) \<Rightarrow> nat \<Rightarrow> BucketToken list \<Rightarrow> token_map \<Rightarrow> load_error + token_map" where
  "load_entries sha parse idx [] loaded = Inr loaded"
| "load_entries sha parse idx (entry # entries) loaded =
     (let name = TrimSpace (bt_Bucket entry);
          secret = TrimSpace (bt_Token entry);
          raw = TrimSpace (bt_ExpiresAt entry)
      in if ValidateName name \<noteq> None then Inl (LoadInvalidName idx)
         else if length secret < MinBucketTokenLength then Inl (LoadShortToken idx name)
         else if loaded name \<noteq> None then Inl (LoadDuplicate idx name)
         else (case (if raw = '''' then Some 0 else parse raw) of
                 None \<Rightarrow> Inl (LoadBadExpiry idx name)
               | Some expiresAt \<Rightarrow>
                   load_entries sha parse (Suc idx) entries
                     (loaded(name \<mapsto> \<lparr> bc_digest = sha secret, bc_expiresAt = expiresAt \<rparr>))))"

text \<open>The result and the new value of the package variable \<open>bucketTokens\<close>.\<close>

definition LoadBucketTokens ::
  "(string \<Rightarrow> bytes) \<Rightarrow> (string \<Rightarrow> int option) \<Rightarrow> (string \<Rightarrow> gerror + BucketToken list) \<Rightarrow> file_answer \<Rightarrow>
     (load_error + nat) \<times> token_map" where
  "LoadBucketTokens sha parse unmarshal file =
     (case file of
        FileMissing \<Rightarrow> (Inr 0, Map.empty)
      | FileError err \<Rightarrow> (Inl (LoadRead err), Map.empty)
      | FileContent raw \<Rightarrow>
          (if TrimSpace raw = '''' then (Inr 0, Map.empty)
           else (case unmarshal raw of
                   Inl err \<Rightarrow> (Inl (LoadParse err), Map.empty)
                 | Inr entries \<Rightarrow>
                     (case load_entries sha parse 0 entries Map.empty of
                        Inl e \<Rightarrow> (Inl e, Map.empty)
                      | Inr loaded \<Rightarrow> (Inr (card (dom loaded)), loaded)))))"

definition BucketTokenCount :: "token_map \<Rightarrow> nat" where
  "BucketTokenCount tokens = card (dom tokens)"

section \<open>Matching and expiry\<close>

definition zero_credential :: bucketCredential where
  "zero_credential = \<lparr> bc_digest = replicate 32 0, bc_expiresAt = 0 \<rparr>"

text \<open>An unknown bucket is compared against the zero credential.\<close>

definition BucketTokenMatchesAt ::
  "(string \<Rightarrow> bytes) \<Rightarrow> token_map \<Rightarrow> string \<Rightarrow> string \<Rightarrow> int \<Rightarrow> bool" where
  "BucketTokenMatchesAt sha tokens bucketName secret now =
     (let known = tokens bucketName \<noteq> None;
          credential = (case tokens bucketName of None \<Rightarrow> zero_credential | Some c \<Rightarrow> c);
          equal = (sha secret = bc_digest credential);
          live = (bc_expiresAt credential = 0 \<or> now < bc_expiresAt credential)
      in known \<and> equal \<and> live)"

definition token_expired :: "int \<Rightarrow> bucketCredential \<Rightarrow> bool" where
  "token_expired now c \<longleftrightarrow> bc_expiresAt c \<noteq> 0 \<and> \<not> now < bc_expiresAt c"

definition token_expiring :: "int \<Rightarrow> int \<Rightarrow> bucketCredential \<Rightarrow> bool" where
  "token_expiring now within c \<longleftrightarrow>
     bc_expiresAt c \<noteq> 0 \<and> now < bc_expiresAt c \<and> time_sub (bc_expiresAt c) now \<le> within"

definition names_with :: "(bucketCredential \<Rightarrow> bool) \<Rightarrow> token_map \<Rightarrow> string list" where
  "names_with P tokens =
     sorted_list_of_set (Set.filter (\<lambda>name. case tokens name of None \<Rightarrow> False | Some c \<Rightarrow> P c) (dom tokens))"

definition BucketTokenExpiryWarnings :: "token_map \<Rightarrow> int \<Rightarrow> int \<Rightarrow> string list \<times> string list" where
  "BucketTokenExpiryWarnings tokens now within =
     (names_with (token_expired now) tokens, names_with (token_expiring now within) tokens)"

section \<open>Names\<close>

lemma namePattern_iff:
  "namePattern s \<longleftrightarrow>
     3 \<le> length s \<and> length s \<le> 63 \<and> name_char (hd s) \<and> name_char (last s) \<and>
     (\<forall>d\<in>set s. name_char d \<or> d = CHR ''-'')"
proof (cases s)
  case Nil
  then show ?thesis by (simp add: namePattern_def)
next
  case (Cons c cs)
  show ?thesis
  proof (cases cs rule: rev_cases)
    case Nil
    with Cons show ?thesis by (simp add: namePattern_def)
  next
    case (snoc mid d)
    with Cons show ?thesis by (auto simp: namePattern_def list_all_iff)
  qed
qed

lemma name_char_printable: "name_char c \<Longrightarrow> printable c"
  by (auto simp: name_char_def printable_def)

lemma namePattern_printable: "namePattern s \<Longrightarrow> c \<in> set s \<Longrightarrow> printable c \<and> c \<noteq> CHR '':'' \<and> c \<noteq> CHR ''/''"
proof -
  assume "namePattern s" and "c \<in> set s"
  then consider "name_char c" | "c = CHR ''-''" by (auto simp: namePattern_iff)
  then show ?thesis
  proof cases
    case 1
    have "\<not> name_char (CHR '':'')" "\<not> name_char (CHR ''/'')" by (simp_all add: name_char_def)
    with 1 name_char_printable [OF 1] show ?thesis by auto
  qed (simp add: printable_def)
qed

section \<open>Loading\<close>

definition entry_name :: "BucketToken \<Rightarrow> string" where "entry_name e = TrimSpace (bt_Bucket e)"
definition entry_secret :: "BucketToken \<Rightarrow> string" where "entry_secret e = TrimSpace (bt_Token e)"

definition entry_expiry :: "(string \<Rightarrow> int option) \<Rightarrow> BucketToken \<Rightarrow> int option" where
  "entry_expiry parse e = (if TrimSpace (bt_ExpiresAt e) = '''' then Some 0 else parse (TrimSpace (bt_ExpiresAt e)))"

definition entry_ok :: "(string \<Rightarrow> int option) \<Rightarrow> BucketToken \<Rightarrow> bool" where
  "entry_ok parse e \<longleftrightarrow>
     namePattern (entry_name e) \<and> 32 \<le> length (entry_secret e) \<and> entry_expiry parse e \<noteq> None"

definition entry_credential :: "(string \<Rightarrow> bytes) \<Rightarrow> (string \<Rightarrow> int option) \<Rightarrow> BucketToken \<Rightarrow> bucketCredential" where
  "entry_credential sha parse e = \<lparr> bc_digest = sha (entry_secret e), bc_expiresAt = the (entry_expiry parse e) \<rparr>"

lemmas entry_defs = entry_name_def entry_secret_def entry_expiry_def entry_ok_def entry_credential_def

text \<open>What the loop accepts and what it builds, in closed form.\<close>

lemma load_entries_Inr:
  "load_entries sha parse idx es loaded = Inr tokens \<longleftrightarrow>
     (\<forall>e\<in>set es. entry_ok parse e) \<and> distinct (map entry_name es) \<and>
     entry_name ` set es \<inter> dom loaded = {} \<and>
     tokens = loaded ++ map_of (map (\<lambda>e. (entry_name e, entry_credential sha parse e)) es)"
proof (induction es arbitrary: idx loaded)
  case Nil
  then show ?case by auto
next
  case (Cons e es)
  show ?case
  proof (cases "entry_ok parse e \<and> loaded (entry_name e) = None")
    case False
    then show ?thesis
      by (auto simp: Let_def entry_defs ValidateName_def MinBucketTokenLength_def not_less split: option.splits if_splits)
  next
    case True
    then obtain t where t: "entry_expiry parse e = Some t" by (auto simp: entry_ok_def)
    let ?m = "loaded(entry_name e \<mapsto> entry_credential sha parse e)"
    have step: "load_entries sha parse idx (e # es) loaded = load_entries sha parse (Suc idx) es ?m"
      using True t by (auto simp: Let_def entry_defs ValidateName_def MinBucketTokenLength_def split: if_splits)
    let ?es = "map (\<lambda>e. (entry_name e, entry_credential sha parse e)) es"
    let ?all = "map (\<lambda>e. (entry_name e, entry_credential sha parse e)) (e # es)"
    have "?m ++ map_of ?es = loaded ++ map_of ?all" if "entry_name e \<notin> entry_name ` set es"
    proof -
      have "?m ++ map_of ?es = (loaded ++ map_of ?es)(entry_name e \<mapsto> entry_credential sha parse e)"
        using that by (intro map_add_upd_left) (auto simp: dom_map_of_conv_image_fst image_image)
      then show ?thesis by (simp only: list.map map_of.simps map_add_upd fst_conv snd_conv)
    qed
    note all = this
    show ?thesis
    proof (cases "entry_name e \<in> entry_name ` set es")
      case dup: True
      then have "entry_name ` set es \<inter> dom ?m \<noteq> {}" "\<not> distinct (map entry_name (e # es))" by auto
      then show ?thesis unfolding step Cons.IH by blast
    next
      case new: False
      with True have "entry_name ` set es \<inter> dom ?m = entry_name ` set (e # es) \<inter> dom loaded"
        "distinct (map entry_name (e # es)) = distinct (map entry_name es)"
        "(\<forall>x\<in>set (e # es). entry_ok parse x) = (\<forall>x\<in>set es. entry_ok parse x)" by auto
      then show ?thesis unfolding step Cons.IH all [OF new] by presburger
    qed
  qed
qed

lemma LoadBucketTokens_Inr:
  assumes "LoadBucketTokens sha parse unmarshal (FileContent raw) = (Inr n, tokens)"
    and "TrimSpace raw \<noteq> ''''"
  obtains es where "unmarshal raw = Inr es" "\<forall>e\<in>set es. entry_ok parse e" "distinct (map entry_name es)"
    "tokens = map_of (map (\<lambda>e. (entry_name e, entry_credential sha parse e)) es)" "n = length es"
proof -
  from assms obtain es where es: "unmarshal raw = Inr es" and l: "load_entries sha parse 0 es Map.empty = Inr tokens"
    and n: "n = card (dom tokens)"
    by (auto simp: LoadBucketTokens_def split: sum.splits)
  from l have ok: "\<forall>e\<in>set es. entry_ok parse e" "distinct (map entry_name es)"
    and t: "tokens = map_of (map (\<lambda>e. (entry_name e, entry_credential sha parse e)) es)"
    by (simp_all add: load_entries_Inr)
  from t have "dom tokens = entry_name ` set es"
    by (simp add: dom_map_of_conv_image_fst image_image)
  then have "n = length es" using n ok(2) by (metis distinct_card length_map set_map)
  with es ok t show thesis by (rule that)
qed

lemma BucketTokenMatchesAt_known:
  "BucketTokenMatchesAt sha tokens name secret now \<longleftrightarrow>
     (\<exists>c. tokens name = Some c \<and> sha secret = bc_digest c \<and> (bc_expiresAt c = 0 \<or> now < bc_expiresAt c))"
  by (auto simp: BucketTokenMatchesAt_def Let_def)

text \<open>A secret that matches has the digest of a configured one of full length.\<close>

lemma loaded_credential:
  assumes "LoadBucketTokens sha parse unmarshal answer = (Inr n, tokens)" and "BucketTokenMatchesAt sha tokens name secret now"
  shows "namePattern name \<and> (\<exists>s. 32 \<le> length s \<and> sha secret = sha s)"
proof (cases "\<exists>raw. answer = FileContent raw \<and> TrimSpace raw \<noteq> ''''")
  case True
  then obtain raw where raw: "answer = FileContent raw" "TrimSpace raw \<noteq> ''''" by blast
  from LoadBucketTokens_Inr [OF assms(1) [unfolded raw(1)] raw(2)] obtain es where ok: "\<forall>e\<in>set es. entry_ok parse e"
    and t: "tokens = map_of (map (\<lambda>e. (entry_name e, entry_credential sha parse e)) es)" by metis
  obtain c where c: "tokens name = Some c" "sha secret = bc_digest c" using assms(2) by (auto simp: BucketTokenMatchesAt_known)
  then obtain e where "e \<in> set es" "entry_name e = name" "c = entry_credential sha parse e"
    unfolding t by (auto dest!: map_of_SomeD)
  with ok c(2) show ?thesis by (auto simp: entry_ok_def entry_credential_def)
next
  case False
  then have "tokens = Map.empty" using assms(1) by (auto simp: LoadBucketTokens_def split: file_answer.splits if_splits)
  then show ?thesis using assms(2) by (simp add: BucketTokenMatchesAt_known)
qed

lemma finite_names: "finite (dom tokens) \<Longrightarrow>
    set (names_with P tokens) = {name. \<exists>c. tokens name = Some c \<and> P c} \<and> sorted (names_with P tokens)"
proof -
  assume "finite (dom tokens)"
  then have "finite (Set.filter (\<lambda>name. case tokens name of None \<Rightarrow> False | Some c \<Rightarrow> P c) (dom tokens))"
    by (simp add: Set.filter_eq)
  then show ?thesis by (auto simp: names_with_def Set.filter_eq split: option.splits)
qed

section \<open>Properties\<close>

text \<open>
  Property C20.  A token works exactly when the file says so.  After the file has loaded, and unless
  the presented secret collides with a configured one under SHA-256, a bucket and secret match at a given
  instant exactly when the file has an entry for that bucket with that secret (both trimmed)
  whose expiry is absent or later; an expiry equal to Go's zero time also counts as absent.
\<close>

theorem token_matches_iff_configured:
  assumes "\<And>e. e \<in> set es \<Longrightarrow> sha secret = sha (TrimSpace (bt_Token e)) \<Longrightarrow> secret = TrimSpace (bt_Token e)"
    and "LoadBucketTokens sha parse unmarshal (FileContent raw) = (Inr n, tokens)"
    and "TrimSpace raw \<noteq> ''''" and "unmarshal raw = Inr es"
  shows "BucketTokenMatchesAt sha tokens name secret now \<longleftrightarrow>
           (\<exists>e\<in>set es. TrimSpace (bt_Bucket e) = name \<and> TrimSpace (bt_Token e) = secret \<and>
              (TrimSpace (bt_ExpiresAt e) = '''' \<or>
               (\<exists>t. parse (TrimSpace (bt_ExpiresAt e)) = Some t \<and> (t = 0 \<or> now < t))))"
proof -
  from LoadBucketTokens_Inr [OF assms(2,3)] assms(4)
  have ok: "\<forall>e\<in>set es. entry_ok parse e" and d: "distinct (map entry_name es)"
    and t: "tokens = map_of (map (\<lambda>e. (entry_name e, entry_credential sha parse e)) es)" by auto
  have "tokens name = Some c \<longleftrightarrow> (\<exists>e\<in>set es. entry_name e = name \<and> entry_credential sha parse e = c)" for c
    unfolding t by (subst map_of_eq_Some_iff) (use d in \<open>auto simp: o_def\<close>)
  then have "BucketTokenMatchesAt sha tokens name secret now \<longleftrightarrow>
      (\<exists>e\<in>set es. entry_name e = name \<and> sha secret = sha (entry_secret e) \<and>
         (the (entry_expiry parse e) = 0 \<or> now < the (entry_expiry parse e)))"
    by (auto simp: BucketTokenMatchesAt_known entry_credential_def)
  also have "\<dots> \<longleftrightarrow> (\<exists>e\<in>set es. entry_name e = name \<and> entry_secret e = secret \<and>
       (TrimSpace (bt_ExpiresAt e) = '''' \<or> (\<exists>t. parse (TrimSpace (bt_ExpiresAt e)) = Some t \<and> (t = 0 \<or> now < t))))"
    using ok assms(1) by (intro bex_cong refl) (auto simp: entry_expiry_def entry_ok_def entry_secret_def)
  finally show ?thesis by (simp add: entry_name_def entry_secret_def)
qed

definition demo_secret :: string where
  "demo_secret = ''0123456789abcdef0123456789abcdef''"

definition demo_entry :: BucketToken where
  "demo_entry = \<lparr> bt_Bucket = ''photos'', bt_Token = demo_secret, bt_Label = '''', bt_ExpiresAt = ''2026'' \<rparr>"

definition demo_sha :: "string \<Rightarrow> bytes" where "demo_sha s = map (\<lambda>c. word_of_nat (of_char c)) s"
definition demo_parse :: "string \<Rightarrow> int option" where "demo_parse s = (if s = ''2026'' then Some 100 else None)"

lemma demo_sha_inj: "demo_sha x = demo_sha y \<Longrightarrow> x = y"
proof -
  have "inj (\<lambda>c. word_of_nat (of_char c) :: 8 word)"
  proof (rule injI)
    fix c d :: char
    assume "(word_of_nat (of_char c) :: 8 word) = word_of_nat (of_char d)"
    then have "(of_char c :: nat) mod 256 = of_char d mod 256"
      by (simp add: word_of_nat_eq_iff take_bit_eq_mod)
    then show "c = d" by (simp add: of_char_mod_256)
  qed
  then show "demo_sha x = demo_sha y \<Longrightarrow> x = y" by (simp add: demo_sha_def)
qed

lemma demo_load:
  "LoadBucketTokens demo_sha demo_parse (\<lambda>raw. Inr [demo_entry]) (FileContent ''{'') =
     (Inr 1, [''photos'' \<mapsto> \<lparr> bc_digest = demo_sha demo_secret, bc_expiresAt = 100 \<rparr>])"
  by (simp add: LoadBucketTokens_def gostr printable_def demo_entry_def demo_secret_def demo_parse_def
      ValidateName_def namePattern_def name_char_def MinBucketTokenLength_def)

theorem token_matches_iff_configured_witness:
  "BucketTokenMatchesAt demo_sha [''photos'' \<mapsto> \<lparr> bc_digest = demo_sha demo_secret, bc_expiresAt = 100 \<rparr>]
     ''photos'' demo_secret 99"
proof -
  have "TrimSpace ''{'' \<noteq> ''''" by (simp add: gostr printable_def)
  from token_matches_iff_configured [OF demo_sha_inj demo_load this refl, of demo_secret "''photos''" 99]
  show ?thesis by (simp add: demo_entry_def demo_parse_def gostr printable_def demo_secret_def)
qed

text \<open>
  Loading is all or nothing.  If the file cannot be read, parsed or validated, not a
  single token is active; if it loads, every entry is: the bucket names are valid and pairwise
  distinct, the secrets have at least 32 bytes, the expiries parse, and the reported number is
  the number of entries.
\<close>

theorem token_file_all_or_nothing:
  "case LoadBucketTokens sha parse unmarshal answer of
     (Inl e, tokens) \<Rightarrow> tokens = Map.empty
   | (Inr n, tokens) \<Rightarrow> n = BucketTokenCount tokens \<and>
       (case answer of FileContent raw \<Rightarrow>
          TrimSpace raw = '''' \<or>
          (\<exists>es. unmarshal raw = Inr es \<and> n = length es \<and> dom tokens = (TrimSpace \<circ> bt_Bucket) ` set es \<and>
             distinct (map (TrimSpace \<circ> bt_Bucket) es) \<and>
             (\<forall>e\<in>set es. ValidateName (TrimSpace (bt_Bucket e)) = None \<and> 32 \<le> length (TrimSpace (bt_Token e)) \<and>
                (TrimSpace (bt_ExpiresAt e) = '''' \<or> parse (TrimSpace (bt_ExpiresAt e)) \<noteq> None)))
        | _ \<Rightarrow> n = 0)"
proof -
  obtain r tokens where run: "LoadBucketTokens sha parse unmarshal answer = (r, tokens)" by fastforce
  show ?thesis
  proof (cases r)
    case (Inl e)
    with run show ?thesis
      by (auto simp: LoadBucketTokens_def split: file_answer.splits if_splits sum.splits)
  next
    case (Inr n)
    with run have count: "n = BucketTokenCount tokens"
      by (auto simp: LoadBucketTokens_def BucketTokenCount_def split: file_answer.splits if_splits sum.splits)
    show ?thesis
    proof (cases answer)
      case (FileContent raw)
      show ?thesis
      proof (cases "TrimSpace raw = ''''")
        case True
        with run Inr count FileContent show ?thesis by simp
      next
        case False
        from LoadBucketTokens_Inr [OF run [unfolded Inr FileContent] False] obtain es
          where es: "unmarshal raw = Inr es" "\<forall>e\<in>set es. entry_ok parse e" "distinct (map entry_name es)"
            "tokens = map_of (map (\<lambda>e. (entry_name e, entry_credential sha parse e)) es)" "n = length es" by blast
        then have "dom tokens = entry_name ` set es" by (simp add: dom_map_of_conv_image_fst image_image)
        moreover have "entry_name = TrimSpace \<circ> bt_Bucket" by (simp add: fun_eq_iff entry_name_def)
        ultimately show ?thesis using run Inr count FileContent es
          by (auto simp: entry_defs ValidateName_def split: if_splits)
      qed
    qed (use run Inr count in \<open>auto simp: LoadBucketTokens_def\<close>)
  qed
qed

theorem token_file_all_or_nothing_witness:
  "case LoadBucketTokens demo_sha demo_parse (\<lambda>raw. Inr [demo_entry]) (FileContent ''{'') of
     (Inl e, tokens) \<Rightarrow> False | (Inr n, tokens) \<Rightarrow> n = BucketTokenCount tokens"
  using token_file_all_or_nothing [where sha = demo_sha and parse = demo_parse
      and unmarshal = "\<lambda>raw. Inr [demo_entry]" and answer = "FileContent ''{''"]
  by (simp add: demo_load)

text \<open>
  The expiry warnings are right: both lists are sorted, no bucket is in both, the
  first names exactly the tokens that no secret can authenticate with any more, and every
  token of the second stops within the window.
\<close>

theorem expiry_warnings_exact:
  assumes "finite (dom tokens)"
    and "BucketTokenExpiryWarnings tokens now within = (expired, soon)"
  shows "sorted expired \<and> sorted soon \<and> set expired \<inter> set soon = {} \<and>
         set expired = {name. \<exists>c. tokens name = Some c \<and> bc_expiresAt c \<noteq> 0 \<and> bc_expiresAt c \<le> now} \<and>
         (\<forall>name\<in>set expired. \<forall>secret. \<not> BucketTokenMatchesAt sha tokens name secret now) \<and>
         (within < 2 ^ 63 - 1 \<longrightarrow>
            set soon = {name. \<exists>c. tokens name = Some c \<and> bc_expiresAt c \<noteq> 0 \<and> now < bc_expiresAt c \<and>
                               bc_expiresAt c \<le> now + within})"
proof -
  from assms(2) have e: "expired = names_with (token_expired now) tokens"
    and s: "soon = names_with (token_expiring now within) tokens"
    by (auto simp: BucketTokenExpiryWarnings_def)
  note names = finite_names [OF assms(1)]
  have se: "set expired = {name. \<exists>c. tokens name = Some c \<and> token_expired now c}" "sorted expired"
    using names e by simp_all
  have ss: "set soon = {name. \<exists>c. tokens name = Some c \<and> token_expiring now within c}" "sorted soon"
    using names s by simp_all
  have "token_expiring now within c \<longleftrightarrow>
      bc_expiresAt c \<noteq> 0 \<and> now < bc_expiresAt c \<and> bc_expiresAt c \<le> now + within" if "within < 2 ^ 63 - 1" for c
    using that by (auto simp: token_expiring_def time_sub_def)
  moreover have "\<forall>name\<in>set expired. \<forall>secret. \<not> BucketTokenMatchesAt sha tokens name secret now"
    by (auto simp: se token_expired_def BucketTokenMatchesAt_known)
  moreover have "set expired \<inter> set soon = {}"
    by (auto simp: se ss token_expired_def token_expiring_def)
  ultimately show ?thesis using se ss by (auto simp: token_expired_def not_less)
qed

theorem expiry_warnings_exact_witness:
  "\<exists>expired soon. BucketTokenExpiryWarnings [''photos'' \<mapsto> \<lparr> bc_digest = [], bc_expiresAt = 100 \<rparr>] 100 7 = (expired, soon) \<and>
     set expired = {''photos''} \<and> set soon = {}"
proof -
  obtain expired soon where w: "BucketTokenExpiryWarnings [''photos'' \<mapsto> \<lparr> bc_digest = [], bc_expiresAt = 100 \<rparr>] 100 7 = (expired, soon)"
    by fastforce
  note exact = expiry_warnings_exact [where sha = demo_sha, OF _ w]
  have "set expired = {''photos''}" using exact by (auto split: if_splits)
  moreover have "set soon = {}" using exact by (auto split: if_splits)
  ultimately show ?thesis using w by blast
qed

end
