(* ===== verification/Access_Control.thy ===== *)
theory Access_Control
  imports Bucket_Tokens
begin

text \<open>
  Who may do what: \<open>service/principal.go\<close>, the token checks of \<open>service/util.go\<close>, the two auth
  middlewares and the route table of \<open>cmd/main.go\<close>, \<open>handler/bucket_context.go\<close>, the events of
  \<open>pkg/audit\<close>, and the rate-limit keys of \<open>pkg/middleware\<close>.  A request is the part of fiber's
  context the code reads; the web framework and its route matching are not modelled.
\<close>

section \<open>Requests and principals\<close>

record Principal =
  pr_Scoped :: bool
  pr_Bucket :: string

definition general_principal :: Principal where
  "general_principal = \<lparr> pr_Scoped = False, pr_Bucket = '''' \<rparr>"

record request =
  rq_Authorization :: string
  rq_CFConnectingIP :: string
  rq_PeerIP :: string
  rq_QueryToken :: string
  rq_Principal :: "Principal option"

text \<open>What authentication depends on: the environment, the loaded tokens, SHA-256 and the clock.\<close>

record server =
  sv_env :: env
  sv_tokens :: token_map
  sv_sha :: "string \<Rightarrow> bytes"
  sv_now :: int

section \<open>Resolving a credential\<close>

definition BearerToken :: "request \<Rightarrow> string result" where
  "BearerToken c =
     (if rq_Authorization c = '''' then Inl ErrNoToken
      else (case split_on (CHR '' '') (rq_Authorization c) of
              [scheme, token] \<Rightarrow> Inr token
            | _ \<Rightarrow> Inl ErrInvalidAuthFormat))"

definition TokenValid :: "env \<Rightarrow> string \<Rightarrow> bool" where
  "TokenValid env clientToken =
     (let client = TrimSpace clientToken;
          server_token = TrimSpace (GetEnvOrDefault env ''TOKEN'' '''')
      in if client = '''' \<or> server_token = '''' then False else client = server_token)"

definition CheckToken :: "server \<Rightarrow> request \<Rightarrow> gerror option" where
  "CheckToken sv c =
     (case BearerToken c of
        Inl err \<Rightarrow> Some err
      | Inr raw \<Rightarrow> (if \<not> TokenValid (sv_env sv) raw then Some ErrInvalidToken else None))"

definition ResolvePrincipal :: "server \<Rightarrow> request \<Rightarrow> Principal result" where
  "ResolvePrincipal sv c =
     (case BearerToken c of
        Inl err \<Rightarrow> Inl err
      | Inr raw \<Rightarrow>
          (if TokenValid (sv_env sv) raw then Inr general_principal
           else (case cut (CHR '':'') (TrimSpace raw) of
                   None \<Rightarrow> Inl ErrInvalidToken
                 | Some (name, secret) \<Rightarrow>
                     (if \<not> BucketTokenMatchesAt (sv_sha sv) (sv_tokens sv) name secret (sv_now sv)
                      then Inl ErrInvalidToken
                      else Inr \<lparr> pr_Scoped = True, pr_Bucket = name \<rparr>))))"

definition StorePrincipal :: "Principal \<Rightarrow> request \<Rightarrow> request" where
  "StorePrincipal p c = c\<lparr>rq_Principal := Some p\<rparr>"

definition PrincipalFrom :: "request \<Rightarrow> Principal" where
  "PrincipalFrom c = (case rq_Principal c of Some p \<Rightarrow> p | None \<Rightarrow> general_principal)"

section \<open>Client address and audit events\<close>

definition ClientIP :: "request \<Rightarrow> string" where
  "ClientIP c = (let ip = TrimSpace (rq_CFConnectingIP c) in if ip \<noteq> '''' then ip else rq_PeerIP c)"

text \<open>The logged fields; the method and path fiber adds are left out.\<close>

datatype audit_event =
    AuthFailure gerror string
  | ScopedTokenOnOperatorRoute string string
  | BucketAccessDenied string string string

section \<open>The middlewares\<close>

text \<open>A gate lets the (possibly extended) request through, or answers with a status and an error.\<close>

datatype gate_answer = Pass request | Refuse nat gerror

definition GeneralAuthMiddleware :: "server \<Rightarrow> request \<Rightarrow> gate_answer \<times> audit_event list" where
  "GeneralAuthMiddleware sv c =
     (case CheckToken sv c of
        Some err \<Rightarrow>
          (Refuse 400 err,
           (case ResolvePrincipal sv c of
              Inr p \<Rightarrow> (if pr_Scoped p then [ScopedTokenOnOperatorRoute (pr_Bucket p) (ClientIP c)]
                        else [AuthFailure err (ClientIP c)])
            | Inl e \<Rightarrow> [AuthFailure err (ClientIP c)]))
      | None \<Rightarrow> (Pass c, []))"

definition BucketAuthMiddleware :: "server \<Rightarrow> request \<Rightarrow> gate_answer \<times> audit_event list" where
  "BucketAuthMiddleware sv c =
     (case ResolvePrincipal sv c of
        Inl err \<Rightarrow> (Refuse 400 err, [AuthFailure err (ClientIP c)])
      | Inr p \<Rightarrow> (Pass (StorePrincipal p c), []))"

text \<open>The stream's gate; that it also refuses a request which is no WebSocket upgrade is left out.\<close>

definition ws_gate :: "server \<Rightarrow> request \<Rightarrow> gate_answer \<times> audit_event list" where
  "ws_gate sv c =
     (if \<not> TokenValid (sv_env sv) (rq_QueryToken c)
      then (Refuse 401 ErrInvalidToken, [AuthFailure ErrInvalidToken (ClientIP c)])
      else (Pass c, []))"

definition resolveBucket :: "request \<Rightarrow> string \<Rightarrow> string result \<times> audit_event list" where
  "resolveBucket c requested =
     (let requested = TrimSpace requested; p = PrincipalFrom c in
      if \<not> pr_Scoped p then (Inr requested, [])
      else if requested = '''' \<or> requested = pr_Bucket p then (Inr (pr_Bucket p), [])
      else (Inl ErrBucketForbidden, [BucketAccessDenied (pr_Bucket p) requested (ClientIP c)]))"

definition bucketForbidden :: gate_answer where
  "bucketForbidden = Refuse 403 ErrBucketForbidden"

section \<open>The route table\<close>

datatype gate = Public | GeneralAuth | BucketAuth | WebSocketToken

datatype http_method = GET | POST | DELETE

datatype operation =
    ScalarYaml | HealthCheck | Metrics | WebSocketStats | MonitorStats
  | AwsBucketList | AwsBucketExistsOp | GlacierVaultList | GlacierInitiateRetrieval | GlacierListJobs
  | GlacierJobStatus | GlacierDownloadArchive | GlacierInventoryRetrieval
  | GlacierInitiateAsyncDownload | GlacierCheckDownloadStatus
  | MinioBucketList | MinioBucketExistsOp | CreateBucket | RemoveBucket
  | ResizeImage | ArchiveObjects | GetImage | BatchDelete | DeleteImage
  | UploadImage | UploadWithUrl | BatchUpload | Index

record route =
  rt_method :: http_method
  rt_path :: string
  rt_gate :: gate
  rt_op :: operation

definition route_of :: "http_method \<Rightarrow> string \<Rightarrow> gate \<Rightarrow> operation \<Rightarrow> route" where
  "route_of m p g op = \<lparr> rt_method = m, rt_path = p, rt_gate = g, rt_op = op \<rparr>"

text \<open>In the order of registration, which is the order fiber matches in.\<close>

definition routes :: "bool \<Rightarrow> bool \<Rightarrow> bool \<Rightarrow> route list" where
  "routes disableDelete disableUpload disableGet =
     [route_of GET ''/scalar.yaml'' Public ScalarYaml,
      route_of GET ''/health'' Public HealthCheck,
      route_of GET ''/metrics'' GeneralAuth Metrics,
      route_of GET ''/ws'' WebSocketToken WebSocketStats,
      route_of GET ''/monitor'' GeneralAuth MonitorStats,
      route_of GET ''/aws/bucket-list'' GeneralAuth AwsBucketList,
      route_of GET ''/aws/:bucket/exists'' GeneralAuth AwsBucketExistsOp,
      route_of GET ''/aws/vault-list'' GeneralAuth GlacierVaultList,
      route_of POST ''/aws/glacier/:vault/initiate-retrieval/:archiveId'' GeneralAuth GlacierInitiateRetrieval,
      route_of GET ''/aws/glacier/:vault/jobs'' GeneralAuth GlacierListJobs,
      route_of GET ''/aws/glacier/:vault/jobs/:jobId/status'' GeneralAuth GlacierJobStatus,
      route_of GET ''/aws/glacier/:vault/jobs/:jobId/download'' GeneralAuth GlacierDownloadArchive,
      route_of POST ''/aws/glacier/:vault/inventory'' GeneralAuth GlacierInventoryRetrieval,
      route_of POST ''/aws/glacier/:vault/jobs/:jobId/async-download'' GeneralAuth GlacierInitiateAsyncDownload,
      route_of GET ''/aws/glacier/downloads/:downloadJobId/status'' GeneralAuth GlacierCheckDownloadStatus,
      route_of GET ''/minio/bucket-list'' GeneralAuth MinioBucketList,
      route_of GET ''/minio/:bucket/exists'' GeneralAuth MinioBucketExistsOp,
      route_of GET ''/minio/:bucket/create'' GeneralAuth CreateBucket,
      route_of DELETE ''/minio/:bucket/delete'' GeneralAuth RemoveBucket,
      route_of POST ''/resize'' BucketAuth ResizeImage,
      route_of POST ''/archive'' BucketAuth ArchiveObjects] @
     (if \<not> disableGet then
       [route_of GET ''/:bucket/w::width/h::height/*'' Public GetImage,
        route_of GET ''/:bucket/w::width/*'' Public GetImage,
        route_of GET ''/:bucket/h::height/*'' Public GetImage,
        route_of GET ''/:bucket/*'' Public GetImage] else []) @
     (if \<not> disableUpload then [route_of DELETE ''/batch/delete'' BucketAuth BatchDelete] else []) @
     (if \<not> disableDelete then [route_of DELETE ''/:bucket/*'' BucketAuth DeleteImage] else []) @
     (if \<not> disableUpload then
       [route_of POST ''/upload'' BucketAuth UploadImage,
        route_of POST ''/upload-url'' BucketAuth UploadWithUrl,
        route_of POST ''/batch/upload'' BucketAuth BatchUpload] else []) @
     [route_of GET ''/'' Public Index]"

definition pass_gate :: "server \<Rightarrow> gate \<Rightarrow> request \<Rightarrow> gate_answer \<times> audit_event list" where
  "pass_gate sv g c =
     (case g of
        Public \<Rightarrow> (Pass c, [])
      | GeneralAuth \<Rightarrow> GeneralAuthMiddleware sv c
      | BucketAuth \<Rightarrow> BucketAuthMiddleware sv c
      | WebSocketToken \<Rightarrow> ws_gate sv c)"

section \<open>Rate-limit keys\<close>

definition RateLimitKey :: "server \<Rightarrow> request \<Rightarrow> string" where
  "RateLimitKey sv c =
     (let ip = ClientIP c in
      case ResolvePrincipal sv c of
        Inl err \<Rightarrow> ip
      | Inr p \<Rightarrow> (if pr_Scoped p then ip @ ''|bucket:'' @ pr_Bucket p else ip @ ''|general''))"

text \<open>The pattern removes every rune but ASCII letters, digits and three signs, hence every other byte.\<close>

definition key_char :: "char \<Rightarrow> bool" where
  "key_char c \<longleftrightarrow>
     c \<in> set ''ABCDEFGHIJKLMNOPQRSTUVWXYZabcdefghijklmnopqrstuvwxyz0123456789-_.''"

definition sanitizeKey :: "string \<Rightarrow> string" where
  "sanitizeKey key =
     (let key = map (\<lambda>c. if c = CHR '' '' then CHR ''-'' else c) key;
          key = filter key_char key
      in if length key > 512 then take 512 key else key)"

text \<open>The storage adapter over the cache; a miss is an empty answer and not an error.\<close>

definition RedisGet :: "(string \<Rightarrow> bytes result) \<Rightarrow> string \<Rightarrow> bytes option result" where
  "RedisGet cache_get key =
     (case cache_get (sanitizeKey key) of
        Inl err \<Rightarrow> (if errors_is err ErrCacheMiss then Inr None else Inl err)
      | Inr val \<Rightarrow> Inr (Some val))"

section \<open>What a credential resolves to\<close>

lemma general_principal_sel [simp]: "pr_Scoped general_principal = False" "pr_Bucket general_principal = ''''"
  by (simp_all add: general_principal_def)

text \<open>The two ways a request can authenticate.\<close>

definition presents_general :: "server \<Rightarrow> request \<Rightarrow> bool" where
  "presents_general sv c \<longleftrightarrow> (\<exists>raw. BearerToken c = Inr raw \<and> TokenValid (sv_env sv) raw)"

definition presents_scoped :: "server \<Rightarrow> request \<Rightarrow> string \<Rightarrow> bool" where
  "presents_scoped sv c name \<longleftrightarrow>
     (\<exists>raw secret. BearerToken c = Inr raw \<and> TrimSpace raw = name @ CHR '':'' # secret \<and>
        BucketTokenMatchesAt (sv_sha sv) (sv_tokens sv) name secret (sv_now sv))"

lemma ResolvePrincipal_cases:
  obtains (general) "presents_general sv c" "ResolvePrincipal sv c = Inr general_principal" "CheckToken sv c = None"
  | (scoped) name where "\<not> presents_general sv c" "presents_scoped sv c name"
      "ResolvePrincipal sv c = Inr \<lparr> pr_Scoped = True, pr_Bucket = name \<rparr>" "CheckToken sv c = Some ErrInvalidToken"
  | (refused) err where "\<not> presents_general sv c" "ResolvePrincipal sv c = Inl err" "CheckToken sv c = Some err"
      "err \<in> {ErrNoToken, ErrInvalidAuthFormat, ErrInvalidToken}"
proof (cases "BearerToken c")
  case (Inl err)
  then have "err \<in> {ErrNoToken, ErrInvalidAuthFormat, ErrInvalidToken}"
    by (auto simp: BearerToken_def split: if_splits list.splits)
  with Inl show ?thesis
    by (intro refused) (auto simp: ResolvePrincipal_def CheckToken_def presents_general_def)
next
  case (Inr raw)
  show ?thesis
  proof (cases "TokenValid (sv_env sv) raw")
    case True
    with Inr show ?thesis
      by (intro general) (auto simp: ResolvePrincipal_def CheckToken_def presents_general_def)
  next
    case invalid: False
    show ?thesis
    proof (cases "\<exists>name secret. cut (CHR '':'') (TrimSpace raw) = Some (name, secret) \<and>
        BucketTokenMatchesAt (sv_sha sv) (sv_tokens sv) name secret (sv_now sv)")
      case True
      then obtain name secret where cut: "cut (CHR '':'') (TrimSpace raw) = Some (name, secret)"
        and "BucketTokenMatchesAt (sv_sha sv) (sv_tokens sv) name secret (sv_now sv)" by blast
      moreover from cut have "TrimSpace raw = name @ CHR '':'' # secret" by (simp add: cut_Some)
      ultimately show ?thesis using Inr invalid
        by (intro scoped [of name])
          (auto simp: ResolvePrincipal_def CheckToken_def presents_general_def presents_scoped_def)
    next
      case False
      with Inr invalid show ?thesis
        by (intro refused [of ErrInvalidToken])
          (auto simp: ResolvePrincipal_def CheckToken_def presents_general_def split: option.splits)
    qed
  qed
qed

lemma presents_scoped_token: "presents_scoped sv c name \<Longrightarrow> name \<in> dom (sv_tokens sv)"
  by (auto simp: presents_scoped_def BucketTokenMatchesAt_known)

section \<open>Properties of authentication\<close>

text \<open>What the middleware and the reconciliation together establish about the bucket a handler acts on.\<close>

lemma gate_then_resolve:
  assumes "BucketAuthMiddleware sv c = (Pass c', evs)"
    and "resolveBucket c' requested = (Inr bucket, evs')"
  shows "presents_general sv c \<and> bucket = TrimSpace requested \<or> presents_scoped sv c bucket"
  using assms
  by (cases rule: ResolvePrincipal_cases [of sv c])
    (auto simp: BucketAuthMiddleware_def resolveBucket_def PrincipalFrom_def StorePrincipal_def Let_def split: if_splits)

text \<open>
  Property C8.  A bucket-scoped token is confined to its bucket.  When a request passes the
  bucket middleware and the handler's reconciliation answers with a bucket, then either the
  caller presented the general token and the bucket is the one requested, or it presented
  the live secret configured for exactly that bucket.
\<close>

theorem scoped_token_confined:
  assumes "BucketAuthMiddleware sv c = (Pass c', evs)"
    and "resolveBucket c' requested = (Inr bucket, evs')"
  shows "presents_general sv c \<and> bucket = TrimSpace requested \<or> presents_scoped sv c bucket"
  using gate_then_resolve [OF assms] .

definition demo_server :: server where
  "demo_server = \<lparr> sv_env = (\<lambda>_. '''')(''TOKEN'' := ''general:token''),
     sv_tokens = [''photos'' \<mapsto> \<lparr> bc_digest = demo_sha demo_secret, bc_expiresAt = 100 \<rparr>],
     sv_sha = demo_sha, sv_now = 99 \<rparr>"

definition demo_request :: request where
  "demo_request = \<lparr> rq_Authorization = ''Bearer photos:'' @ demo_secret, rq_CFConnectingIP = ''2001:db8::1'',
     rq_PeerIP = ''10.0.0.1'', rq_QueryToken = '''', rq_Principal = None \<rparr>"

lemma demo_resolve:
  "ResolvePrincipal demo_server demo_request = Inr \<lparr> pr_Scoped = True, pr_Bucket = ''photos'' \<rparr>"
  by (simp add: ResolvePrincipal_def BearerToken_def demo_request_def demo_server_def demo_secret_def
      TokenValid_def GetEnvOrDefault_def BucketTokenMatchesAt_known gostr printable_def)

theorem scoped_token_confined_witness:
  "presents_scoped demo_server demo_request ''photos'' \<and> \<not> presents_general demo_server demo_request"
proof -
  let ?c = "StorePrincipal \<lparr> pr_Scoped = True, pr_Bucket = ''photos'' \<rparr> demo_request"
  have m: "BucketAuthMiddleware demo_server demo_request = (Pass ?c, [])"
    by (simp add: BucketAuthMiddleware_def demo_resolve)
  have r: "resolveBucket ?c '''' = (Inr ''photos'', [])"
    by (simp add: resolveBucket_def PrincipalFrom_def StorePrincipal_def Let_def)
  have "\<not> presents_general demo_server demo_request"
    by (cases rule: ResolvePrincipal_cases [of demo_server demo_request]) (auto simp: demo_resolve general_principal_def)
  with scoped_token_confined [OF m r] show ?thesis by simp
qed

definition public_ops :: "operation set" where
  "public_ops = {ScalarYaml, HealthCheck, GetImage, Index}"

definition object_ops :: "operation set" where
  "object_ops = {ResizeImage, ArchiveObjects, BatchDelete, DeleteImage, UploadImage, UploadWithUrl, BatchUpload}"

lemma routes_gates:
  "rt \<in> set (routes d u g) \<Longrightarrow>
   (rt_gate rt = Public \<longleftrightarrow> rt_op rt \<in> public_ops) \<and> (rt_gate rt = BucketAuth \<longleftrightarrow> rt_op rt \<in> object_ops) \<and>
   (rt_gate rt = WebSocketToken \<longleftrightarrow> rt_op rt = WebSocketStats)"
proof -
  have "list_all (\<lambda>rt. (rt_gate rt = Public \<longleftrightarrow> rt_op rt \<in> public_ops) \<and>
      (rt_gate rt = BucketAuth \<longleftrightarrow> rt_op rt \<in> object_ops) \<and>
      (rt_gate rt = WebSocketToken \<longleftrightarrow> rt_op rt = WebSocketStats)) (routes d u g)"
    by (cases d; cases u; cases g) (simp_all add: routes_def route_of_def public_ops_def object_ops_def)
  then show "rt \<in> set (routes d u g) \<Longrightarrow> ?thesis" by (simp add: list_all_iff)
qed

text \<open>What it takes to pass the gate of a route that is no public read.\<close>

lemma gate_credentials:
  assumes "rt \<in> set (routes disableDelete disableUpload disableGet)" and "rt_op rt \<notin> public_ops"
    and "pass_gate sv (rt_gate rt) c = (Pass c', evs)"
  shows "presents_general sv c \<or> TokenValid (sv_env sv) (rq_QueryToken c) \<and> rt_op rt = WebSocketStats \<or>
         rt_op rt \<in> object_ops \<and> (\<exists>bucket\<in>dom (sv_tokens sv). presents_scoped sv c bucket)"
proof (cases "rt_gate rt")
  case Public
  with routes_gates [OF assms(1)] assms(2) show ?thesis by simp
next
  case GeneralAuth
  with assms(3) show ?thesis
    by (cases rule: ResolvePrincipal_cases [of sv c]) (auto simp: pass_gate_def GeneralAuthMiddleware_def)
next
  case BucketAuth
  with routes_gates [OF assms(1)] assms(3) show ?thesis
    by (cases rule: ResolvePrincipal_cases [of sv c])
      (auto simp: pass_gate_def BucketAuthMiddleware_def dest: presents_scoped_token)
next
  case WebSocketToken
  with routes_gates [OF assms(1)] assms(3) show ?thesis
    by (auto simp: pass_gate_def ws_gate_def split: if_splits)
qed

text \<open>
  The operator routes need the general token.  Whatever the feature flags, a request
  that passes the gate of a route which is not a public read has authenticated; and a request
  without the general token can only get through to the object routes (resize, archive,
  upload, delete), never to one that lists, creates or removes buckets, reads statistics or
  drives Glacier.
\<close>

theorem operator_routes_need_general_token:
  assumes "rt \<in> set (routes disableDelete disableUpload disableGet)" and "rt_op rt \<notin> public_ops"
    and "pass_gate sv (rt_gate rt) c = (Pass c', evs)"
  shows "presents_general sv c \<or> TokenValid (sv_env sv) (rq_QueryToken c) \<and> rt_op rt = WebSocketStats \<or>
         rt_op rt \<in> object_ops \<and> (\<exists>bucket\<in>dom (sv_tokens sv). presents_scoped sv c bucket)"
  using gate_credentials [OF assms] .

theorem operator_routes_need_general_token_witness:
  "route_of DELETE ''/:bucket/*'' BucketAuth DeleteImage \<in> set (routes False True False) \<and>
   (presents_general demo_server demo_request \<or> (\<exists>bucket\<in>dom (sv_tokens demo_server). presents_scoped demo_server demo_request bucket))"
proof -
  let ?rt = "route_of DELETE ''/:bucket/*'' BucketAuth DeleteImage"
  have rt: "?rt \<in> set (routes False True False)" by (simp add: routes_def)
  have op: "rt_op ?rt \<notin> public_ops" by (simp add: route_of_def public_ops_def)
  have "pass_gate demo_server (rt_gate ?rt) demo_request =
      (Pass (StorePrincipal \<lparr> pr_Scoped = True, pr_Bucket = ''photos'' \<rparr> demo_request), [])"
    by (simp add: route_of_def pass_gate_def BucketAuthMiddleware_def demo_resolve)
  from operator_routes_need_general_token [OF rt op this] rt show ?thesis
    by (auto simp: route_of_def)
qed

lemma presents_general_iff: "presents_general sv c \<longleftrightarrow> CheckToken sv c = None"
  by (cases rule: ResolvePrincipal_cases [of sv c]) auto

text \<open>
  A configured credential works as it is written down.  If the loaded tokens hold a
  live secret of printable characters for a bucket with a valid name, then the header
  \<open>Bearer <bucket>:<secret>\<close> resolves to that bucket, unless the whole string happens to be the
  general token, which always wins, even when it contains a colon.
\<close>

theorem bearer_credential_roundtrip:
  assumes "namePattern name" and "secret \<noteq> ''''" and "list_all printable secret"
    and "BucketTokenMatchesAt (sv_sha sv) (sv_tokens sv) name secret (sv_now sv)"
  shows "ResolvePrincipal sv (c\<lparr>rq_Authorization := ''Bearer '' @ name @ '':'' @ secret\<rparr>) =
           Inr (if name @ '':'' @ secret = TrimSpace (sv_env sv ''TOKEN'') then general_principal
                else \<lparr> pr_Scoped = True, pr_Bucket = name \<rparr>)"
proof -
  let ?tok = "name @ '':'' @ secret"
  have name: "\<forall>d\<in>set name. printable d \<and> d \<noteq> CHR '':''" using namePattern_printable [OF assms(1)] by blast
  have sp: "\<not> printable (CHR '' '')" by (simp add: printable_def)
  have "printable (CHR '':'')" by (simp add: printable_def)
  then have all: "\<forall>d\<in>set ?tok. printable d" using name assms(3) by (auto simp: list_all_iff)
  obtain d ds where tok: "?tok = d # ds" by (cases ?tok) auto
  with all have "TrimSpace ?tok = ?tok" unfolding tok by (intro TrimSpace_printable) auto
  moreover have "CHR '' '' \<notin> set ?tok" using all sp by blast
  then have "split_on (CHR '' '') (''Bearer '' @ ?tok) = [''Bearer'', ?tok]"
    using split_on_append [of "CHR '' ''" "''Bearer''" ?tok] split_on_single by auto
  then have "BearerToken (c\<lparr>rq_Authorization := ''Bearer '' @ ?tok\<rparr>) = Inr ?tok"
    by (simp add: BearerToken_def)
  moreover have "cut (CHR '':'') ?tok = Some (name, secret)" using name by (auto simp: cut_Some)
  moreover have "GetEnvOrDefault (sv_env sv) ''TOKEN'' '''' = sv_env sv ''TOKEN''"
    by (simp add: GetEnvOrDefault_def Let_def)
  ultimately show ?thesis using assms(4) tok
    by (auto simp: ResolvePrincipal_def TokenValid_def Let_def)
qed

theorem bearer_credential_roundtrip_witness:
  "ResolvePrincipal demo_server (demo_request\<lparr>rq_Authorization := ''Bearer photos:'' @ demo_secret\<rparr>) =
     Inr \<lparr> pr_Scoped = True, pr_Bucket = ''photos'' \<rparr>"
proof -
  have n: "namePattern ''photos''" by (simp add: namePattern_def name_char_def)
  have s: "demo_secret \<noteq> ''''" "list_all printable demo_secret" by (simp_all add: demo_secret_def printable_def)
  have m: "BucketTokenMatchesAt (sv_sha demo_server) (sv_tokens demo_server) ''photos'' demo_secret (sv_now demo_server)"
    by (simp add: demo_server_def BucketTokenMatchesAt_known)
  from bearer_credential_roundtrip [OF n s m, of demo_request] show ?thesis
    by (simp add: demo_server_def demo_secret_def gostr printable_def)
qed

fun event_reason :: "audit_event \<Rightarrow> gerror option" where
  "event_reason (AuthFailure err ip) = Some err"
| "event_reason (ScopedTokenOnOperatorRoute b ip) = None"
| "event_reason (BucketAccessDenied b r ip) = None"

text \<open>
  Every refusal is answered with 400 and recorded once; nothing else is recorded.  The
  record names one of the three coarse reasons, or the bucket of a valid scoped token that
  reached for an operator route, and never any part of a rejected credential.
\<close>

theorem refusals_are_audited:
  "\<forall>(answer, events)\<in>{GeneralAuthMiddleware sv c, BucketAuthMiddleware sv c}.
     (\<exists>c'. answer = Pass c' \<and> events = []) \<or>
     (\<exists>err. answer = Refuse 400 err \<and> err \<in> {ErrNoToken, ErrInvalidAuthFormat, ErrInvalidToken} \<and>
        (events = [AuthFailure err (ClientIP c)] \<or>
         (\<exists>bucket\<in>dom (sv_tokens sv). events = [ScopedTokenOnOperatorRoute bucket (ClientIP c)])))"
  by (cases rule: ResolvePrincipal_cases [of sv c])
    (auto simp: GeneralAuthMiddleware_def BucketAuthMiddleware_def dest: presents_scoped_token)

theorem refusals_are_audited_witness:
  "GeneralAuthMiddleware demo_server demo_request =
     (Refuse 400 ErrInvalidToken, [ScopedTokenOnOperatorRoute ''photos'' (ClientIP demo_request)])"
proof -
  have "fst (GeneralAuthMiddleware demo_server demo_request) = Refuse 400 ErrInvalidToken"
    and "snd (GeneralAuthMiddleware demo_server demo_request) \<noteq> [AuthFailure ErrInvalidToken (ClientIP demo_request)]"
    by (cases rule: ResolvePrincipal_cases [of demo_server demo_request];
      simp add: demo_resolve general_principal_def GeneralAuthMiddleware_def)+
  with refusals_are_audited [of demo_server demo_request] show ?thesis
    by (cases "GeneralAuthMiddleware demo_server demo_request") (auto simp: demo_server_def split: if_splits)
qed

section \<open>Properties of the rate-limit keys\<close>

text \<open>
  An unverified credential cannot mint a counter.  Whatever a client at one address
  sends, its key is the address alone, the address as general caller, or the address with a
  bucket that has a configured token, so the number of counters it can open is bounded by
  the configuration; a credential that does not authenticate always falls on the first.
\<close>

theorem rate_keys_bounded:
  "RateLimitKey sv c \<in> {ClientIP c, ClientIP c @ ''|general''} \<union>
     (\<lambda>bucket. ClientIP c @ ''|bucket:'' @ bucket) ` dom (sv_tokens sv) \<and>
   (ResolvePrincipal sv c = ResolvePrincipal sv c' \<and> ClientIP c = ClientIP c' \<longrightarrow> RateLimitKey sv c = RateLimitKey sv c')"
  by (cases rule: ResolvePrincipal_cases [of sv c])
    (auto simp: RateLimitKey_def Let_def dest: presents_scoped_token)

theorem rate_keys_bounded_witness:
  "RateLimitKey demo_server demo_request = RateLimitKey demo_server (demo_request\<lparr>rq_QueryToken := ''x''\<rparr>)"
proof -
  have "ResolvePrincipal demo_server demo_request = ResolvePrincipal demo_server (demo_request\<lparr>rq_QueryToken := ''x''\<rparr>)"
    "ClientIP demo_request = ClientIP (demo_request\<lparr>rq_QueryToken := ''x''\<rparr>)"
    by (simp_all add: ResolvePrincipal_def BearerToken_def ClientIP_def Let_def)
  with rate_keys_bounded [of demo_server demo_request "demo_request\<lparr>rq_QueryToken := ''x''\<rparr>"] show ?thesis by blast
qed

lemma key_char_name: "name_char c \<Longrightarrow> key_char c"
proof -
  have "list_all key_char ''abcdefghijklmnopqrstuvwxyz0123456789''" by (simp add: key_char_def)
  then show "name_char c \<Longrightarrow> key_char c" by (auto simp: name_char_def list_all_iff)
qed

definition dotted :: "string \<Rightarrow> bool" where
  "dotted ip \<longleftrightarrow> length ip \<le> 15 \<and> list_all (\<lambda>c. is_digit c \<or> c = CHR ''.'') ip"

lemma key_char_consts [simp]:
  "\<not> key_char (CHR '' '')" "\<not> key_char (CHR ''|'')" "\<not> key_char (CHR '':'')" "key_char (CHR ''-'')" "key_char (CHR ''.'')"
  "list_all key_char ''general''" "list_all key_char ''bucket''"
  by (simp_all add: key_char_def)

lemma sanitize_filter: "CHR '' '' \<notin> set key \<Longrightarrow> length (filter key_char key) \<le> 512 \<Longrightarrow> sanitizeKey key = filter key_char key"
proof -
  assume "CHR '' '' \<notin> set key" and len: "length (filter key_char key) \<le> 512"
  then have "map (\<lambda>c. if c = CHR '' '' then CHR ''-'' else c) key = key"
    by (intro map_idI) auto
  with len show "sanitizeKey key = filter key_char key" by (simp add: sanitizeKey_def Let_def)
qed

lemma filter_all: "list_all P xs \<Longrightarrow> filter P xs = xs"
  by (induction xs) auto

lemma dotted_chars: "dotted ip \<Longrightarrow> list_all key_char ip \<and> CHR '' '' \<notin> set ip \<and> (\<forall>c\<in>set ip. c \<notin> {CHR ''g'', CHR ''b''})"
proof -
  let ?P = "\<lambda>c. key_char c \<and> c \<noteq> CHR '' '' \<and> c \<notin> {CHR ''g'', CHR ''b''}"
  have "list_all ?P ''0123456789''" by (simp add: key_char_def)
  then have digit: "is_digit c \<Longrightarrow> ?P c" for c unfolding is_digit_def list_all_iff by blast
  assume "dotted ip"
  then have "\<forall>c\<in>set ip. is_digit c \<or> c = CHR ''.''" by (simp add: dotted_def list_all_iff)
  then have "\<forall>c\<in>set ip. ?P c" using digit by fastforce
  then show ?thesis unfolding list_all_iff by blast
qed

definition identity_suffix :: "Principal option \<Rightarrow> string" where
  "identity_suffix p = (case p of None \<Rightarrow> '''' | Some q \<Rightarrow>
     (if pr_Scoped q then ''bucket'' @ pr_Bucket q else ''general''))"

lemma append_digits_inject:
  assumes "\<forall>c\<in>set ip. c \<notin> {CHR ''g'', CHR ''b''}" and "\<forall>c\<in>set ip'. c \<notin> {CHR ''g'', CHR ''b''}"
    and "ip @ identity_suffix p = ip' @ identity_suffix p'"
  shows "ip = ip' \<and> identity_suffix p = identity_suffix p'"
proof -
  have take: "takeWhile (\<lambda>c. c \<notin> {CHR ''g'', CHR ''b''}) (ip @ identity_suffix p) = ip"
    if "\<forall>c\<in>set ip. c \<notin> {CHR ''g'', CHR ''b''}" for ip p
    using that by (auto simp: takeWhile_append identity_suffix_def split: option.splits)
  from take [OF assms(1), of p] take [OF assms(2), of p'] assms(3) show ?thesis by simp
qed

definition rate_identity :: "server \<Rightarrow> request \<Rightarrow> Principal option" where
  "rate_identity sv c = (case ResolvePrincipal sv c of Inl err \<Rightarrow> None | Inr p \<Rightarrow> Some p)"

lemma sanitize_parts:
  assumes "list_all key_char ip \<and> CHR '' '' \<notin> set ip" and "list_all key_char name \<and> CHR '' '' \<notin> set name"
    and "length ip \<le> 15" and "length name \<le> 63"
  shows "sanitizeKey (ip @ ''|bucket:'' @ name) = ip @ ''bucket'' @ name"
    and "sanitizeKey (ip @ ''|general'') = ip @ ''general''" and "sanitizeKey ip = ip"
proof -
  have f: "filter key_char ''|bucket:'' = ''bucket''" "filter key_char ''|general'' = ''general''"
    by (simp_all add: key_char_def)
  have g: "filter key_char (ip @ ''|bucket:'' @ name) = ip @ ''bucket'' @ name"
    "filter key_char (ip @ ''|general'') = ip @ ''general''" "filter key_char ip = ip"
    unfolding filter_append f filter_all [OF conjunct1 [OF assms(1)]] filter_all [OF conjunct1 [OF assms(2)]]
    by simp_all
  have s: "CHR '' '' \<notin> set (ip @ ''|bucket:'' @ name)" "CHR '' '' \<notin> set (ip @ ''|general'')"
    using assms(1,2) by simp_all
  show "sanitizeKey (ip @ ''|bucket:'' @ name) = ip @ ''bucket'' @ name"
    using sanitize_filter [OF s(1)] assms(3,4) unfolding g by simp
  show "sanitizeKey (ip @ ''|general'') = ip @ ''general''"
    using sanitize_filter [OF s(2)] assms(3) unfolding g by simp
  show "sanitizeKey ip = ip"
    using sanitize_filter [of ip] assms(1,3) unfolding g by simp
qed

lemma sanitized_key:
  assumes "dotted (ClientIP c)" and "\<forall>name\<in>dom (sv_tokens sv). namePattern name"
  shows "sanitizeKey (RateLimitKey sv c) = ClientIP c @ identity_suffix (rate_identity sv c)"
proof -
  have ip: "list_all key_char (ClientIP c) \<and> CHR '' '' \<notin> set (ClientIP c)" and len: "length (ClientIP c) \<le> 15"
    using dotted_chars [OF assms(1)] assms(1) by (simp_all add: dotted_def)
  have nil: "list_all key_char [] \<and> CHR '' '' \<notin> set []" by simp
  show ?thesis
  proof (cases rule: ResolvePrincipal_cases [of sv c])
    case general
    then show ?thesis using sanitize_parts(2) [OF ip nil len]
      by (simp add: RateLimitKey_def Let_def identity_suffix_def rate_identity_def)
  next
    case (scoped name)
    from assms(2) presents_scoped_token [OF scoped(2)] have name: "namePattern name" by blast
    then have "\<forall>d\<in>set name. name_char d \<or> d = CHR ''-''" by (simp add: namePattern_iff)
    then have "list_all key_char name"
      unfolding list_all_iff using key_char_name key_char_consts(4) by metis
    moreover have "CHR '' '' \<notin> set name"
    proof
      assume "CHR '' '' \<in> set name"
      from namePattern_printable [OF name this] show False by (simp add: printable_def)
    qed
    moreover have "length name \<le> 63" using name by (simp add: namePattern_iff)
    ultimately show ?thesis using sanitize_parts(1) [OF ip _ len] scoped
      by (simp add: RateLimitKey_def Let_def identity_suffix_def rate_identity_def)
  next
    case (refused err)
    then show ?thesis using sanitize_parts(3) [OF ip nil len]
      by (simp add: RateLimitKey_def Let_def identity_suffix_def rate_identity_def)
  qed
qed

lemma rate_identity_general: "rate_identity sv c = Some p \<Longrightarrow> \<not> pr_Scoped p \<Longrightarrow> p = general_principal"
  by (cases rule: ResolvePrincipal_cases [of sv c]) (auto simp: rate_identity_def)

lemma identity_suffix_inject:
  assumes "identity_suffix (rate_identity sv c) = identity_suffix (rate_identity sv' c')"
  shows "rate_identity sv c = rate_identity sv' c'"
  using assms rate_identity_general [of sv c] rate_identity_general [of sv' c']
  by (cases "rate_identity sv c"; cases "rate_identity sv' c'")
    (auto simp: identity_suffix_def split: if_splits)

lemma counters_separate:
  assumes "dotted (ClientIP c)" and "dotted (ClientIP c')"
    and "\<forall>name\<in>dom (sv_tokens sv). namePattern name" and "\<forall>name\<in>dom (sv_tokens sv'). namePattern name"
    and "sanitizeKey (RateLimitKey sv c) = sanitizeKey (RateLimitKey sv' c')"
  shows "ClientIP c = ClientIP c' \<and> rate_identity sv c = rate_identity sv' c'"
  using assms(5) append_digits_inject dotted_chars [OF assms(1)] dotted_chars [OF assms(2)] identity_suffix_inject
  unfolding sanitized_key [OF assms(1,3)] sanitized_key [OF assms(2,4)] by metis

text \<open>
  Under IPv4 every caller has a counter of its own.  The key that reaches Redis has
  lost its separators, but for dotted addresses and valid bucket names two requests still
  share a counter exactly when they come from the same address with the same verified identity.
\<close>

theorem ipv4_counters_separate:
  assumes "dotted (ClientIP c)" and "dotted (ClientIP c')" and "\<forall>name\<in>dom (sv_tokens sv). namePattern name"
  shows "sanitizeKey (RateLimitKey sv c) = sanitizeKey (RateLimitKey sv c') \<longleftrightarrow>
           ClientIP c = ClientIP c' \<and> rate_identity sv c = rate_identity sv c'"
  using counters_separate [OF assms(1,2,3,3)] sanitized_key [OF assms(1,3)] sanitized_key [OF assms(2,3)] by auto

theorem ipv4_counters_separate_witness:
  "sanitizeKey (RateLimitKey demo_server (demo_request\<lparr>rq_CFConnectingIP := ''10.0.0.1''\<rparr>)) \<noteq>
   sanitizeKey (RateLimitKey demo_server (demo_request\<lparr>rq_CFConnectingIP := ''10.0.0.2''\<rparr>))"
proof -
  let ?a = "demo_request\<lparr>rq_CFConnectingIP := ''10.0.0.1''\<rparr>" and ?b = "demo_request\<lparr>rq_CFConnectingIP := ''10.0.0.2''\<rparr>"
  have ip: "ClientIP ?a = ''10.0.0.1''" "ClientIP ?b = ''10.0.0.2''"
    by (simp_all add: ClientIP_def gostr printable_def)
  then have "dotted (ClientIP ?a)" "dotted (ClientIP ?b)" by (simp_all add: dotted_def is_digit_def)
  moreover have "\<forall>name\<in>dom (sv_tokens demo_server). namePattern name"
    by (simp add: demo_server_def namePattern_def name_char_def)
  ultimately show ?thesis using ipv4_counters_separate [of ?a ?b demo_server] ip by simp
qed

text \<open>
  Under IPv6 they do not: the colons of the address are removed, so two clients whose
  addresses group their digits differently count against the same limit.
\<close>

theorem ipv6_counters_shared:
  "\<exists>c c'. ClientIP c = ''2001:db8::1:2'' \<and> ClientIP c' = ''2001:db8::12'' \<and>
     sanitizeKey (RateLimitKey demo_server c) = sanitizeKey (RateLimitKey demo_server c')"
proof -
  let ?r = "\<lambda>ip. \<lparr> rq_Authorization = '''', rq_CFConnectingIP = ip, rq_PeerIP = '''', rq_QueryToken = '''', rq_Principal = None \<rparr>"
  have "RateLimitKey demo_server (?r ip) = ClientIP (?r ip)" for ip
    by (simp add: RateLimitKey_def ResolvePrincipal_def BearerToken_def Let_def)
  moreover have "ClientIP (?r ''2001:db8::1:2'') = ''2001:db8::1:2''" "ClientIP (?r ''2001:db8::12'') = ''2001:db8::12''"
    by (simp_all add: ClientIP_def gostr printable_def)
  moreover have "sanitizeKey ''2001:db8::1:2'' = sanitizeKey ''2001:db8::12''"
    by (simp add: sanitizeKey_def key_char_def)
  ultimately show ?thesis by (intro exI [of _ "?r ''2001:db8::1:2''"] exI [of _ "?r ''2001:db8::12''"]) simp
qed

end
