(* ===== verification/Circuit_Breaker.thy ===== *)
theory Circuit_Breaker
  imports Env_Config "HOL-Library.Sublist"
begin

text \<open>
  \<open>pkg/circuitbreaker/circuit_breaker.go\<close>.  Every method runs under the breaker's mutex, so it is
  one step; calls overlap only between \<open>beforeExecute\<close>, the report of the result and
  \<open>afterExecute\<close>, which \<open>breaker_step\<close> interleaves.  The clock is an argument of the
  methods that read it (nanoseconds); the metrics and the log lines are left out.
\<close>

section \<open>State\<close>

datatype State = StateClosed | StateOpen | StateHalfOpen

text \<open>The constants are numbered from zero; the order of states is the order of their numbers.\<close>

fun state_number :: "State \<Rightarrow> nat" where
  "state_number StateClosed = 0"
| "state_number StateOpen = 1"
| "state_number StateHalfOpen = 2"

lemma state_number_inject: "state_number s = state_number t \<longleftrightarrow> s = t"
  by (cases s; cases t) simp_all

instantiation State :: linorder
begin

definition less_eq_State :: "State \<Rightarrow> State \<Rightarrow> bool" where
  "less_eq_State s t \<longleftrightarrow> state_number s \<le> state_number t"

definition less_State :: "State \<Rightarrow> State \<Rightarrow> bool" where
  "less_State s t \<longleftrightarrow> state_number s < state_number t"

instance
  by standard (auto simp: less_eq_State_def less_State_def state_number_inject)

end

fun stateToString :: "State \<Rightarrow> string" where
  "stateToString StateClosed = ''closed''"
| "stateToString StateOpen = ''open''"
| "stateToString StateHalfOpen = ''half-open''"

datatype breaker_error = ErrCircuitBreakerOpen | ErrTooManyRequests

record CircuitBreaker =
  cb_state :: State
  cb_failureThreshold :: int
  cb_successThreshold :: int
  cb_timeout :: int
  cb_failureCount :: int
  cb_successCount :: int
  cb_lastStateChangeTime :: int
  cb_maxConcurrentRequests :: int
  cb_activeRequests :: int

definition NewCircuitBreaker :: "int \<Rightarrow> int \<Rightarrow> int \<Rightarrow> int \<Rightarrow> int \<Rightarrow> CircuitBreaker" where
  "NewCircuitBreaker failureThreshold successThreshold timeout maxConcurrentRequests now =
     \<lparr> cb_state = StateClosed, cb_failureThreshold = failureThreshold, cb_successThreshold = successThreshold,
       cb_timeout = timeout, cb_failureCount = 0, cb_successCount = 0, cb_lastStateChangeTime = now,
       cb_maxConcurrentRequests = maxConcurrentRequests, cb_activeRequests = 0 \<rparr>"

section \<open>Methods\<close>

definition setState :: "State \<Rightarrow> int \<Rightarrow> CircuitBreaker \<Rightarrow> CircuitBreaker" where
  "setState state now cb =
     cb\<lparr>cb_state := state, cb_lastStateChangeTime := now, cb_failureCount := 0, cb_successCount := 0\<rparr>"

definition admit_call :: "CircuitBreaker \<Rightarrow> breaker_error option \<times> CircuitBreaker" where
  "admit_call cb =
     (if cb_maxConcurrentRequests cb \<le> cb_activeRequests cb then (Some ErrTooManyRequests, cb)
      else (None, cb\<lparr>cb_activeRequests := cb_activeRequests cb + 1\<rparr>))"

definition beforeExecute :: "int \<Rightarrow> CircuitBreaker \<Rightarrow> breaker_error option \<times> CircuitBreaker" where
  "beforeExecute now cb =
     (case cb_state cb of
        StateOpen \<Rightarrow>
          (if cb_timeout cb \<le> time_sub now (cb_lastStateChangeTime cb)
           then admit_call (setState StateHalfOpen now cb)
           else (Some ErrCircuitBreakerOpen, cb))
      | StateHalfOpen \<Rightarrow>
          (if cb_maxConcurrentRequests cb \<le> cb_activeRequests cb then (Some ErrTooManyRequests, cb)
           else admit_call cb)
      | StateClosed \<Rightarrow> admit_call cb)"

definition afterExecute :: "CircuitBreaker \<Rightarrow> CircuitBreaker" where
  "afterExecute cb = cb\<lparr>cb_activeRequests := cb_activeRequests cb - 1\<rparr>"

definition onSuccess :: "int \<Rightarrow> CircuitBreaker \<Rightarrow> CircuitBreaker" where
  "onSuccess now cb =
     (case cb_state cb of
        StateClosed \<Rightarrow> cb\<lparr>cb_failureCount := 0\<rparr>
      | StateHalfOpen \<Rightarrow>
          (let cb = cb\<lparr>cb_successCount := cb_successCount cb + 1\<rparr> in
           if cb_successThreshold cb \<le> cb_successCount cb then setState StateClosed now cb else cb)
      | StateOpen \<Rightarrow> cb)"

definition onFailure :: "int \<Rightarrow> CircuitBreaker \<Rightarrow> CircuitBreaker" where
  "onFailure now cb =
     (case cb_state cb of
        StateClosed \<Rightarrow>
          (let cb = cb\<lparr>cb_failureCount := cb_failureCount cb + 1\<rparr> in
           if cb_failureThreshold cb \<le> cb_failureCount cb then setState StateOpen now cb else cb)
      | StateHalfOpen \<Rightarrow> setState StateOpen now cb
      | StateOpen \<Rightarrow> cb)"

definition handleResult :: "bool \<Rightarrow> int \<Rightarrow> CircuitBreaker \<Rightarrow> CircuitBreaker" where
  "handleResult failed now cb = (if failed then onFailure now cb else onSuccess now cb)"

text \<open>\<open>Execute\<close> when no other call overlaps: the function returns an error or not.\<close>

definition Execute ::
  "('w \<Rightarrow> gerror option \<times> 'w) \<Rightarrow> int \<Rightarrow> int \<Rightarrow> CircuitBreaker \<Rightarrow> 'w \<Rightarrow>
     (breaker_error + gerror option) \<times> CircuitBreaker \<times> 'w" where
  "Execute fn start finish cb w =
     (case beforeExecute start cb of
        (Some err, cb1) \<Rightarrow> (Inl err, cb1, w)
      | (None, cb1) \<Rightarrow>
          (case fn w of (err, w1) \<Rightarrow>
             (Inr err, afterExecute (handleResult (err \<noteq> None) finish cb1), w1)))"

section \<open>Overlapping calls\<close>

text \<open>
  \<open>br_running\<close> calls are inside the protected function, \<open>br_leaving\<close> ones have reported
  (or panicked) and still hold their slot.  The clock never goes back.
\<close>

record breaker_run =
  br_cb :: CircuitBreaker
  br_running :: nat
  br_leaving :: nat
  br_now :: int

inductive breaker_step :: "breaker_run \<Rightarrow> breaker_run \<Rightarrow> bool" where
  enter: "br_now s \<le> now \<Longrightarrow> beforeExecute now (br_cb s) = (None, cb') \<Longrightarrow>
    breaker_step s (s\<lparr>br_cb := cb', br_running := Suc (br_running s), br_now := now\<rparr>)"
| reject: "br_now s \<le> now \<Longrightarrow> beforeExecute now (br_cb s) = (Some err, cb') \<Longrightarrow>
    breaker_step s (s\<lparr>br_cb := cb', br_now := now\<rparr>)"
| report: "br_now s \<le> now \<Longrightarrow> br_running s = Suc n \<Longrightarrow>
    breaker_step s (s\<lparr>br_cb := handleResult failed now (br_cb s), br_running := n,
                       br_leaving := Suc (br_leaving s), br_now := now\<rparr>)"
| panic: "br_running s = Suc n \<Longrightarrow>
    breaker_step s (s\<lparr>br_running := n, br_leaving := Suc (br_leaving s)\<rparr>)"
| leave: "br_leaving s = Suc n \<Longrightarrow>
    breaker_step s (s\<lparr>br_cb := afterExecute (br_cb s), br_leaving := n\<rparr>)"

inductive_cases breaker_stepE: "breaker_step s s'"

definition breaker_start :: "int \<Rightarrow> int \<Rightarrow> int \<Rightarrow> int \<Rightarrow> int \<Rightarrow> breaker_run" where
  "breaker_start failureThreshold successThreshold timeout maxConcurrent now =
     \<lparr> br_cb = NewCircuitBreaker failureThreshold successThreshold timeout maxConcurrent now,
       br_running = 0, br_leaving = 0, br_now = now \<rparr>"

section \<open>Invariant\<close>

definition counters_ok :: "CircuitBreaker \<Rightarrow> bool" where
  "counters_ok cb \<longleftrightarrow>
     (case cb_state cb of
        StateClosed \<Rightarrow> 0 \<le> cb_failureCount cb \<and> cb_failureCount cb < max 1 (cb_failureThreshold cb) \<and> cb_successCount cb = 0
      | StateOpen \<Rightarrow> cb_failureCount cb = 0 \<and> cb_successCount cb = 0
      | StateHalfOpen \<Rightarrow> cb_failureCount cb = 0 \<and> 0 \<le> cb_successCount cb \<and>
                          cb_successCount cb < max 1 (cb_successThreshold cb))"

definition breaker_inv :: "breaker_run \<Rightarrow> bool" where
  "breaker_inv s \<longleftrightarrow>
     counters_ok (br_cb s) \<and> cb_activeRequests (br_cb s) = int (br_running s + br_leaving s) \<and>
     cb_activeRequests (br_cb s) \<le> max 0 (cb_maxConcurrentRequests (br_cb s)) \<and>
     cb_lastStateChangeTime (br_cb s) \<le> br_now s"

lemmas breaker_defs = beforeExecute_def admit_call_def setState_def afterExecute_def handleResult_def
  onSuccess_def onFailure_def Let_def

lemma handleResult_ok: "counters_ok cb \<Longrightarrow> counters_ok (handleResult failed now cb)"
  by (auto simp: counters_ok_def breaker_defs split: State.splits if_splits)

lemma handleResult_frame:
  "cb_activeRequests (handleResult failed now cb) = cb_activeRequests cb"
  "cb_maxConcurrentRequests (handleResult failed now cb) = cb_maxConcurrentRequests cb"
  "cb_lastStateChangeTime cb \<le> now \<Longrightarrow> cb_lastStateChangeTime (handleResult failed now cb) \<le> now"
  by (auto simp: breaker_defs split: State.splits if_splits)

lemma beforeExecute_ok: "beforeExecute now cb = (r, cb') \<Longrightarrow> counters_ok cb \<Longrightarrow> counters_ok cb'"
  by (auto simp: counters_ok_def breaker_defs split: State.splits if_splits)

lemma beforeExecute_frame:
  assumes "beforeExecute now cb = (r, cb')"
  shows "cb_activeRequests cb' = cb_activeRequests cb + (if r = None then 1 else 0)"
    and "r = None \<Longrightarrow> cb_activeRequests cb < cb_maxConcurrentRequests cb"
    and "cb_maxConcurrentRequests cb' = cb_maxConcurrentRequests cb"
    and "cb_lastStateChangeTime cb \<le> now \<Longrightarrow> cb_lastStateChangeTime cb' \<le> now"
  using assms by (auto simp: breaker_defs split: State.splits if_splits)

lemma breaker_step_inv:
  assumes "breaker_step s s'" and "breaker_inv s"
  shows "breaker_inv s'"
  using assms(1)
proof cases
  case (enter now cb')
  with assms(2) beforeExecute_frame [OF enter(3)] beforeExecute_ok [OF enter(3)] show ?thesis
    by (auto simp: breaker_inv_def)
next
  case (reject now err cb')
  with assms(2) beforeExecute_frame [OF reject(3)] beforeExecute_ok [OF reject(3)] show ?thesis
    by (auto simp: breaker_inv_def)
next
  case (report now n failed)
  with assms(2) show ?thesis
    by (auto simp: breaker_inv_def handleResult_ok handleResult_frame)
next
  case (panic n)
  with assms(2) show ?thesis by (auto simp: breaker_inv_def)
next
  case (leave n)
  with assms(2) show ?thesis
    by (auto simp: breaker_inv_def counters_ok_def afterExecute_def split: State.splits)
qed

lemma breaker_start_inv: "breaker_inv (breaker_start f s t m now)"
  by (simp add: breaker_inv_def breaker_start_def NewCircuitBreaker_def counters_ok_def)

lemma breaker_reachable_inv: "breaker_step\<^sup>*\<^sup>* (breaker_start f s t m now) r \<Longrightarrow> breaker_inv r"
  by (induction rule: rtranclp_induct) (auto intro: breaker_step_inv breaker_start_inv)

section \<open>When it opens\<close>

definition feed :: "int \<Rightarrow> bool list \<Rightarrow> CircuitBreaker \<Rightarrow> CircuitBreaker" where
  "feed now results cb = foldl (\<lambda>cb failed. handleResult failed now cb) cb results"

lemma feed_simps [simp]:
  "feed now [] cb = cb" "feed now (r # rs) cb = feed now rs (handleResult r now cb)"
  by (simp_all add: feed_def)

lemma feed_open: "cb_state cb = StateOpen \<Longrightarrow> feed now rs cb = cb"
  by (induction rs arbitrary: cb) (auto simp: breaker_defs)

lemma sublist_replicate_break:
  assumes "k < f"
  shows "sublist (replicate f True) (replicate k True @ False # rs) \<longleftrightarrow> sublist (replicate f True) rs"
proof
  assume "sublist (replicate f True) (replicate k True @ False # rs)"
  then obtain ps ss where eq: "replicate k True @ False # rs = ps @ replicate f True @ ss"
    by (auto simp: sublist_def)
  have "\<exists>ps'. ps = replicate k True @ False # ps'"
  proof -
    have "k < length ps"
    proof (rule ccontr)
      assume "\<not> k < length ps"
      then have "(ps @ replicate f True @ ss) ! k = True"
        using assms by (simp add: nth_append less_imp_diff_less)
      moreover have "(replicate k True @ False # rs) ! k = False" by (simp add: nth_append)
      ultimately show False using eq by simp
    qed
    then have "take (Suc k) ps = take (Suc k) (replicate k True @ False # rs)" unfolding eq by simp
    then have "take (Suc k) ps = replicate k True @ [False]" by simp
    then show ?thesis by (metis append_take_drop_id append_Cons append_Nil append_assoc)
  qed
  with eq have "rs = (drop (Suc k) ps) @ replicate f True @ ss" by auto
  then show "sublist (replicate f True) rs" unfolding sublist_def by blast
next
  assume "sublist (replicate f True) rs"
  then obtain ps ss where "rs = ps @ replicate f True @ ss" by (auto simp: sublist_def)
  then have "replicate k True @ False # rs = (replicate k True @ False # ps) @ replicate f True @ ss" by simp
  then show "sublist (replicate f True) (replicate k True @ False # rs)" unfolding sublist_def by blast
qed

lemma feed_closed:
  assumes "cb_state cb = StateClosed" and "cb_failureCount cb = int k" and "k < f" and "cb_failureThreshold cb = int f"
  shows "cb_state (feed now rs cb) = (if sublist (replicate f True) (replicate k True @ rs) then StateOpen else StateClosed)"
  using assms
proof (induction rs arbitrary: cb k)
  case Nil
  have "\<not> sublist (replicate f True) (replicate k True)"
    using sublist_length_le [of "replicate f True" "replicate k True"] Nil.prems(3) by auto
  with Nil show ?case by simp
next
  case (Cons r rs)
  show ?case
  proof (cases r)
    case False
    then have "cb_state (feed now rs (handleResult r now cb)) =
        (if sublist (replicate f True) (replicate 0 True @ rs) then StateOpen else StateClosed)"
      using Cons.prems by (intro Cons.IH) (auto simp: breaker_defs)
    with False sublist_replicate_break [OF Cons.prems(3), of rs] show ?thesis by simp
  next
    case True
    have shift: "replicate k True @ True # rs = replicate (Suc k) True @ rs" by (induction k) auto
    show ?thesis
    proof (cases "Suc k < f")
      case less: True
      then have "cb_state (feed now rs (handleResult r now cb)) =
          (if sublist (replicate f True) (replicate (Suc k) True @ rs) then StateOpen else StateClosed)"
        using Cons.prems True by (intro Cons.IH) (auto simp: breaker_defs)
      with True show ?thesis by (simp add: shift)
    next
      case False
      with Cons.prems(3) have f: "f = Suc k" by simp
      have "cb_state (handleResult r now cb) = StateOpen"
        using Cons.prems True f by (simp add: breaker_defs)
      then have "cb_state (feed now (r # rs) cb) = StateOpen" using feed_open by simp
      moreover have "sublist (replicate f True) (replicate k True @ r # rs)"
      proof -
        have "replicate k True @ r # rs = [] @ replicate f True @ rs" using True shift f by simp
        then show ?thesis unfolding sublist_def by blast
      qed
      ultimately show ?thesis by simp
    qed
  qed
qed

section \<open>Properties\<close>

text \<open>
  Property C19.  Under any interleaving of overlapping calls, panics included, the breaker never has
  more calls in flight than its maximum, knows exactly how many there are, and its counters
  stay below the thresholds that would have changed its state.
\<close>

theorem breaker_bounds_concurrency:
  assumes "breaker_step\<^sup>*\<^sup>* (breaker_start failureThreshold successThreshold timeout maxConcurrent now) s"
  shows "cb_activeRequests (br_cb s) = int (br_running s + br_leaving s) \<and>
         cb_activeRequests (br_cb s) \<le> max 0 (cb_maxConcurrentRequests (br_cb s)) \<and> counters_ok (br_cb s)"
  using breaker_reachable_inv [OF assms] by (simp add: breaker_inv_def)

theorem breaker_bounds_concurrency_witness:
  "\<exists>s. breaker_step\<^sup>*\<^sup>* (breaker_start 3 2 10 1 0) s \<and> br_running s = 1 \<and> cb_activeRequests (br_cb s) = 1"
proof -
  let ?s = "breaker_start 3 2 10 1 0"
  let ?cb = "(br_cb ?s)\<lparr>cb_activeRequests := 1\<rparr>"
  have "breaker_step ?s (?s\<lparr>br_cb := ?cb, br_running := Suc (br_running ?s), br_now := 0\<rparr>)"
    by (rule enter) (simp_all add: breaker_start_def NewCircuitBreaker_def breaker_defs)
  then have r: "breaker_step\<^sup>*\<^sup>* ?s (?s\<lparr>br_cb := ?cb, br_running := Suc (br_running ?s), br_now := 0\<rparr>)"
    by (rule r_into_rtranclp)
  from breaker_bounds_concurrency [OF r] r show ?thesis
    by (intro exI conjI) (auto simp: breaker_start_def)
qed

text \<open>
  A closed breaker opens exactly on consecutive failures: fed any sequence of results,
  it is open afterwards if and only if somewhere in the sequence as many failures as the
  threshold came in a row; successes in between start the count again.
\<close>

theorem opens_on_consecutive_failures:
  assumes "0 < f" and "cb = NewCircuitBreaker (int f) successThreshold timeout maxConcurrent start"
  shows "cb_state (feed now results cb) = (if sublist (replicate f True) results then StateOpen else StateClosed)"
  using feed_closed [of cb 0 f now results] assms by (simp add: NewCircuitBreaker_def)

theorem opens_on_consecutive_failures_witness:
  "cb_state (feed 5 [True, False, True, True, False] (NewCircuitBreaker (int 2) 1 10 4 0)) = StateOpen"
proof -
  have "sublist (replicate 2 True) [True, False, True, True, False]"
    unfolding sublist_def by (intro exI [of _ "[True, False]"] exI [of _ "[False]"]) (simp add: numeral_2_eq_2)
  with opens_on_consecutive_failures [of 2 "NewCircuitBreaker (int 2) 1 10 4 0", OF _ refl, of 5]
  show ?thesis by (simp del: feed_simps)
qed

text \<open>
  An open breaker shields the service: until the timeout has passed since it opened, a
  call returns at once without running the function; from then on, with a free slot, it is
  let through as a trial, and its failure opens the breaker again for another full timeout.
\<close>

theorem open_breaker_shields:
  assumes "cb_state cb = StateOpen" and "fn w = (res, w')"
  shows "(time_sub start (cb_lastStateChangeTime cb) < cb_timeout cb \<longrightarrow>
            Execute fn start finish cb w = (Inl ErrCircuitBreakerOpen, cb, w)) \<and>
         (cb_timeout cb \<le> time_sub start (cb_lastStateChangeTime cb) \<and>
          cb_activeRequests cb < cb_maxConcurrentRequests cb \<longrightarrow>
            (\<exists>cb'. Execute fn start finish cb w = (Inr res, cb', w') \<and>
               cb_activeRequests cb' = cb_activeRequests cb \<and>
               (res \<noteq> None \<longrightarrow> cb_state cb' = StateOpen \<and> cb_lastStateChangeTime cb' = finish) \<and>
               (res = None \<longrightarrow> cb_state cb' = (if cb_successThreshold cb \<le> 1 then StateClosed else StateHalfOpen))))"
  using assms by (simp add: Execute_def breaker_defs)

theorem open_breaker_shields_witness:
  "Execute (\<lambda>w. (None, Suc w)) 5 6 ((NewCircuitBreaker 1 1 10 4 0)\<lparr>cb_state := StateOpen\<rparr>) 7 =
     (Inl ErrCircuitBreakerOpen, (NewCircuitBreaker 1 1 10 4 0)\<lparr>cb_state := StateOpen\<rparr>, 7)"
  using open_breaker_shields [of "(NewCircuitBreaker 1 1 10 4 0)\<lparr>cb_state := StateOpen\<rparr>" "\<lambda>w. (None, Suc w)" 7 None 8 5 6]
  by (simp add: NewCircuitBreaker_def time_sub_def)

end
