(* ===== verification/Worker_Pool.thy ===== *)
theory Worker_Pool
  imports Env_Config "HOL-Library.Multiset"
begin

text \<open>
  \<open>pkg/worker/pool.go\<close>: a bounded queue in front of a fixed set of workers, each job retried a
  bounded number of times.  A task acts on the outside world \<open>'w\<close> and always returns.

  \<open>pool_step\<close> interleaves the callers, the workers and \<open>Stop\<close>.  A caller's \<open>Submit\<close> is two
  steps, one per select, so that the cancellation can come in between; a select with several
  ready cases takes any of them; a worker that has a result waits until somebody can receive it
  or the pool is told to stop.  Clocks are not modelled: the sleep between attempts takes any
  time, and the 30 s of \<open>Stop\<close> may run out at any moment after it was called.  The metrics and
  the log are left out here (\<open>Metrics\<close> has the former).
\<close>

section \<open>Configuration and jobs\<close>

record pool_config =
  pc_Workers :: int
  pc_QueueSize :: int
  pc_MaxRetries :: int
  pc_RetryDelay :: duration

definition DefaultPoolConfig :: "env \<Rightarrow> pool_config" where
  "DefaultPoolConfig env =
     \<lparr> pc_Workers = GetEnvAsIntOrDefault env ''WORKER_POOL_SIZE'' 5,
       pc_QueueSize = GetEnvAsIntOrDefault env ''WORKER_QUEUE_SIZE'' 10,
       pc_MaxRetries = GetEnvAsIntOrDefault env ''WORKER_MAX_RETRIES'' 3,
       pc_RetryDelay = word_of_int (GetEnvAsIntOrDefault env ''WORKER_RETRY_DELAY_MS'' 1000) * millisecond \<rparr>"

type_synonym 'w task = "'w \<Rightarrow> gerror option \<times> 'w"

record 'w job =
  jb_ID :: string
  jb_Task :: "'w task"

section \<open>Running one job\<close>

text \<open>
  The loop \<open>for retries <= maxRetries\<close>, started with no error: the last error, how often the
  task was called, and the world afterwards.
\<close>

function run_task ::
  "'w task \<Rightarrow> int \<Rightarrow> int \<Rightarrow> gerror option \<Rightarrow> nat \<Rightarrow> 'w \<Rightarrow> gerror option \<times> nat \<times> 'w" where
  "run_task task maxRetries retries err calls w =
     (if retries \<le> maxRetries then
        (case task w of
           (None, w') \<Rightarrow> (None, Suc calls, w')
         | (Some e, w') \<Rightarrow> run_task task maxRetries (retries + 1) (Some e) (Suc calls) w')
      else (err, calls, w))"
  by pat_completeness auto
termination
  by (relation "measure (\<lambda>(task, maxRetries, retries, err, calls, w). nat (maxRetries + 1 - retries))") auto

declare run_task.simps [simp del]

definition runJob :: "'w job \<Rightarrow> int \<Rightarrow> 'w \<Rightarrow> gerror option \<times> nat \<times> 'w" where
  "runJob job maxRetries w = run_task (jb_Task job) maxRetries 0 None 0 w"

section \<open>The pool\<close>

text \<open>
  Where a worker is in its loop: at the select, before the attempt number \<open>retries\<close> of a job
  with the error of the last one, at the select that hands over the result (\<open>ready\<close> says
  whether the response channel can take it: a receiver waits or it has a free slot), or gone.
\<close>

datatype 'w pool_worker =
    is_Waiting: Waiting
  | Working "'w job" int "gerror option"
  | Responding "'w job" "gerror option" bool
  | Exited

datatype stopping = Not_Called | Stop_Waits | Stopped_Gracefully | Stop_Timed_Out

text \<open>
  \<open>pl_submitting\<close> holds the jobs of the callers between the two selects of \<open>Submit\<close>;
  \<open>pl_accepted\<close>, \<open>pl_started\<close> and \<open>pl_done\<close> record what happened to the jobs, in order; a done
  job carries its error and whether the response was handed over or given up on shutdown.
\<close>

record 'w pool =
  pl_queue :: "'w job list"
  pl_capacity :: nat
  pl_workers :: "'w pool_worker list"
  pl_cancelled :: bool
  pl_stop :: stopping
  pl_maxRetries :: int
  pl_submitting :: "'w job multiset"
  pl_accepted :: "'w job list"
  pl_started :: "'w job list"
  pl_done :: "('w job \<times> gerror option \<times> bool) list"
  pl_world :: 'w

text \<open>\<open>make(chan Job, n)\<close> panics for a negative \<open>n\<close>: \<open>NewPool\<close> is then \<open>None\<close>.\<close>

definition NewPool :: "pool_config \<Rightarrow> 'w \<Rightarrow> 'w pool option" where
  "NewPool cfg w =
     (if pc_QueueSize cfg < 0 then None
      else Some \<lparr> pl_queue = [], pl_capacity = nat (pc_QueueSize cfg), pl_workers = [], pl_cancelled = False,
        pl_stop = Not_Called, pl_maxRetries = pc_MaxRetries cfg, pl_submitting = {#}, pl_accepted = [],
        pl_started = [], pl_done = [], pl_world = w \<rparr>)"

definition StartPool :: "pool_config \<Rightarrow> 'w pool \<Rightarrow> 'w pool" where
  "StartPool cfg p = p\<lparr>pl_workers := pl_workers p @ replicate (nat (pc_Workers cfg)) Waiting\<rparr>"

text \<open>
  Can a job be sent?  There is a free slot, or the channel has none at all and a worker waits at
  its end; the queue then holds the job until a waiting worker has it, and no worker leaves
  before that.
\<close>

definition room :: "'w pool \<Rightarrow> bool" where
  "room p \<longleftrightarrow>
     length (pl_queue p) < pl_capacity p \<or>
     pl_capacity p = 0 \<and> pl_queue p = [] \<and> list_ex is_Waiting (pl_workers p)"

definition handing_over :: "'w pool \<Rightarrow> bool" where
  "handing_over p \<longleftrightarrow> pl_capacity p = 0 \<and> pl_queue p \<noteq> []"

text \<open>\<open>Submit\<close> for a caller that nobody interrupts between the two selects.\<close>

definition Submit :: "'w job \<Rightarrow> 'w pool \<Rightarrow> gerror option \<times> 'w pool" where
  "Submit job p =
     (if pl_cancelled p then (Some (ErrorString ''worker pool is shutting down''), p)
      else if room p then
        (None, p\<lparr>pl_queue := pl_queue p @ [job], pl_accepted := pl_accepted p @ [job]\<rparr>)
      else (Some (ErrorString ''job queue is full''), p))"

text \<open>The steps, each with who takes it.\<close>

datatype actor = Caller | Stopper | Worker nat

inductive pool_step :: "actor \<Rightarrow> 'w pool \<Rightarrow> 'w pool \<Rightarrow> bool" where
  enter: "\<not> pl_cancelled p \<Longrightarrow> pool_step Caller p (p\<lparr>pl_submitting := add_mset job (pl_submitting p)\<rparr>)"
| send: "job \<in># pl_submitting p \<Longrightarrow> room p \<Longrightarrow>
    pool_step Caller p (p\<lparr>pl_queue := pl_queue p @ [job], pl_submitting := pl_submitting p - {#job#},
      pl_accepted := pl_accepted p @ [job]\<rparr>)"
| send_cancelled: "job \<in># pl_submitting p \<Longrightarrow> pl_cancelled p \<Longrightarrow>
    pool_step Caller p (p\<lparr>pl_submitting := pl_submitting p - {#job#}\<rparr>)"
| send_full: "job \<in># pl_submitting p \<Longrightarrow> \<not> room p \<Longrightarrow> \<not> pl_cancelled p \<Longrightarrow>
    pool_step Caller p (p\<lparr>pl_submitting := pl_submitting p - {#job#}\<rparr>)"
| receiver: "i < length (pl_workers p) \<Longrightarrow> pl_workers p ! i = Responding job err ready \<Longrightarrow>
    pool_step Caller p (p\<lparr>pl_workers := (pl_workers p)[i := Responding job err ready']\<rparr>)"
| stop: "pl_stop p = Not_Called \<Longrightarrow> pool_step Stopper p (p\<lparr>pl_cancelled := True, pl_stop := Stop_Waits\<rparr>)"
| stop_graceful: "pl_stop p = Stop_Waits \<Longrightarrow> list_all (\<lambda>x. x = Exited) (pl_workers p) \<Longrightarrow>
    pool_step Stopper p (p\<lparr>pl_stop := Stopped_Gracefully\<rparr>)"
| stop_timeout: "pl_stop p = Stop_Waits \<Longrightarrow> pool_step Stopper p (p\<lparr>pl_stop := Stop_Timed_Out\<rparr>)"
| take_job: "i < length (pl_workers p) \<Longrightarrow> pl_workers p ! i = Waiting \<Longrightarrow> pl_queue p = job # q \<Longrightarrow>
    pool_step (Worker i) p (p\<lparr>pl_queue := q, pl_workers := (pl_workers p)[i := Working job 0 None],
      pl_started := pl_started p @ [job]\<rparr>)"
| attempt_ok: "i < length (pl_workers p) \<Longrightarrow> pl_workers p ! i = Working job retries err \<Longrightarrow>
    retries \<le> pl_maxRetries p \<Longrightarrow> jb_Task job (pl_world p) = (None, w') \<Longrightarrow>
    pool_step (Worker i) p (p\<lparr>pl_workers := (pl_workers p)[i := Responding job None ready], pl_world := w'\<rparr>)"
| attempt_failed: "i < length (pl_workers p) \<Longrightarrow> pl_workers p ! i = Working job retries err \<Longrightarrow>
    retries \<le> pl_maxRetries p \<Longrightarrow> jb_Task job (pl_world p) = (Some e, w') \<Longrightarrow>
    pool_step (Worker i) p (p\<lparr>pl_workers := (pl_workers p)[i := Working job (retries + 1) (Some e)], pl_world := w'\<rparr>)"
| attempts_over: "i < length (pl_workers p) \<Longrightarrow> pl_workers p ! i = Working job retries err \<Longrightarrow>
    pl_maxRetries p < retries \<Longrightarrow>
    pool_step (Worker i) p (p\<lparr>pl_workers := (pl_workers p)[i := Responding job err ready]\<rparr>)"
| deliver: "i < length (pl_workers p) \<Longrightarrow> pl_workers p ! i = Responding job err True \<Longrightarrow>
    pool_step (Worker i) p (p\<lparr>pl_workers := (pl_workers p)[i := Waiting], pl_done := pl_done p @ [(job, err, True)]\<rparr>)"
| give_up: "i < length (pl_workers p) \<Longrightarrow> pl_workers p ! i = Responding job err ready \<Longrightarrow> pl_cancelled p \<Longrightarrow>
    pool_step (Worker i) p (p\<lparr>pl_workers := (pl_workers p)[i := Waiting], pl_done := pl_done p @ [(job, err, False)]\<rparr>)"
| exit: "pl_cancelled p \<Longrightarrow> \<not> handing_over p \<Longrightarrow> i < length (pl_workers p) \<Longrightarrow> pl_workers p ! i = Waiting \<Longrightarrow>
    pool_step (Worker i) p (p\<lparr>pl_workers := (pl_workers p)[i := Exited]\<rparr>)"

inductive_cases pool_stepE: "pool_step a p p'"
inductive_cases worker_stepE: "pool_step (Worker i) p p'"
inductive_cases caller_stepE: "pool_step Caller p p'"
inductive_cases stopper_stepE: "pool_step Stopper p p'"

inductive pool_run :: "'w pool \<Rightarrow> 'w pool \<Rightarrow> bool" where
  pool_none: "pool_run p p"
| pool_more: "pool_run p q \<Longrightarrow> pool_step a q r \<Longrightarrow> pool_run p r"

text \<open>The worker \<open>i\<close> alone, and the workers alone.\<close>

abbreviation worker_run :: "nat \<Rightarrow> 'w pool \<Rightarrow> 'w pool \<Rightarrow> bool" where
  "worker_run i \<equiv> (pool_step (Worker i))\<^sup>*\<^sup>*"

abbreviation workers_run :: "'w pool \<Rightarrow> 'w pool \<Rightarrow> bool" where
  "workers_run \<equiv> (\<lambda>p p'. \<exists>i. pool_step (Worker i) p p')\<^sup>*\<^sup>*"

lemma Submit_runs: "Submit job p = (err, p') \<Longrightarrow> pool_run p p'"
proof -
  assume s: "Submit job p = (err, p')"
  let ?q = "p\<lparr>pl_submitting := add_mset job (pl_submitting p)\<rparr>"
  show "pool_run p p'"
  proof (cases "pl_cancelled p")
    case True
    with s show ?thesis by (auto simp: Submit_def intro: pool_none)
  next
    case False
    with enter have in_between: "pool_run p ?q" by (blast intro: pool_none pool_more)
    show ?thesis
    proof (cases "room p")
      case True
      then have "room ?q" by (simp add: room_def)
      from pool_more [OF in_between send [OF _ this, of job]] s True False show ?thesis by (simp add: Submit_def)
    next
      case full: False
      then have "\<not> room ?q" by (simp add: room_def)
      from pool_more [OF in_between send_full [OF _ this, of job]] s full False show ?thesis by (simp add: Submit_def)
    qed
  qed
qed

section \<open>Retries\<close>

text \<open>The world before the \<open>n\<close>-th call of a task, and the result of that call.\<close>

fun world_before :: "'w task \<Rightarrow> nat \<Rightarrow> 'w \<Rightarrow> 'w" where
  "world_before task 0 w = w"
| "world_before task (Suc n) w = world_before task n (snd (task w))"

definition outcome :: "'w task \<Rightarrow> nat \<Rightarrow> 'w \<Rightarrow> gerror option" where
  "outcome task n w = fst (task (world_before task n w))"

lemma outcome_Suc: "outcome task (Suc n) w = outcome task n (snd (task w))"
  by (simp add: outcome_def)

lemma run_task_first:
  assumes "maxRetries - retries = int m"
  shows "\<exists>n\<le>m. (\<forall>i<n. outcome task i w \<noteq> None) \<and> (outcome task n w = None \<or> n = m) \<and>
           run_task task maxRetries retries err calls w =
             (outcome task n w, calls + Suc n, world_before task (Suc n) w)"
  using assms
proof (induction m arbitrary: retries err calls w)
  case 0
  obtain e w' where t: "task w = (e, w')" by fastforce
  with 0 have "run_task task maxRetries retries err calls w = (e, Suc calls, w')"
    by (cases e) (simp_all add: run_task.simps)
  with t show ?case by (auto simp: outcome_def)
next
  case (Suc m)
  obtain e w' where t: "task w = (e, w')" by fastforce
  show ?case
  proof (cases e)
    case None
    with t Suc.prems have "run_task task maxRetries retries err calls w = (None, Suc calls, w')"
      by (simp add: run_task.simps)
    with t None show ?thesis by (intro exI [of _ 0]) (auto simp: outcome_def)
  next
    case (Some x)
    from Suc.IH [of "retries + 1" w' "Some x" "Suc calls"] Suc.prems obtain n where n: "n \<le> m"
      "\<forall>i<n. outcome task i w' \<noteq> None" "outcome task n w' = None \<or> n = m"
      "run_task task maxRetries (retries + 1) (Some x) (Suc calls) w' =
         (outcome task n w', Suc calls + Suc n, world_before task (Suc n) w')" by auto
    have run: "run_task task maxRetries retries err calls w = run_task task maxRetries (retries + 1) (Some x) (Suc calls) w'"
      using t Some Suc.prems by (subst run_task.simps) simp
    have o: "outcome task (Suc i) w = outcome task i w'" for i using t by (simp add: outcome_Suc)
    have "\<forall>i<Suc n. outcome task i w \<noteq> None"
      using n(2) o t Some by (auto simp: less_Suc_eq_0_disj outcome_def)
    with n run o t show ?thesis by (intro exI [of _ "Suc n"]) auto
  qed
qed

section \<open>The pool's invariant\<close>

fun working :: "'w pool_worker \<Rightarrow> 'w job list" where
  "working (Working job retries err) = [job]"
| "working (Responding job err ready) = [job]"
| "working Waiting = []"
| "working Exited = []"

definition pool_inv :: "'w pool \<Rightarrow> bool" where
  "pool_inv p \<longleftrightarrow>
     pl_started p @ pl_queue p = pl_accepted p \<and> length (pl_queue p) \<le> max 1 (pl_capacity p) \<and>
     mset (pl_started p) = mset (concat (map working (pl_workers p))) + mset (map fst (pl_done p)) \<and>
     (\<forall>(job, err, delivered)\<in>set (pl_done p). \<not> delivered \<longrightarrow> pl_cancelled p) \<and>
     (pl_cancelled p \<longleftrightarrow> pl_stop p \<noteq> Not_Called) \<and>
     (pl_stop p = Stopped_Gracefully \<longrightarrow> list_all (\<lambda>x. x = Exited) (pl_workers p))"

lemma mset_working_update:
  "i < length ws \<Longrightarrow>
   mset (concat (map working (ws[i := x]))) + mset (working (ws ! i)) = mset (concat (map working ws)) + mset (working x)"
proof (induction ws arbitrary: i)
  case Nil
  then show ?case by simp
next
  case (Cons a ws)
  show ?case
  proof (cases i)
    case 0
    then show ?thesis by simp
  next
    case (Suc j)
    with Cons.IH [of j] Cons.prems show ?thesis by (simp add: add.assoc)
  qed
qed

text \<open>A worker that moves on while it keeps its job changes nothing of that.\<close>

lemma working_moves:
  "i < length ws \<Longrightarrow> working (ws ! i) = working x \<Longrightarrow>
   mset (concat (map working (ws[i := x]))) = mset (concat (map working ws))"
  using mset_working_update [of i ws x] by simp

lemma not_all_exited:
  "i < length ws \<Longrightarrow> ws ! i \<noteq> Exited \<Longrightarrow> \<not> list_all (\<lambda>x. x = Exited) ws"
  by (auto simp: list_all_length)

lemma pool_step_inv:
  assumes "pool_step a p p'" and "pool_inv p"
  shows "pool_inv p'"
  using assms(1)
proof cases
  case (take_job i job q)
  with assms(2) mset_working_update [of i "pl_workers p" "Working job 0 None"] not_all_exited [of i "pl_workers p"]
  show ?thesis by (auto simp: pool_inv_def)
next
  case (deliver i job err)
  with assms(2) mset_working_update [of i "pl_workers p" Waiting] not_all_exited [of i "pl_workers p"]
  show ?thesis by (auto simp: pool_inv_def)
next
  case (give_up i job err ready)
  with assms(2) mset_working_update [of i "pl_workers p" Waiting] not_all_exited [of i "pl_workers p"]
  show ?thesis by (auto simp: pool_inv_def)
next
  case (exit i)
  with assms(2) working_moves [of i "pl_workers p" Exited] not_all_exited [of i "pl_workers p"]
  show ?thesis by (auto simp: pool_inv_def)
next
  case (receiver i job err ready ready')
  with assms(2) working_moves [of i "pl_workers p" "Responding job err ready'"] not_all_exited [of i "pl_workers p"]
  show ?thesis by (auto simp: pool_inv_def)
next
  case (attempt_ok i job retries err w' ready)
  with assms(2) working_moves [of i "pl_workers p" "Responding job None ready"] not_all_exited [of i "pl_workers p"]
  show ?thesis by (auto simp: pool_inv_def)
next
  case (attempt_failed i job retries err e w')
  with assms(2) working_moves [of i "pl_workers p" "Working job (retries + 1) (Some e)"] not_all_exited [of i "pl_workers p"]
  show ?thesis by (auto simp: pool_inv_def)
next
  case (attempts_over i job retries err ready)
  with assms(2) working_moves [of i "pl_workers p" "Responding job err ready"] not_all_exited [of i "pl_workers p"]
  show ?thesis by (auto simp: pool_inv_def)
qed (use assms(2) in \<open>auto simp: pool_inv_def room_def\<close>)

lemma pool_start_inv: "NewPool cfg w = Some p0 \<Longrightarrow> pool_inv (StartPool cfg p0)"
  by (auto simp: pool_inv_def StartPool_def NewPool_def split: if_splits)

lemma pool_run_inv: "pool_run p p' \<Longrightarrow> pool_inv p \<Longrightarrow> pool_inv p'"
  by (induction rule: pool_run.induct) (auto intro: pool_step_inv)

text \<open>After the cancellation only callers already past the first select can still get a job in.\<close>

lemma pool_step_stopped:
  assumes "pool_step a p p'" and "pl_cancelled p"
  shows "pl_cancelled p' \<and>
         (\<exists>more. pl_accepted p' = pl_accepted p @ more \<and> mset more + pl_submitting p' \<subseteq># pl_submitting p)"
  using assms by (cases rule: pool_step.cases) (auto simp: insert_DiffM)

lemma pool_stopped:
  "pool_run p p' \<Longrightarrow> pl_cancelled p \<Longrightarrow>
   pl_cancelled p' \<and>
   (\<exists>more. pl_accepted p' = pl_accepted p @ more \<and> mset more + pl_submitting p' \<subseteq># pl_submitting p)"
proof (induction rule: pool_run.induct)
  case (pool_none p)
  then show ?case by auto
next
  case (pool_more p q a r)
  then obtain more where "pl_cancelled q" "pl_accepted q = pl_accepted p @ more"
      "mset more + pl_submitting q \<subseteq># pl_submitting p" by blast
  moreover from pool_step_stopped [OF pool_more.hyps(2) this(1)] obtain new where
      "pl_cancelled r" "pl_accepted r = pl_accepted q @ new" "mset new + pl_submitting r \<subseteq># pl_submitting q" by blast
  ultimately have "pl_accepted r = pl_accepted p @ (more @ new)"
      "mset (more @ new) + pl_submitting r \<subseteq># pl_submitting p"
    by (simp_all add: add.assoc) (metis subset_mset.add_left_mono subset_mset.order_trans)
  with \<open>pl_cancelled r\<close> show ?case by blast
qed

section \<open>A worker and its job\<close>

text \<open>Left to itself, a worker takes its job through exactly the loop of \<open>runJob\<close>.\<close>

lemma worker_runs_task:
  assumes "run_task (jb_Task job) maxRetries retries err calls w = (err', calls', w')"
  shows "maxRetries = pl_maxRetries p \<Longrightarrow> w = pl_world p \<Longrightarrow> i < length (pl_workers p) \<Longrightarrow>
    pl_workers p ! i = Working job retries err \<Longrightarrow>
    worker_run i p (p\<lparr>pl_workers := (pl_workers p)[i := Responding job err' ready], pl_world := w'\<rparr>)"
  using assms
proof (induction "jb_Task job" maxRetries retries err calls w arbitrary: p rule: run_task.induct)
  case (1 maxRetries retries err calls w)
  show ?case
  proof (cases "retries \<le> maxRetries")
    case False
    with "1.prems" have "err' = err" "w' = w" by (simp_all add: run_task.simps)
    with False "1.prems" attempts_over [of i p job retries err ready] show ?thesis by auto
  next
    case more: True
    obtain e w1 where t: "jb_Task job w = (e, w1)" by fastforce
    show ?thesis
    proof (cases e)
      case None
      with t more "1.prems" have "err' = None" "w' = w1" by (simp_all add: run_task.simps)
      with None t more "1.prems" attempt_ok [of i p job retries err w1 ready] show ?thesis by auto
    next
      case (Some x)
      let ?q = "p\<lparr>pl_workers := (pl_workers p)[i := Working job (retries + 1) (Some x)], pl_world := w1\<rparr>"
      from Some t more "1.prems" have step: "pool_step (Worker i) p ?q" by (auto intro: attempt_failed)
      from Some t more "1.prems"(5) have "run_task (jb_Task job) maxRetries (retries + 1) (Some x) (Suc calls) w1 = (err', calls', w')"
        by (simp add: run_task.simps [of _ _ retries])
      with "1.hyps" [OF more t [symmetric] Some, of ?q] "1.prems" have
        "worker_run i ?q (?q\<lparr>pl_workers := (pl_workers ?q)[i := Responding job err' ready], pl_world := w'\<rparr>)" by simp
      with step show ?thesis by (simp add: converse_rtranclp_into_rtranclp)
    qed
  qed
qed

section \<open>Shutting down\<close>

text \<open>
  What is left to do: a queued job is taken, tried, answered, and the worker exits.  One unit
  per step; \<open>m\<close> is the setting for the retries.
\<close>

fun worker_work :: "int \<Rightarrow> 'w pool_worker \<Rightarrow> nat" where
  "worker_work m (Working job retries err) = 3 + nat (m + 1 - retries)"
| "worker_work m (Responding job err ready) = 2"
| "worker_work m Waiting = 1"
| "worker_work m Exited = 0"

definition job_work :: "int \<Rightarrow> nat" where
  "job_work m = 3 + nat (m + 1)"

definition pool_work :: "'w pool \<Rightarrow> nat" where
  "pool_work p =
     (1 + job_work (pl_maxRetries p)) * size (pl_submitting p) + job_work (pl_maxRetries p) * length (pl_queue p) +
     sum_list (map (worker_work (pl_maxRetries p)) (pl_workers p))"

lemma work_update:
  "i < length ws \<Longrightarrow>
   sum_list (map (worker_work m) (ws[i := x])) + worker_work m (ws ! i) = sum_list (map (worker_work m) ws) + worker_work m x"
proof (induction ws arbitrary: i)
  case Nil
  then show ?case by simp
next
  case (Cons a ws)
  then show ?case by (cases i) (auto simp: add.commute add.left_commute)
qed

lemma worker_moves:
  assumes "i < length ws" and "worker_work m x < worker_work m (ws ! i)"
  shows "sum_list (map (worker_work m) (ws[i := x])) < sum_list (map (worker_work m) ws)"
  using work_update [OF assms(1), of m x] assms(2) by linarith

lemma worker_step_work: "pool_step (Worker i) p p' \<Longrightarrow> pool_work p' < pool_work p"
proof (erule worker_stepE)
  fix job q
  assume "p' = p\<lparr>pl_queue := q, pl_workers := (pl_workers p)[i := Working job 0 None], pl_started := pl_started p @ [job]\<rparr>"
    and "i < length (pl_workers p)" and "pl_workers p ! i = Waiting" and "pl_queue p = job # q"
  with work_update [of i "pl_workers p" "pl_maxRetries p" "Working job 0 None"] show ?thesis
    by (simp add: pool_work_def job_work_def)
qed (auto simp: pool_work_def intro!: worker_moves)

lemma submitting_size: "job \<in># M \<Longrightarrow> k * size M = k * size (M - {#job#}) + (k::nat)"
  by (cases "size M") (auto simp: size_Diff_singleton)

lemma stopped_caller_work: "pool_step Caller p p' \<Longrightarrow> pl_cancelled p \<Longrightarrow> pool_work p' \<le> pool_work p"
proof (erule caller_stepE)
  fix job
  assume "job \<in># pl_submitting p" and "p' = p\<lparr>pl_queue := pl_queue p @ [job], pl_submitting := pl_submitting p - {#job#},
      pl_accepted := pl_accepted p @ [job]\<rparr>"
  with submitting_size [of job "pl_submitting p" "1 + job_work (pl_maxRetries p)"] show ?thesis
    by (simp add: pool_work_def)
next
  fix i job err ready ready'
  assume "p' = p\<lparr>pl_workers := (pl_workers p)[i := Responding job err ready']\<rparr>"
    and "i < length (pl_workers p)" and "pl_workers p ! i = Responding job err ready"
  with work_update [of i "pl_workers p" "pl_maxRetries p" "Responding job err ready'"] show ?thesis
    by (simp add: pool_work_def)
qed (auto simp: pool_work_def size_Diff_singleton intro!: add_mono mult_le_mono2)

lemma stopper_work: "pool_step Stopper p p' \<Longrightarrow> pool_work p' = pool_work p"
  by (erule stopper_stepE) (simp_all add: pool_work_def)

lemma stopped_step_work: "pool_step a p p' \<Longrightarrow> pl_cancelled p \<Longrightarrow> pool_work p' \<le> pool_work p"
  by (cases a) (auto simp: stopper_work intro: stopped_caller_work less_imp_le [OF worker_step_work])

lemma worker_step_enabled:
  assumes "pl_cancelled p" and "i < length (pl_workers p)" and "pl_workers p ! i \<noteq> Exited"
  shows "\<exists>p'. pool_step (Worker i) p p'"
proof (cases "pl_workers p ! i")
  case Waiting
  show ?thesis
  proof (cases "pl_queue p")
    case Nil
    with exit [OF assms(1) _ assms(2) Waiting] show ?thesis by (auto simp: handing_over_def)
  next
    case (Cons job q)
    with take_job [OF assms(2) Waiting] show ?thesis by blast
  qed
next
  case (Working job retries err)
  obtain e w' where t: "jb_Task job (pl_world p) = (e, w')" by fastforce
  show ?thesis
  proof (cases "retries \<le> pl_maxRetries p")
    case True
    with t attempt_ok [OF assms(2) Working True] attempt_failed [OF assms(2) Working True] show ?thesis
      by (cases e) auto
  next
    case False
    with attempts_over [OF assms(2) Working] show ?thesis by force
  qed
next
  case (Responding job err ready)
  from give_up [OF assms(2) Responding assms(1)] show ?thesis by blast
next
  case Exited
  with assms(3) show ?thesis by simp
qed

lemma workers_exit:
  "pl_cancelled p \<Longrightarrow> \<exists>p'. workers_run p p' \<and> list_all (\<lambda>x. x = Exited) (pl_workers p')"
proof (induction "pool_work p" arbitrary: p rule: less_induct)
  case less
  show ?case
  proof (cases "list_all (\<lambda>x. x = Exited) (pl_workers p)")
    case True
    then show ?thesis by blast
  next
    case False
    then obtain i where "i < length (pl_workers p)" "pl_workers p ! i \<noteq> Exited" by (auto simp: list_all_length)
    with worker_step_enabled less.prems obtain q where q: "pool_step (Worker i) p q" by blast
    with pool_step_stopped [OF q less.prems] less.hyps [OF worker_step_work [OF q]] obtain r
      where "workers_run q r" "list_all (\<lambda>x. x = Exited) (pl_workers r)" by blast
    from q have "workers_run p q" by blast
    from rtranclp_trans [OF this \<open>workers_run q r\<close>] have "workers_run p r" .
    with \<open>list_all _ _\<close> show ?thesis by blast
  qed
qed

section \<open>Properties\<close>

text \<open>The loop of a job: its calls, up to the first success or the last retry.\<close>

lemma job_retries:
  "(if maxRetries < 0 then runJob job maxRetries w = (None, 0, w)
    else \<exists>n\<le>nat maxRetries. (\<forall>i<n. outcome (jb_Task job) i w \<noteq> None) \<and>
           (outcome (jb_Task job) n w = None \<or> n = nat maxRetries) \<and>
           runJob job maxRetries w = (outcome (jb_Task job) n w, Suc n, world_before (jb_Task job) (Suc n) w))"
proof (cases "maxRetries < 0")
  case True
  then show ?thesis by (simp add: runJob_def run_task.simps)
next
  case False
  with run_task_first [of maxRetries 0 "nat maxRetries" "jb_Task job" w None 0] show ?thesis
    by (auto simp: runJob_def)
qed

definition flaky_task :: "nat task" where
  "flaky_task w = (if w < 2 then Some S3NotFound else None, w + 1)"



text \<open>
  Property C14.  No job is lost or run twice.  In every reachable state, jobs have started in the order
  in which they were accepted; those not started yet wait in the queue, which never exceeds its
  capacity (over a channel without a buffer: the one job being handed to a waiting worker); every
  started job is with exactly one worker or done exactly once; a response is only ever given up
  after the pool was told to stop; and \<open>Stop\<close> calls the shutdown graceful only when every worker
  has exited.  After the pool was told to stop, the jobs of callers already between the two
  selects of \<open>Submit\<close> may still be accepted, each at most once, and no others.
\<close>

theorem pool_conserves_jobs:
  assumes "NewPool cfg w = Some p0" and "pool_run (StartPool cfg p0) p" and "pool_run p p'"
  shows "pl_started p @ pl_queue p = pl_accepted p \<and> length (pl_queue p) \<le> max 1 (pl_capacity p) \<and>
         mset (pl_started p) = mset (concat (map working (pl_workers p))) + mset (map fst (pl_done p)) \<and>
         (\<forall>(job, err, delivered)\<in>set (pl_done p). delivered \<or> pl_cancelled p) \<and>
         (pl_stop p = Stopped_Gracefully \<longrightarrow> list_all (\<lambda>x. x = Exited) (pl_workers p)) \<and>
         (pl_cancelled p \<longrightarrow>
            (\<exists>more. pl_accepted p' = pl_accepted p @ more \<and> mset more + pl_submitting p' \<subseteq># pl_submitting p))"
  using pool_run_inv [OF assms(2) pool_start_inv [OF assms(1)]] pool_stopped [OF assms(3)] by (auto simp: pool_inv_def)

text \<open>A caller is past the first select when the pool is stopped, and its job is accepted all the same.\<close>

theorem pool_conserves_jobs_witness:
  "\<exists>p0 p p'. NewPool (DefaultPoolConfig (\<lambda>_. '''')) (0::nat) = Some p0 \<and>
       pool_run (StartPool (DefaultPoolConfig (\<lambda>_. '''')) p0) p \<and> pool_run p p' \<and>
       pl_cancelled p \<and> pl_accepted p = [] \<and> length (pl_accepted p') = 1 \<and>
       mset (pl_accepted p') + pl_submitting p' \<subseteq># pl_submitting p"
proof -
  let ?cfg = "DefaultPoolConfig (\<lambda>_. '''')"
  obtain p0 where new: "NewPool ?cfg (0::nat) = Some p0" by (simp add: NewPool_def DefaultPoolConfig_def)
  let ?s = "StartPool ?cfg p0"
  let ?j = "\<lparr> jb_ID = ''j'', jb_Task = flaky_task \<rparr>"
  let ?q = "?s\<lparr>pl_submitting := add_mset ?j (pl_submitting ?s)\<rparr>"
  let ?p = "?q\<lparr>pl_cancelled := True, pl_stop := Stop_Waits\<rparr>"
  let ?p' = "?p\<lparr>pl_queue := pl_queue ?p @ [?j], pl_submitting := pl_submitting ?p - {#?j#}, pl_accepted := pl_accepted ?p @ [?j]\<rparr>"
  have fresh: "\<not> pl_cancelled ?s" "pl_stop ?s = Not_Called" "pl_queue ?s = []" "pl_capacity ?s = 10" "pl_accepted ?s = []"
    using new by (auto simp: StartPool_def NewPool_def DefaultPoolConfig_def)
  then have entered: "pool_run ?s ?q" by (blast intro: enter pool_none pool_more)
  have "pool_step Stopper ?q ?p" using fresh by (intro stop) simp
  with entered have r: "pool_run ?s ?p" by (rule pool_more)
  have "pool_step Caller ?p ?p'" using fresh by (intro send) (simp_all add: room_def)
  with pool_none have r': "pool_run ?p ?p'" by (rule pool_more)
  from pool_conserves_jobs [OF new r r'] new r r' fresh show ?thesis
    by (intro exI [of _ p0] exI [of _ ?p] exI [of _ ?p']) simp
qed

text \<open>
  Property C28.  Nothing can pin the workers once the pool was told to stop.  Whatever the callers do,
  every worker that has not exited has a step of its own to make, also one with a result that
  nobody receives; every step of a worker uses up some of a finite amount of work that no
  step of a caller or of \<open>Stop\<close> adds to.  So the workers make only finitely many more
  steps, and by these alone they reach the state in which all have exited, the one
  \<open>Stop\<close> waits for.  (How long the tasks and the pauses between attempts take is not
  modelled: whether this is within the 30 seconds of \<open>Stop\<close> depends on them.)
\<close>

theorem pool_shutdown_completes:
  assumes "pl_cancelled p"
  shows "(\<forall>a p'. pool_step a p p' \<longrightarrow> pl_cancelled p' \<and> pool_work p' \<le> pool_work p \<and>
            (\<forall>i. a = Worker i \<longrightarrow> pool_work p' < pool_work p)) \<and>
         (\<forall>i<length (pl_workers p). pl_workers p ! i \<noteq> Exited \<longrightarrow> (\<exists>p'. pool_step (Worker i) p p')) \<and>
         (\<exists>p'. workers_run p p' \<and> list_all (\<lambda>x. x = Exited) (pl_workers p'))"
  using pool_step_stopped [OF _ assms] stopped_step_work [OF _ assms] worker_step_work
    worker_step_enabled [OF assms] workers_exit [OF assms] by blast

text \<open>One worker has a result that nobody receives, one is at its job, one waits.\<close>

theorem pool_shutdown_completes_witness:
  "\<exists>p p'. pl_workers p = [Responding \<lparr> jb_ID = ''a'', jb_Task = flaky_task \<rparr> None False,
       Working \<lparr> jb_ID = ''b'', jb_Task = flaky_task \<rparr> 0 None, Waiting] \<and>
     workers_run p p' \<and> list_all (\<lambda>x. x = Exited) (pl_workers p')"
proof -
  let ?p = "\<lparr> pl_queue = [], pl_capacity = 1, pl_workers = [Responding \<lparr> jb_ID = ''a'', jb_Task = flaky_task \<rparr> None False,
      Working \<lparr> jb_ID = ''b'', jb_Task = flaky_task \<rparr> 0 None, Waiting],
    pl_cancelled = True, pl_stop = Stop_Waits, pl_maxRetries = 3, pl_submitting = {#}, pl_accepted = [], pl_started = [],
    pl_done = [], pl_world = 0 \<rparr>"
  from pool_shutdown_completes [of ?p] obtain p' where "workers_run ?p p'" "list_all (\<lambda>x. x = Exited) (pl_workers p')"
    by auto
  then show ?thesis by (intro exI [of _ ?p] exI [of _ p']) simp
qed

end
