(* ===== verification/Batch_Processor.thy ===== *)
theory Batch_Processor
  imports CDN_Prelude
begin

text \<open>
  \<open>pkg/batch/processor.go\<close>: items arrive on a bounded channel, one goroutine collects them into
  batches and hands each batch to a processing function, sending the failed items again a bounded
  number of times.  The processing function acts on a world \<open>'w\<close>; sleeping, metrics and the log
  are left out.  \<open>batch_step\<close> interleaves callers of \<open>Add\<close>, the loop, the timer and \<open>Stop\<close>; a select
  with several ready cases takes any of them.
\<close>

section \<open>Configuration and items\<close>

record 'd BatchItem =
  bi_ID :: string
  bi_Data :: 'd
  bi_Error :: "gerror option"
  bi_Success :: bool

record batch_config =
  bc_BatchSize :: int
  bc_MaxConcurrent :: int
  bc_MaxRetries :: int

definition DefaultBatchConfig :: batch_config where
  "DefaultBatchConfig = \<lparr> bc_BatchSize = 10, bc_MaxConcurrent = 5, bc_MaxRetries = 3 \<rparr>"

type_synonym ('d, 'w) processor = "'d BatchItem list \<Rightarrow> 'w \<Rightarrow> 'd BatchItem list \<times> 'w"

section \<open>One batch with its retries\<close>

definition failed_items :: "'d BatchItem list \<Rightarrow> 'd BatchItem list" where
  "failed_items processed = filter (\<lambda>item. \<not> bi_Success item) processed"

text \<open>
  The loop \<open>for retries <= MaxRetries\<close>: the last answer of the processing function, what it was called
  with, call by call, and the world afterwards.
\<close>

function retry_batch ::
  "('d, 'w) processor \<Rightarrow> int \<Rightarrow> int \<Rightarrow> 'd BatchItem list \<Rightarrow> 'd BatchItem list \<Rightarrow> 'd BatchItem list list \<Rightarrow> 'w
     \<Rightarrow> 'd BatchItem list \<times> 'd BatchItem list list \<times> 'w" where
  "retry_batch f maxRetries retries items processed calls w =
     (if retries \<le> maxRetries then
        (case f items w of (processed', w') \<Rightarrow>
           if failed_items processed' = [] then (processed', calls @ [items], w')
           else retry_batch f maxRetries (retries + 1)
                  (if retries + 1 \<le> maxRetries then failed_items processed' else items)
                  processed' (calls @ [items]) w')
      else (processed, calls, w))"
  by pat_completeness auto
termination
  by (relation "measure (\<lambda>(f, maxRetries, retries, items, processed, calls, w). nat (maxRetries + 1 - retries))") auto

declare retry_batch.simps [simp del]

definition processBatchWithRetry ::
  "('d, 'w) processor \<Rightarrow> int \<Rightarrow> 'd BatchItem list \<Rightarrow> 'w \<Rightarrow> 'd BatchItem list \<times> 'd BatchItem list list \<times> 'w" where
  "processBatchWithRetry f maxRetries items w = retry_batch f maxRetries 0 items [] [] w"

section \<open>The processor\<close>

text \<open>
  The goroutine of \<open>processBatches\<close>: in its select, blocked forever on a semaphore without slots, or
  returned.  \<open>bp_added\<close> records the items \<open>Add\<close> put on the channel, \<open>bp_flushed\<close> the batches handed over,
  both in order; \<open>bp_panicked\<close> that a caller of \<open>Add\<close> sent on the closed channel.
\<close>

datatype batch_loop = NotStarted | Selecting | Stuck | Returned

record ('d, 'w) BatchProcessor =
  bp_config :: batch_config
  bp_items :: "'d BatchItem list"
  bp_batch :: "'d BatchItem list"
  bp_cancelled :: bool
  bp_closed :: bool
  bp_loop :: batch_loop
  bp_panicked :: bool
  bp_added :: "'d BatchItem list"
  bp_flushed :: "'d BatchItem list list"
  bp_world :: 'w

text \<open>\<open>make(chan, n)\<close> panics for a negative \<open>n\<close>: \<open>NewBatchProcessor\<close> is then \<open>None\<close>.\<close>

definition NewBatchProcessor :: "batch_config \<Rightarrow> 'w \<Rightarrow> ('d, 'w) BatchProcessor option" where
  "NewBatchProcessor cfg w =
     (if bc_BatchSize cfg * 2 < 0 \<or> bc_MaxConcurrent cfg < 0 then None
      else Some \<lparr> bp_config = cfg, bp_items = [], bp_batch = [], bp_cancelled = False, bp_closed = False,
        bp_loop = NotStarted, bp_panicked = False, bp_added = [], bp_flushed = [], bp_world = w \<rparr>)"

definition StartBatches :: "('d, 'w) BatchProcessor \<Rightarrow> ('d, 'w) BatchProcessor" where
  "StartBatches b = b\<lparr>bp_loop := Selecting\<rparr>"

text \<open>Handing the batch over and starting a new one.\<close>

definition flush :: "('d, 'w) processor \<Rightarrow> ('d, 'w) BatchProcessor \<Rightarrow> ('d, 'w) BatchProcessor" where
  "flush f b =
     (if bc_MaxConcurrent (bp_config b) = 0 then b\<lparr>bp_loop := Stuck\<rparr>
      else (case processBatchWithRetry f (bc_MaxRetries (bp_config b)) (bp_batch b) (bp_world b) of
        (processed, calls, w') \<Rightarrow> b\<lparr>bp_batch := [], bp_flushed := bp_flushed b @ [bp_batch b], bp_world := w'\<rparr>))"

definition flush_pending :: "('d, 'w) processor \<Rightarrow> ('d, 'w) BatchProcessor \<Rightarrow> ('d, 'w) BatchProcessor" where
  "flush_pending f b = (if bp_batch b = [] then b else flush f b)"

definition take_item :: "('d, 'w) processor \<Rightarrow> 'd BatchItem \<Rightarrow> ('d, 'w) BatchProcessor \<Rightarrow> ('d, 'w) BatchProcessor" where
  "take_item f item b =
     (let b' = b\<lparr>bp_batch := bp_batch b @ [item]\<rparr>
      in if bc_BatchSize (bp_config b) \<le> int (length (bp_batch b')) then flush f b' else b')"

definition leave :: "('d, 'w) BatchProcessor \<Rightarrow> ('d, 'w) BatchProcessor" where
  "leave b = (if bp_loop b = Stuck then b else b\<lparr>bp_loop := Returned\<rparr>)"

text \<open>
  An unbuffered channel (\<open>BatchSize\<close> 0) hands an item over only when the loop takes it at once: \<open>hand_over\<close>
  is both ends.  \<open>Stop\<close> is \<open>cancel\<close> and then \<open>close_items\<close>; closing twice would panic and is not repeated.
\<close>

inductive batch_step :: "('d, 'w) processor \<Rightarrow> ('d, 'w) BatchProcessor \<Rightarrow> ('d, 'w) BatchProcessor \<Rightarrow> bool"
  for f where
  add: "\<not> bp_closed b \<Longrightarrow> int (length (bp_items b)) < bc_BatchSize (bp_config b) * 2 \<Longrightarrow>
    batch_step f b (b\<lparr>bp_items := bp_items b @ [item], bp_added := bp_added b @ [item]\<rparr>)"
| hand_over: "\<not> bp_closed b \<Longrightarrow> bc_BatchSize (bp_config b) = 0 \<Longrightarrow> bp_loop b = Selecting \<Longrightarrow>
    batch_step f b (take_item f item (b\<lparr>bp_added := bp_added b @ [item]\<rparr>))"
| reject: "bp_cancelled b \<Longrightarrow> batch_step f b b"
| add_panics: "bp_closed b \<Longrightarrow> batch_step f b (b\<lparr>bp_panicked := True\<rparr>)"
| receive: "bp_loop b = Selecting \<Longrightarrow> bp_items b = item # q \<Longrightarrow>
    batch_step f b (take_item f item (b\<lparr>bp_items := q\<rparr>))"
| timer: "bp_loop b = Selecting \<Longrightarrow> batch_step f b (flush_pending f b)"
| receive_closed: "bp_loop b = Selecting \<Longrightarrow> bp_closed b \<Longrightarrow> bp_items b = [] \<Longrightarrow>
    batch_step f b (leave (flush_pending f b))"
| ctx_done: "bp_loop b = Selecting \<Longrightarrow> bp_cancelled b \<Longrightarrow> batch_step f b (leave (flush_pending f b))"
| cancel: "batch_step f b (b\<lparr>bp_cancelled := True\<rparr>)"
| close_items: "bp_cancelled b \<Longrightarrow> \<not> bp_closed b \<Longrightarrow> batch_step f b (b\<lparr>bp_closed := True\<rparr>)"

section \<open>Retries\<close>

text \<open>
  The calls a batch gives rise to: each one after the first sends exactly the items the one before
  it left failed, and the answer is that of the last call.
\<close>

inductive retry_chain ::
  "('d, 'w) processor \<Rightarrow> 'd BatchItem list \<Rightarrow> 'w \<Rightarrow> 'd BatchItem list list \<Rightarrow> 'd BatchItem list \<Rightarrow> 'w \<Rightarrow> bool"
  for f where
  last_call: "f items w = (processed, w') \<Longrightarrow> retry_chain f items w [items] processed w'"
| call_again: "f items w = (processed, w') \<Longrightarrow> failed_items processed \<noteq> [] \<Longrightarrow>
    retry_chain f (failed_items processed) w' calls answer w'' \<Longrightarrow>
    retry_chain f items w (items # calls) answer w''"

lemma retry_batch_chain:
  assumes "maxRetries - retries = int m"
  shows "\<exists>more answer w'. retry_batch f maxRetries retries items processed calls w = (answer, calls @ more, w') \<and>
     retry_chain f items w more answer w' \<and> length more \<le> Suc m \<and> (failed_items answer = [] \<or> length more = Suc m)"
  using assms
proof (induction m arbitrary: retries items processed calls w)
  case 0
  obtain p w' where p: "f items w = (p, w')" by fastforce
  with 0 have "retry_batch f maxRetries retries items processed calls w = (p, calls @ [items], w')"
    by (cases "failed_items p = []") (simp_all add: retry_batch.simps)
  with last_call [of f, OF p] show ?case by fastforce
next
  case (Suc m)
  obtain p w' where p: "f items w = (p, w')" by fastforce
  show ?case
  proof (cases "failed_items p = []")
    case True
    with p Suc.prems have "retry_batch f maxRetries retries items processed calls w = (p, calls @ [items], w')"
      by (simp add: retry_batch.simps)
    with last_call [of f, OF p] True show ?thesis by fastforce
  next
    case False
    from Suc.IH [of "retries + 1" "failed_items p" p "calls @ [items]" w'] Suc.prems obtain more answer w''
      where ih: "retry_batch f maxRetries (retries + 1) (failed_items p) p (calls @ [items]) w' =
           (answer, (calls @ [items]) @ more, w'')"
        "retry_chain f (failed_items p) w' more answer w''" "length more \<le> Suc m"
        "failed_items answer = [] \<or> length more = Suc m" by auto
    have "retry_batch f maxRetries retries items processed calls w =
        retry_batch f maxRetries (retries + 1) (failed_items p) p (calls @ [items]) w'"
      using p False Suc.prems by (subst retry_batch.simps) simp
    with ih call_again [of f, OF p False ih(2)] show ?thesis
      by (intro exI [of _ "items # more"] exI [of _ answer] exI [of _ w'']) auto
  qed
qed

section \<open>The processor's invariant\<close>

definition batch_inv :: "('d, 'w) BatchProcessor \<Rightarrow> bool" where
  "batch_inv b \<longleftrightarrow>
     concat (bp_flushed b) @ bp_batch b @ bp_items b = bp_added b \<and>
     int (length (bp_items b)) \<le> bc_BatchSize (bp_config b) * 2 \<and>
     0 \<le> bc_BatchSize (bp_config b) \<and>
     (bp_loop b \<noteq> Stuck \<longrightarrow> int (length (bp_batch b)) \<le> max 0 (bc_BatchSize (bp_config b) - 1)) \<and>
     (bp_loop b = Stuck \<longrightarrow> bc_MaxConcurrent (bp_config b) = 0) \<and>
     (\<forall>batch\<in>set (bp_flushed b). batch \<noteq> [] \<and> int (length batch) \<le> max 1 (bc_BatchSize (bp_config b))) \<and>
     (bp_loop b = Returned \<longrightarrow> bp_batch b = [] \<and> bp_cancelled b) \<and>
     (bp_closed b \<longrightarrow> bp_cancelled b) \<and> (bp_panicked b \<longrightarrow> bp_closed b)"

lemma flush_inv:
  assumes "concat (bp_flushed b) @ bp_batch b @ bp_items b = bp_added b"
    and "int (length (bp_items b)) \<le> bc_BatchSize (bp_config b) * 2" and "0 \<le> bc_BatchSize (bp_config b)"
    and "bp_batch b \<noteq> []" and "int (length (bp_batch b)) \<le> max 1 (bc_BatchSize (bp_config b))"
    and "\<forall>batch\<in>set (bp_flushed b). batch \<noteq> [] \<and> int (length batch) \<le> max 1 (bc_BatchSize (bp_config b))"
    and "bp_loop b = Selecting" and "bp_closed b \<longrightarrow> bp_cancelled b" and "bp_panicked b \<longrightarrow> bp_closed b"
  shows "batch_inv (flush f b)"
  using assms by (auto simp: batch_inv_def flush_def split: prod.splits)

lemma flush_frame [simp]:
  "bp_cancelled (flush f b) = bp_cancelled b" "bp_closed (flush f b) = bp_closed b"
  "bp_items (flush f b) = bp_items b" "bp_added (flush f b) = bp_added b" "bp_config (flush f b) = bp_config b"
  by (simp_all add: flush_def split: prod.splits)

lemma flush_pending_frame [simp]:
  "bp_cancelled (flush_pending f b) = bp_cancelled b" "bp_closed (flush_pending f b) = bp_closed b"
  "bp_items (flush_pending f b) = bp_items b" "bp_added (flush_pending f b) = bp_added b"
  "bp_config (flush_pending f b) = bp_config b"
  by (simp_all add: flush_pending_def)

lemma flush_pending_inv:
  assumes "batch_inv b" and "bp_loop b = Selecting"
  shows "batch_inv (flush_pending f b)"
proof (cases "bp_batch b = []")
  case True
  with assms(1) show ?thesis by (simp add: flush_pending_def)
next
  case False
  from False assms have "batch_inv (flush f b)"
    by (intro flush_inv) (auto simp: batch_inv_def)
  with False show ?thesis by (simp add: flush_pending_def)
qed

lemma flush_pending_emptied: "bp_loop (flush_pending f b) \<noteq> Stuck \<Longrightarrow> bp_batch (flush_pending f b) = []"
  by (cases "bp_batch b = []") (auto simp: flush_pending_def flush_def split: prod.splits if_splits)

lemma leave_inv:
  assumes "batch_inv b" and "bp_cancelled b" and "bp_loop b \<noteq> Stuck \<longrightarrow> bp_batch b = []"
  shows "batch_inv (leave b)"
  using assms by (auto simp: leave_def batch_inv_def)

text \<open>Before an item joins the batch, its place in the accounting is between batch and channel.\<close>

lemma take_item_inv:
  assumes "batch_inv (b\<lparr>bp_items := item # bp_items b\<rparr>)" and "bp_loop b = Selecting"
  shows "batch_inv (take_item f item b)"
proof (cases "bc_BatchSize (bp_config b) \<le> int (length (bp_batch b)) + 1")
  case True
  from True assms have "batch_inv (flush f (b\<lparr>bp_batch := bp_batch b @ [item]\<rparr>))"
    by (intro flush_inv) (auto simp: batch_inv_def)
  with True show ?thesis by (simp add: take_item_def add.commute)
next
  case False
  with assms show ?thesis by (auto simp: take_item_def batch_inv_def)
qed

lemma batch_step_inv:
  assumes "batch_step f b b'" and "batch_inv b"
  shows "batch_inv b'"
  using assms(1)
proof cases
  case (hand_over item)
  let ?b = "b\<lparr>bp_added := bp_added b @ [item]\<rparr>"
  from hand_over assms(2) have "bp_items b = []" by (auto simp: batch_inv_def)
  then have flat: "concat (bp_flushed b) @ bp_batch b = bp_added b" using assms(2) by (auto simp: batch_inv_def)
  show ?thesis
  proof -
    from flat hand_over assms(2) \<open>bp_items b = []\<close>
    have "batch_inv (flush f (?b\<lparr>bp_batch := bp_batch b @ [item]\<rparr>))"
      by (intro flush_inv) (auto simp: batch_inv_def)
    with hand_over show ?thesis by (simp add: take_item_def)
  qed
next
  case (receive item q)
  have "batch_inv (take_item f item (b\<lparr>bp_items := q\<rparr>))"
    using receive assms(2) by (intro take_item_inv) (auto simp: batch_inv_def)
  with receive show ?thesis by simp
next
  case timer
  with flush_pending_inv assms(2) show ?thesis by blast
next
  case receive_closed
  then have "bp_cancelled b" using assms(2) by (simp add: batch_inv_def)
  then show ?thesis unfolding receive_closed(1)
    using receive_closed flush_pending_inv assms(2) flush_pending_emptied by (intro leave_inv) auto
next
  case ctx_done
  then show ?thesis unfolding ctx_done(1)
    using flush_pending_inv assms(2) flush_pending_emptied by (intro leave_inv) auto
qed (use assms(2) in \<open>auto simp: batch_inv_def\<close>)

lemma batch_start_inv: "NewBatchProcessor cfg w = Some b0 \<Longrightarrow> batch_inv (StartBatches b0)"
  by (auto simp: batch_inv_def StartBatches_def NewBatchProcessor_def split: if_splits)

lemma batch_reachable_inv:
  "(batch_step f)\<^sup>*\<^sup>* (StartBatches b0) b \<Longrightarrow> NewBatchProcessor cfg w = Some b0 \<Longrightarrow> batch_inv b"
  by (induction rule: rtranclp_induct) (auto intro: batch_step_inv batch_start_inv)

section \<open>Properties\<close>

text \<open>
  A batch is retried boundedly, and only what failed is sent again.  With a non-negative
  \<open>MaxRetries\<close> the processing function is called at most that many times more than once, first
  with the whole batch and then each time with exactly the items its previous answer left
  failed; the calls stop early only when nothing failed.  A negative setting never calls it.
\<close>

theorem batch_retries:
  "(if maxRetries < 0 then processBatchWithRetry f maxRetries items w = ([], [], w)
    else \<exists>calls answer w'. processBatchWithRetry f maxRetries items w = (answer, calls, w') \<and>
           retry_chain f items w calls answer w' \<and> length calls \<le> Suc (nat maxRetries) \<and>
           (failed_items answer = [] \<or> length calls = Suc (nat maxRetries)))"
proof (cases "maxRetries < 0")
  case True
  then show ?thesis by (simp add: processBatchWithRetry_def retry_batch.simps)
next
  case False
  with retry_batch_chain [of maxRetries 0 "nat maxRetries" f items "[]" "[]" w] show ?thesis
    by (auto simp: processBatchWithRetry_def)
qed

definition second_time_lucky :: "(unit, nat) processor" where
  "second_time_lucky items w =
     (map (\<lambda>item. item\<lparr>bi_Success := bi_ID item = ''a'' \<or> 0 < w\<rparr>) items, Suc w)"

abbreviation plain_item :: "string \<Rightarrow> unit BatchItem" where
  "plain_item name \<equiv> \<lparr> bi_ID = name, bi_Data = (), bi_Error = None, bi_Success = False \<rparr>"

theorem batch_retries_witness:
  "\<exists>calls answer w'. processBatchWithRetry second_time_lucky 3 [plain_item ''a'', plain_item ''b''] 0 = (answer, calls, w') \<and>
     length calls \<le> 4 \<and> failed_items answer = [] \<and> calls = [[plain_item ''a'', plain_item ''b''], [plain_item ''b'']]"
proof -
  have "processBatchWithRetry second_time_lucky 3 [plain_item ''a'', plain_item ''b''] 0 =
    ([(plain_item ''b'')\<lparr>bi_Success := True\<rparr>], [[plain_item ''a'', plain_item ''b''], [plain_item ''b'']], 2)"
    by (simp add: processBatchWithRetry_def retry_batch.simps second_time_lucky_def failed_items_def)
  with batch_retries [of 3 second_time_lucky "[plain_item ''a'', plain_item ''b'']" 0] show ?thesis
    by (auto simp: failed_items_def)
qed

text \<open>
  Property C15.  While the processor runs no item is lost, duplicated or reordered: what \<open>Add\<close> accepted is,
  in order, the batches handed over, the batch being collected and the channel.  Every batch is
  non-empty and no longer than \<open>BatchSize\<close>, the channel holds at most twice that, and the loop
  only returns, with its batch handed over, after \<open>Stop\<close> was called.
\<close>

theorem batches_conserve_items:
  assumes "NewBatchProcessor cfg w = Some b0" and "(batch_step f)\<^sup>*\<^sup>* (StartBatches b0) b"
  shows "concat (bp_flushed b) @ bp_batch b @ bp_items b = bp_added b \<and>
         (\<forall>batch\<in>set (bp_flushed b). batch \<noteq> [] \<and> int (length batch) \<le> max 1 (bc_BatchSize (bp_config b))) \<and>
         int (length (bp_items b)) \<le> bc_BatchSize (bp_config b) * 2 \<and>
         (bp_loop b = Returned \<longrightarrow> bp_batch b = [] \<and> bp_cancelled b)"
  using batch_reachable_inv [OF assms(2,1)] by (auto simp: batch_inv_def)

definition idle_batches :: "(unit, nat) BatchProcessor" where
  "idle_batches = \<lparr> bp_config = DefaultBatchConfig, bp_items = [], bp_batch = [], bp_cancelled = False, bp_closed = False,
     bp_loop = Selecting, bp_panicked = False, bp_added = [], bp_flushed = [], bp_world = 0 \<rparr>"

lemma idle_start: "\<exists>b0. NewBatchProcessor DefaultBatchConfig 0 = Some b0 \<and> StartBatches b0 = idle_batches"
  by (simp add: NewBatchProcessor_def StartBatches_def DefaultBatchConfig_def idle_batches_def)

definition one_added :: "(unit, nat) BatchProcessor" where
  "one_added = idle_batches\<lparr>bp_items := [plain_item ''a''], bp_added := [plain_item ''a'']\<rparr>"

lemma one_added_reach: "(batch_step f)\<^sup>*\<^sup>* idle_batches one_added"
  using add [of idle_batches f "plain_item ''a''"]
  by (auto simp: idle_batches_def one_added_def DefaultBatchConfig_def)

theorem batches_conserve_items_witness:
  "(batch_step second_time_lucky)\<^sup>*\<^sup>* idle_batches one_added \<and>
   concat (bp_flushed one_added) @ bp_batch one_added @ bp_items one_added = [plain_item ''a'']"
proof -
  obtain b0 where "NewBatchProcessor DefaultBatchConfig 0 = Some b0" "StartBatches b0 = idle_batches"
    using idle_start by blast
  with one_added_reach [of second_time_lucky]
    batches_conserve_items [of DefaultBatchConfig 0 b0 second_time_lucky one_added] show ?thesis
    by (simp add: one_added_def)
qed

text \<open>
  Stopping is not graceful.  The loop may take the cancellation before the channel, and then
  returns with accepted items that no batch will ever contain; and a caller of \<open>Add\<close> that comes
  after \<open>Stop\<close> may pick the closed channel and panic.
\<close>

theorem stop_drops_items:
  "(\<exists>b. (batch_step f)\<^sup>*\<^sup>* idle_batches b \<and> bp_loop b = Returned \<and> bp_added b = [plain_item ''a''] \<and>
      bp_flushed b = [] \<and> bp_items b = [plain_item ''a'']) \<and>
   (\<exists>b. (batch_step f)\<^sup>*\<^sup>* idle_batches b \<and> bp_panicked b)"
proof
  let ?c = "one_added\<lparr>bp_cancelled := True\<rparr>"
  have c: "(batch_step f)\<^sup>*\<^sup>* idle_batches ?c"
    using rtranclp.rtrancl_into_rtrancl [OF one_added_reach cancel] .
  have "batch_step f ?c (leave (flush_pending f ?c))"
    by (rule ctx_done) (simp_all add: one_added_def idle_batches_def)
  with c have "(batch_step f)\<^sup>*\<^sup>* idle_batches (leave (flush_pending f ?c))" by (rule rtranclp.rtrancl_into_rtrancl)
  moreover have "leave (flush_pending f ?c) = ?c\<lparr>bp_loop := Returned\<rparr>"
    by (simp add: leave_def flush_pending_def one_added_def idle_batches_def)
  ultimately show "\<exists>b. (batch_step f)\<^sup>*\<^sup>* idle_batches b \<and> bp_loop b = Returned \<and> bp_added b = [plain_item ''a''] \<and>
      bp_flushed b = [] \<and> bp_items b = [plain_item ''a'']"
    by (intro exI [of _ "?c\<lparr>bp_loop := Returned\<rparr>"]) (simp add: one_added_def idle_batches_def)
  have "batch_step f ?c (?c\<lparr>bp_closed := True\<rparr>)"
    by (rule close_items) (simp_all add: one_added_def idle_batches_def)
  with c have d: "(batch_step f)\<^sup>*\<^sup>* idle_batches (?c\<lparr>bp_closed := True\<rparr>)" by (rule rtranclp.rtrancl_into_rtrancl)
  have "batch_step f (?c\<lparr>bp_closed := True\<rparr>) (?c\<lparr>bp_closed := True, bp_panicked := True\<rparr>)"
    using add_panics [of "?c\<lparr>bp_closed := True\<rparr>" f] by simp
  with d have "(batch_step f)\<^sup>*\<^sup>* idle_batches (?c\<lparr>bp_closed := True, bp_panicked := True\<rparr>)"
    by (rule rtranclp.rtrancl_into_rtrancl)
  then show "\<exists>b. (batch_step f)\<^sup>*\<^sup>* idle_batches b \<and> bp_panicked b"
    by (intro exI [of _ "?c\<lparr>bp_closed := True, bp_panicked := True\<rparr>"]) simp
qed

end
