(* ===== verification/Object_Names.thy ===== *)
theory Object_Names
  imports Env_Config
begin

text \<open>
  Object names and sizes: \<open>SanitizeObjectName\<close>, \<open>HasUnsafeObjectKey\<close>, \<open>IsImageFile\<close>, \<open>GetWidthAndHeight\<close>,
  \<open>SetWidthToHeight\<close> and \<open>IsInt\<close> of \<open>service/util.go\<close>, over the rune decoding of \<open>unicode/utf8\<close> that
  \<open>for _, r := range s\<close> performs.
\<close>

section \<open>Runes\<close>

definition byte_of :: "char \<Rightarrow> nat" where
  "byte_of c = of_char c"

definition continuation :: "char \<Rightarrow> bool" where
  "continuation c \<longleftrightarrow> 0x80 \<le> byte_of c \<and> byte_of c \<le> 0xBF"

text \<open>
  The first rune and its width.  A byte that does not start a shortest-form encoding of a scalar
  value counts as U+FFFD of width one.
\<close>

definition RuneError :: nat where
  "RuneError = 0xFFFD"

definition second_ok :: "nat \<Rightarrow> char \<Rightarrow> bool" where
  "second_ok b0 c \<longleftrightarrow>
     (if b0 = 0xE0 then 0xA0 \<le> byte_of c \<and> byte_of c \<le> 0xBF
      else if b0 = 0xED then 0x80 \<le> byte_of c \<and> byte_of c \<le> 0x9F
      else if b0 = 0xF0 then 0x90 \<le> byte_of c \<and> byte_of c \<le> 0xBF
      else if b0 = 0xF4 then 0x80 \<le> byte_of c \<and> byte_of c \<le> 0x8F
      else continuation c)"

definition DecodeRune :: "string \<Rightarrow> nat \<times> nat" where
  "DecodeRune s =
     (case s of
        [] \<Rightarrow> (RuneError, 0)
      | c0 # s1 \<Rightarrow>
          (let b0 = byte_of c0 in
           if b0 < 0x80 then (b0, 1)
           else if 0xC2 \<le> b0 \<and> b0 \<le> 0xDF then
             (case s1 of
                c1 # _ \<Rightarrow> if second_ok b0 c1 then ((b0 - 0xC0) * 0x40 + (byte_of c1 - 0x80), 2) else (RuneError, 1)
              | _ \<Rightarrow> (RuneError, 1))
           else if 0xE0 \<le> b0 \<and> b0 \<le> 0xEF then
             (case s1 of
                c1 # c2 # _ \<Rightarrow>
                  if second_ok b0 c1 \<and> continuation c2
                  then ((b0 - 0xE0) * 0x1000 + (byte_of c1 - 0x80) * 0x40 + (byte_of c2 - 0x80), 3) else (RuneError, 1)
              | _ \<Rightarrow> (RuneError, 1))
           else if 0xF0 \<le> b0 \<and> b0 \<le> 0xF4 then
             (case s1 of
                c1 # c2 # c3 # _ \<Rightarrow>
                  if second_ok b0 c1 \<and> continuation c2 \<and> continuation c3
                  then ((b0 - 0xF0) * 0x40000 + (byte_of c1 - 0x80) * 0x1000 + (byte_of c2 - 0x80) * 0x40
                          + (byte_of c3 - 0x80), 4) else (RuneError, 1)
              | _ \<Rightarrow> (RuneError, 1))
           else (RuneError, 1)))"

lemma DecodeRune_width: "s \<noteq> [] \<Longrightarrow> 0 < snd (DecodeRune s)"
  by (auto simp: DecodeRune_def Let_def split: list.splits)

function runes :: "string \<Rightarrow> nat list" where
  "runes s = (if s = [] then [] else fst (DecodeRune s) # runes (drop (snd (DecodeRune s)) s))"
  by pat_completeness auto
termination
  by (relation "measure length") (use DecodeRune_width in auto)

declare runes.simps [simp del]

lemma runes_Nil [simp]: "runes [] = []"
  by (simp add: runes.simps)

lemma runes_ascii [simp]: "byte_of c < 0x80 \<Longrightarrow> runes (c # s) = byte_of c # runes s"
  by (subst runes.simps) (simp add: DecodeRune_def Let_def)

section \<open>Sanitizing an object name\<close>

text \<open>The table \<open>replacements\<close>, by code point.\<close>

definition replacements :: "(nat \<times> string) list" where
  "replacements =
     [(0x5E, ''''), (0x2A, ''''), (0x7C, ''''), (0x5C, ''''), (0x26, ''''), (0x22, ''''), (0x3B, ''''),
      (0xE7, ''c''), (0x11F, ''g''), (0x131, ''i''), (0xF6, ''o''), (0x15F, ''s''), (0xFC, ''u''),
      (0xC7, ''C''), (0x11E, ''G''), (0x130, ''I''), (0xD6, ''O''), (0x15E, ''S''), (0xDC, ''U''),
      (0xEB, ''e''), (0xF1, ''n''), (0xE9, ''e''), (0xE8, ''e''), (0xEA, ''e''), (0xE0, ''a''), (0xE1, ''a''),
      (0xE2, ''a''), (0xF4, ''o''), (0xFA, ''u''), (0xF9, ''u''), (0xEE, ''i''), (0xEF, ''i''),
      (0x20, ''_''), (0x09, ''_''), (0x0A, ''_''), (0x0D, ''_'')]"

definition sanitize_rune :: "nat \<Rightarrow> string" where
  "sanitize_rune r =
     (case map_of replacements r of
        Some replacement \<Rightarrow> replacement
      | None \<Rightarrow> (if r < 32 \<or> 126 < r then '''' else [char_of r]))"

text \<open>\<open>strings.Contains(s, "__")\<close> and \<open>strings.ReplaceAll(s, "__", "_")\<close>, left to right without overlaps.\<close>

fun contains_pair :: "string \<Rightarrow> bool" where
  "contains_pair (c # d # s) \<longleftrightarrow> c = CHR ''_'' \<and> d = CHR ''_'' \<or> contains_pair (d # s)"
| "contains_pair _ \<longleftrightarrow> False"

fun replace_pairs :: "string \<Rightarrow> string" where
  "replace_pairs (c # d # s) =
     (if c = CHR ''_'' \<and> d = CHR ''_'' then CHR ''_'' # replace_pairs s else c # replace_pairs (d # s))"
| "replace_pairs s = s"

lemma replace_pairs_le: "length (replace_pairs s) \<le> length s"
  by (induction s rule: replace_pairs.induct) auto

lemma replace_pairs_shrinks: "contains_pair s \<Longrightarrow> length (replace_pairs s) < length s"
proof (induction s rule: replace_pairs.induct)
  case (1 c d s)
  then show ?case using replace_pairs_le [of s] by auto
qed auto

function collapse_underscores :: "string \<Rightarrow> string" where
  "collapse_underscores s = (if contains_pair s then collapse_underscores (replace_pairs s) else s)"
  by pat_completeness auto
termination
  by (relation "measure length") (use replace_pairs_shrinks in auto)

declare collapse_underscores.simps [simp del]

definition SanitizeObjectName :: "string \<Rightarrow> string" where
  "SanitizeObjectName objectName =
     (let sanitized = concat (map sanitize_rune (runes objectName));
          sanitized = collapse_underscores sanitized;
          sanitized = TrimSet {CHR ''_'', CHR ''.''} sanitized
      in if sanitized = '''' then ''file'' else sanitized)"

section \<open>Object keys and image names\<close>

definition HasUnsafeObjectKey :: "string \<Rightarrow> bool" where
  "HasUnsafeObjectKey key \<longleftrightarrow>
     (if TrimSpace key = '''' then True else ''..'' \<in> set (split_on (CHR ''/'') key))"

text \<open>\<open>filepath.Ext\<close>: from the last dot of the last path element on.\<close>

definition Ext :: "string \<Rightarrow> string" where
  "Ext path =
     (let tail = takeWhile (\<lambda>c. c \<noteq> CHR ''.'' \<and> c \<noteq> CHR ''/'') (rev path)
      in case drop (length tail) (rev path) of
           c # _ \<Rightarrow> (if c = CHR ''.'' then c # rev tail else '''')
         | [] \<Rightarrow> '''')"

definition imageExtensions :: "string list" where
  "imageExtensions =
     [''.jpg'', ''.jpeg'', ''.png'', ''.gif'', ''.bmp'', ''.tiff'', ''.tif'', ''.webp'', ''.svg'', ''.ico'', ''.raw'']"

definition IsImageFile :: "string \<Rightarrow> bool" where
  "IsImageFile filename \<longleftrightarrow> ToLower (Ext filename) \<in> set imageExtensions"

section \<open>Requested sizes\<close>

datatype request_source = ParamsType | FormsType | HeadersType | QueryType

text \<open>\<open>field src name\<close> is what the request carries under that name, empty when it is absent.\<close>

definition requested_size :: "(request_source \<Rightarrow> string \<Rightarrow> string) \<Rightarrow> request_source \<Rightarrow> string \<Rightarrow> int" where
  "requested_size field src name = (case Atoi (field src name) of Some n \<Rightarrow> n | None \<Rightarrow> 0)"

definition clamp_size :: "int \<Rightarrow> int \<Rightarrow> int" where
  "clamp_size maxDim n =
     (let n = (if n < 0 then 0 else n) in if 0 < maxDim \<and> maxDim < n then maxDim else n)"

definition GetWidthAndHeight ::
  "env \<Rightarrow> (request_source \<Rightarrow> string \<Rightarrow> string) \<Rightarrow> request_source \<Rightarrow> bool \<times> 64 word \<times> 64 word" where
  "GetWidthAndHeight env field src =
     (let maxDim = GetEnvAsIntOrDefault env ''MAX_RESIZE_DIMENSION'' 4096;
          width = clamp_size maxDim (requested_size field src ''width'');
          height = clamp_size maxDim (requested_size field src ''height'')
      in (0 < width \<or> 0 < height, word_of_int width, word_of_int height))"

definition SetWidthToHeight :: "string \<Rightarrow> string \<Rightarrow> string \<times> string" where
  "SetWidthToHeight width height =
     (let height = (if width \<noteq> '''' \<and> height = '''' then width else height);
          width = (if height \<noteq> '''' \<and> width = '''' then height else width)
      in (width, height))"

definition IsInt :: "string \<Rightarrow> string \<Rightarrow> bool" where
  "IsInt one two \<longleftrightarrow> \<not> (Atoi one = None \<and> Atoi two = None)"

section \<open>Collapsing underscores in one pass\<close>

text \<open>The reference: keep a character unless it is an underscore right after another one.\<close>

fun squeeze :: "string \<Rightarrow> string" where
  "squeeze (c # d # s) = (if c = CHR ''_'' \<and> d = CHR ''_'' then squeeze (d # s) else c # squeeze (d # s))"
| "squeeze s = s"

lemma squeeze_no_pair: "\<not> contains_pair s \<Longrightarrow> squeeze s = s"
  by (induction s rule: squeeze.induct) auto

lemma contains_pair_Cons: "contains_pair (c # s) \<longleftrightarrow> (c = CHR ''_'' \<and> s \<noteq> [] \<and> hd s = CHR ''_'') \<or> contains_pair s"
  by (cases s) auto

lemma hd_squeeze: "s \<noteq> [] \<Longrightarrow> squeeze s \<noteq> [] \<and> hd (squeeze s) = hd s"
  by (induction s rule: squeeze.induct) auto

lemma squeeze_has_no_pair: "\<not> contains_pair (squeeze s)"
proof (induction s rule: squeeze.induct)
  case (1 c d s)
  then show ?case using hd_squeeze [of "d # s"] by (auto simp: contains_pair_Cons)
qed auto

lemma squeeze_Cons:
  "squeeze (c # s) = (if c = CHR ''_'' \<and> s \<noteq> [] \<and> hd s = CHR ''_'' then squeeze s else c # squeeze s)"
  by (cases s) auto

lemma hd_replace_pairs: "s \<noteq> [] \<Longrightarrow> replace_pairs s \<noteq> [] \<and> hd (replace_pairs s) = hd s"
  by (induction s rule: replace_pairs.induct) auto

lemma squeeze_replace_pairs: "squeeze (replace_pairs s) = squeeze s"
proof (induction s rule: replace_pairs.induct)
  case (1 c d s)
  show ?case
  proof (cases "c = CHR ''_'' \<and> d = CHR ''_''")
    case True
    with 1 hd_replace_pairs [of s] show ?thesis by (cases "s = []") (auto simp: squeeze_Cons)
  next
    case False
    with 1 hd_replace_pairs [of "d # s"] show ?thesis by (auto simp: squeeze_Cons)
  qed
qed auto

lemma collapse_is_squeeze: "collapse_underscores s = squeeze s"
proof (induction s rule: collapse_underscores.induct)
  case (1 s)
  then show ?case
    by (cases "contains_pair s") (simp_all add: collapse_underscores.simps [of s] squeeze_replace_pairs squeeze_no_pair)
qed

section \<open>What sanitizing leaves\<close>

text \<open>Printable ASCII without space and without the removed signs, by code point.\<close>

definition clean_char :: "char \<Rightarrow> bool" where
  "clean_char c \<longleftrightarrow> 33 \<le> byte_of c \<and> byte_of c \<le> 126 \<and>
     byte_of c \<notin> {0x5E, 0x2A, 0x7C, 0x5C, 0x26, 0x22, 0x3B}"

lemma replacements_clean: "map_of replacements r = Some t \<Longrightarrow> list_all clean_char t"
proof -
  have "list_all (\<lambda>(r, t). list_all clean_char t) replacements"
    by (simp add: replacements_def clean_char_def byte_of_def)
  then show "map_of replacements r = Some t \<Longrightarrow> list_all clean_char t"
    by (auto simp: list_all_iff dest!: map_of_SomeD)
qed

lemma sanitize_rune_clean: "list_all clean_char (sanitize_rune r)"
proof (cases "map_of replacements r")
  case None
  then have "r \<notin> {0x5E, 0x2A, 0x7C, 0x5C, 0x26, 0x22, 0x3B, 0x20}"
    by (auto simp: replacements_def split: if_splits)
  with None show ?thesis
    by (auto simp: sanitize_rune_def clean_char_def byte_of_def)
next
  case (Some t)
  with replacements_clean show ?thesis by (simp add: sanitize_rune_def)
qed

lemma sanitize_rune_id: "clean_char c \<Longrightarrow> sanitize_rune (byte_of c) = [c]"
proof -
  assume c: "clean_char c"
  then have "map_of replacements (byte_of c) = None"
    unfolding map_of_eq_None_iff by (auto simp: replacements_def clean_char_def)
  with c show ?thesis by (simp add: sanitize_rune_def clean_char_def byte_of_def)
qed

lemma sanitize_clean_id: "list_all clean_char s \<Longrightarrow> concat (map sanitize_rune (runes s)) = s"
  by (induction s) (auto simp: sanitize_rune_id clean_char_def)

lemma set_squeeze: "set (squeeze s) \<subseteq> set s"
  by (induction s rule: squeeze.induct) auto

lemma contains_pair_iff: "contains_pair s \<longleftrightarrow> (\<exists>a b. s = a @ ''__'' @ b)"
proof (induction s)
  case Nil
  then show ?case by simp
next
  case (Cons c s)
  have "(\<exists>a b. c # s = a @ ''__'' @ b) \<longleftrightarrow> (\<exists>b. c # s = ''__'' @ b) \<or> (\<exists>a b. s = a @ ''__'' @ b)"
  proof
    assume "\<exists>a b. c # s = a @ ''__'' @ b"
    then obtain a b where "c # s = a @ ''__'' @ b" by blast
    then show "(\<exists>b. c # s = ''__'' @ b) \<or> (\<exists>a b. s = a @ ''__'' @ b)" by (cases a) auto
  next
    assume "(\<exists>b. c # s = ''__'' @ b) \<or> (\<exists>a b. s = a @ ''__'' @ b)"
    then show "\<exists>a b. c # s = a @ ''__'' @ b" by (metis append_Cons append_Nil)
  qed
  moreover have "(\<exists>b. c # s = ''__'' @ b) \<longleftrightarrow> c = CHR ''_'' \<and> s \<noteq> [] \<and> hd s = CHR ''_''"
    by (cases s) auto
  ultimately show ?case using Cons contains_pair_Cons [of c s] by simp
qed

lemma contains_pair_part: "contains_pair s \<Longrightarrow> contains_pair (a @ s @ b)"
  unfolding contains_pair_iff by (metis append.assoc)

lemma TrimSet_part: "\<exists>a b. s = a @ TrimSet cs s @ b"
proof -
  let ?l = "dropWhile (\<lambda>c. c \<in> cs) s"
  have "rev ?l = takeWhile (\<lambda>c. c \<in> cs) (rev ?l) @ dropWhile (\<lambda>c. c \<in> cs) (rev ?l)" by simp
  then have "?l = TrimSet cs s @ rev (takeWhile (\<lambda>c. c \<in> cs) (rev ?l))"
    unfolding TrimSet_def by (metis rev_append rev_rev_ident)
  moreover have "s = takeWhile (\<lambda>c. c \<in> cs) s @ ?l" by simp
  ultimately show ?thesis by metis
qed

lemma TrimSet_ends:
  assumes "TrimSet cs s \<noteq> []"
  shows "hd (TrimSet cs s) \<notin> cs" and "last (TrimSet cs s) \<notin> cs"
proof -
  let ?l = "dropWhile (\<lambda>c. c \<in> cs) s"
  let ?r = "dropWhile (\<lambda>c. c \<in> cs) (rev ?l)"
  have r: "?r \<noteq> []" using assms by (simp add: TrimSet_def)
  then have "hd ?r \<notin> cs" by (metis (no_types, lifting) hd_dropWhile)
  with r show "last (TrimSet cs s) \<notin> cs" by (simp add: TrimSet_def last_rev)
  have l: "?l \<noteq> []" using r by (metis dropWhile.simps(1) rev.simps(1))
  then have "hd ?l \<notin> cs" by (metis (no_types, lifting) hd_dropWhile)
  moreover have "last (rev ?l) = last ?r"
    using r by (metis (no_types, lifting) dropWhile_eq_drop last_drop length_drop length_greater_0_conv zero_less_diff)
  ultimately show "hd (TrimSet cs s) \<notin> cs"
    using l r by (simp add: TrimSet_def hd_rev last_rev)
qed

lemma dropWhile_hd: "s \<noteq> [] \<Longrightarrow> \<not> P (hd s) \<Longrightarrow> dropWhile P s = s"
  by (cases s) auto

lemma TrimSet_id: "s \<noteq> [] \<Longrightarrow> hd s \<notin> cs \<Longrightarrow> last s \<notin> cs \<Longrightarrow> TrimSet cs s = s"
  using dropWhile_hd [of s "\<lambda>c. c \<in> cs"] dropWhile_hd [of "rev s" "\<lambda>c. c \<in> cs"]
  by (simp add: TrimSet_def hd_rev)

definition good_name :: "string \<Rightarrow> bool" where
  "good_name s \<longleftrightarrow> s \<noteq> [] \<and> list_all clean_char s \<and> \<not> contains_pair s \<and>
     hd s \<notin> {CHR ''_'', CHR ''.''} \<and> last s \<notin> {CHR ''_'', CHR ''.''}"

lemma sanitize_good: "good_name (SanitizeObjectName s)"
proof -
  let ?a = "concat (map sanitize_rune (runes s))"
  let ?t = "TrimSet {CHR ''_'', CHR ''.''} (squeeze ?a)"
  have "list_all clean_char ?a"
    using sanitize_rune_clean by (auto simp: list_all_iff)
  then have clean: "list_all clean_char ?t"
    using set_TrimSet set_squeeze unfolding list_all_iff by blast
  obtain a b where "squeeze ?a = a @ ?t @ b" using TrimSet_part by blast
  then have pair: "\<not> contains_pair ?t"
    using contains_pair_part [of ?t a b] squeeze_has_no_pair [of ?a] by auto
  have "good_name ''file''" by (simp add: good_name_def clean_char_def byte_of_def)
  with clean pair TrimSet_ends [of "{CHR ''_'', CHR ''.''}" "squeeze ?a"] show ?thesis
    by (auto simp: SanitizeObjectName_def Let_def collapse_is_squeeze good_name_def)
qed

lemma sanitize_good_id: "good_name s \<Longrightarrow> SanitizeObjectName s = s"
  by (simp add: SanitizeObjectName_def good_name_def sanitize_clean_id collapse_is_squeeze squeeze_no_pair TrimSet_id)

section \<open>Properties\<close>

text \<open>
  What \<open>SanitizeObjectName\<close> returns is never empty, consists of printable ASCII without
  spaces and without the seven removed signs, has no double underscore and neither starts nor
  ends with an underscore or a dot.  The names of that form are exactly its fixed points, so
  sanitizing twice is sanitizing once.
\<close>

theorem sanitized_names:
  "good_name (SanitizeObjectName s) \<and> (SanitizeObjectName s = s \<longleftrightarrow> good_name s) \<and>
   SanitizeObjectName (SanitizeObjectName s) = SanitizeObjectName s"
  using sanitize_good [of s] sanitize_good_id [of s] sanitize_good_id [OF sanitize_good] by metis

lemma requested_size_range: "- (2 ^ 63) \<le> requested_size field src name \<and> requested_size field src name < 2 ^ 63"
  using Atoi_range by (auto simp: requested_size_def split: option.splits)

lemma clamp_size_range:
  "n < 2 ^ 63 \<Longrightarrow> 0 \<le> clamp_size maxDim n \<and> clamp_size maxDim n < 2 ^ 63 \<and>
   (0 < maxDim \<longrightarrow> clamp_size maxDim n \<le> maxDim)"
  by (auto simp: clamp_size_def Let_def)

lemma uint_of_clamp:
  "uint (word_of_int (clamp_size maxDim (requested_size field src name)) :: 64 word) =
     clamp_size maxDim (requested_size field src name)"
  using clamp_size_range [of "requested_size field src name" maxDim] requested_size_range [of field src name]
  by (simp add: uint_word_of_int_eq take_bit_int_eq_self)

text \<open>
  Property C35.  No request can ask for a huge canvas.  Each returned side is the requested number,
  with anything negative, unparsable or absent read as 0 and anything above
  \<open>MAX_RESIZE_DIMENSION\<close> cut down to it; a cap of 0 or less removes the limit, but the
  conversion to unsigned never wraps.  A resize is asked for exactly when a side is not 0.
\<close>

theorem resize_dims_bounded:
  assumes "GetWidthAndHeight env field src = (resize, width, height)"
    and "cap = GetEnvAsIntOrDefault env ''MAX_RESIZE_DIMENSION'' 4096"
  shows "uint width = clamp_size cap (requested_size field src ''width'') \<and>
         uint height = clamp_size cap (requested_size field src ''height'') \<and>
         (resize \<longleftrightarrow> width \<noteq> 0 \<or> height \<noteq> 0) \<and> uint width < 2 ^ 63 \<and> uint height < 2 ^ 63 \<and>
         (0 < cap \<longrightarrow> uint width \<le> cap \<and> uint height \<le> cap)"
proof -
  let ?w = "clamp_size cap (requested_size field src ''width'')"
  let ?h = "clamp_size cap (requested_size field src ''height'')"
  have w: "uint width = ?w" and h: "uint height = ?h" and r: "resize \<longleftrightarrow> 0 < ?w \<or> 0 < ?h"
    using assms uint_of_clamp by (auto simp: GetWidthAndHeight_def Let_def)
  have "0 \<le> ?w \<and> ?w < 2 ^ 63 \<and> (0 < cap \<longrightarrow> ?w \<le> cap)" "0 \<le> ?h \<and> ?h < 2 ^ 63 \<and> (0 < cap \<longrightarrow> ?h \<le> cap)"
    using clamp_size_range requested_size_range by blast+
  moreover have "width = 0 \<longleftrightarrow> uint width = 0" "height = 0 \<longleftrightarrow> uint height = 0" by (auto simp: uint_0_iff)
  ultimately show ?thesis using w h r by auto
qed

definition wide_request :: "request_source \<Rightarrow> string \<Rightarrow> string" where
  "wide_request src name = (if src = QueryType \<and> name = ''width'' then ''99999'' else if name = ''height'' then ''-5'' else '''')"

theorem resize_dims_bounded_witness:
  "\<exists>w h. GetWidthAndHeight (\<lambda>_. '''') wide_request QueryType = (True, w, h) \<and> uint w = 4096 \<and> uint h = 0"
proof -
  have cap: "GetEnvAsIntOrDefault (\<lambda>_. '''') ''MAX_RESIZE_DIMENSION'' 4096 = 4096"
    by (simp add: GetEnvAsIntOrDefault_def)
  have sides: "requested_size wide_request QueryType ''width'' = 99999" "requested_size wide_request QueryType ''height'' = -5"
    by (simp_all add: requested_size_def wide_request_def Atoi_def Let_def is_digit_def digits_val_def digit_val_def)
  obtain r w h where g: "GetWidthAndHeight (\<lambda>_. '''') wide_request QueryType = (r, w, h)" by (metis surj_pair)
  from resize_dims_bounded [OF g cap [symmetric]] sides have "uint w = 4096" "uint h = 0" "r \<longleftrightarrow> w \<noteq> 0 \<or> h \<noteq> 0"
    by (simp_all add: clamp_size_def)
  with g show ?thesis by auto
qed

end
