(* ===== verification/File_Validation.thy ===== *)
theory File_Validation
  imports Object_Names
begin

unbundle bit_operations_syntax

text \<open>
  What may be uploaded: \<open>pkg/validator/file.go\<close> (size, extension and content of a file),
  \<open>pkg/filetype/filetype.go\<close> (extensions of URL uploads) and \<open>pkg/validator/url.go\<close> (which addresses a
  server-side fetch may reach).  \<open>url.Parse\<close>, \<open>net.ParseIP\<close> and the network are parameters.
\<close>

section \<open>Extensions and content signatures\<close>

definition DefaultMaxFileSize :: int where
  "DefaultMaxFileSize = 100 * 1024 * 1024"

definition AllowedFileFormats :: "string list" where
  "AllowedFileFormats =
     [''.jpg'', ''.jpeg'', ''.png'', ''.gif'', ''.webp'', ''.bmp'', ''.tiff'', ''.svg'', ''.heic'', ''.heif'', ''.avif'',
      ''.pdf'', ''.doc'', ''.docx'', ''.xls'', ''.xlsx'', ''.ppt'', ''.pptx'', ''.csv'', ''.zip'', ''.sql'',
      ''.wav'', ''.mp3'', ''.mp4'', ''.mov'', ''.3gp'', ''.avi'']"

text \<open>\<open>FileValidationError\<close>: the three codes; the message only words them.\<close>

datatype validation_error = FILE_TOO_LARGE int | INVALID_FILE_FORMAT | INVALID_FILE_CONTENT

definition validation_enabled :: "env \<Rightarrow> bool" where
  "validation_enabled env = GetEnvAsBoolOrDefault env ''VALIDATE_FILE'' True"

definition max_file_size :: "env \<Rightarrow> int" where
  "max_file_size env = GetEnvAsIntOrDefault env ''MAX_FILE_SIZE'' DefaultMaxFileSize"

definition ValidateFile :: "env \<Rightarrow> int \<Rightarrow> string \<Rightarrow> validation_error option" where
  "ValidateFile env fileSize filename =
     (if \<not> validation_enabled env then None
      else if max_file_size env < fileSize then Some (FILE_TOO_LARGE (max_file_size env))
      else if ToLower (Ext filename) \<notin> set AllowedFileFormats then Some INVALID_FILE_FORMAT
      else None)"

definition compareBytes :: "bytes \<Rightarrow> bytes \<Rightarrow> bool" where
  "compareBytes a b \<longleftrightarrow> (if length a \<noteq> length b then False else list_all (\<lambda>(x, y). x = y) (zip a b))"

definition isISOBaseMedia :: "bytes \<Rightarrow> bool" where
  "isISOBaseMedia content \<longleftrightarrow>
     (if length content < 12 then False else compareBytes (take 4 (drop 4 content)) [0x66, 0x74, 0x79, 0x70])"

text \<open>The table \<open>magicNumbers\<close>; Go walks it in a random order, the question is whether any entry matches.\<close>

definition magicNumbers :: "bytes list" where
  "magicNumbers =
     [[0xFF, 0xD8, 0xFF], [0x89, 0x50, 0x4E, 0x47], [0x47, 0x49, 0x46, 0x38], [0x52, 0x49, 0x46, 0x46],
      [0x42, 0x4D], [0x49, 0x49, 0x2A, 0x00], [0x4D, 0x4D, 0x00, 0x2A], [0x50, 0x4B, 0x03, 0x04],
      [0xD0, 0xCF, 0x11, 0xE0, 0xA1, 0xB1, 0x1A, 0xE1], [0x52, 0x49, 0x46, 0x46], [0xFF, 0xFB],
      [0x49, 0x44, 0x33], [0x52, 0x49, 0x46, 0x46], [0x25, 0x50, 0x44, 0x46]]"

text \<open>The loop of \<open>isValidUTF8\<close>, on what is left of the content at index \<open>i\<close>.\<close>

definition sequence_size :: "8 word \<Rightarrow> nat option" where
  "sequence_size b =
     (if b AND 0xE0 = 0xC0 then Some 2
      else if b AND 0xF0 = 0xE0 then Some 3
      else if b AND 0xF8 = 0xF0 then Some 4
      else None)"

definition is_continuation :: "8 word \<Rightarrow> bool" where
  "is_continuation b \<longleftrightarrow> b AND 0xC0 = 0x80"

function isValidUTF8 :: "bytes \<Rightarrow> bool" where
  "isValidUTF8 [] = True"
| "isValidUTF8 (b # bs) =
     (if b < 0x80 then isValidUTF8 bs
      else (case sequence_size b of
              None \<Rightarrow> False
            | Some n \<Rightarrow>
                (if length (b # bs) < n then False
                 else if \<not> list_all is_continuation (take (n - 1) bs) then False
                 else isValidUTF8 (drop (n - 1) bs))))"
  by pat_completeness auto
termination
  by (relation "measure length") auto

definition isValidUTF8Text :: "bytes \<Rightarrow> bool" where
  "isValidUTF8Text content \<longleftrightarrow>
     (if \<not> isValidUTF8 content then False
      else if content = [] then True
      else \<not> list_ex (\<lambda>b. b = 0) content)"

definition isValidFileContent :: "bytes \<Rightarrow> bool" where
  "isValidFileContent content \<longleftrightarrow>
     (if length content < 4 then isValidUTF8Text content
      else if isISOBaseMedia content then True
      else if list_ex (\<lambda>magic. length magic \<le> length content \<and> compareBytes (take (length magic) content) magic) magicNumbers
      then True
      else isValidUTF8Text content)"

definition ValidateFileContent :: "env \<Rightarrow> bytes \<Rightarrow> validation_error option" where
  "ValidateFileContent env content =
     (if \<not> validation_enabled env then None
      else if max_file_size env < int (length content) then Some (FILE_TOO_LARGE (max_file_size env))
      else if \<not> isValidFileContent content then Some INVALID_FILE_CONTENT
      else None)"

section \<open>Extensions of URL uploads\<close>

definition contentTypeExtensions :: "(string \<times> string) list" where
  "contentTypeExtensions =
     [(''image/jpeg'', ''jpg''), (''image/png'', ''png''), (''image/gif'', ''gif''), (''image/webp'', ''webp''),
      (''image/svg+xml'', ''svg''), (''application/pdf'', ''pdf''), (''application/msword'', ''doc''),
      (''application/vnd.openxmlformats-officedocument.wordprocessingml.document'', ''docx''),
      (''application/vnd.ms-excel'', ''xls''),
      (''application/vnd.openxmlformats-officedocument.spreadsheetml.sheet'', ''xlsx''),
      (''application/vnd.ms-powerpoint'', ''ppt''),
      (''application/vnd.openxmlformats-officedocument.presentationml.presentation'', ''pptx''),
      (''application/x-autocad'', ''dwg''), (''application/acad'', ''dwg''), (''image/vnd.dwg'', ''dwg''),
      (''image/x-dwg'', ''dwg''), (''application/dxf'', ''dxf''), (''application/zip'', ''zip''),
      (''application/x-rar-compressed'', ''rar''), (''application/x-7z-compressed'', ''7z''),
      (''text/plain'', ''txt''), (''text/csv'', ''csv'')]"

definition GetExtensionFromContentType :: "string \<Rightarrow> string" where
  "GetExtensionFromContentType contentType =
     (case map_of contentTypeExtensions contentType of Some extension \<Rightarrow> extension | None \<Rightarrow> '''')"

definition GetExtensionFromURL :: "string \<Rightarrow> string" where
  "GetExtensionFromURL url =
     (let parts = split_on (CHR ''.'') url in if 1 < length parts then last parts else '''')"

definition validExtensions :: "string list" where
  "validExtensions =
     [''jpg'', ''jpeg'', ''png'', ''gif'', ''webp'', ''svg'', ''pdf'', ''doc'', ''docx'', ''xls'', ''xlsx'', ''ppt'', ''pptx'',
      ''dwg'', ''dxf'', ''zip'', ''rar'', ''7z'', ''txt'', ''csv'']"

definition IsValidExtension :: "string \<Rightarrow> bool" where
  "IsValidExtension extension \<longleftrightarrow> ToLower extension \<in> set validExtensions"

section \<open>Addresses a fetch may reach\<close>

text \<open>\<open>net.IP\<close> is a byte slice of length 4 or 16; \<open>nil\<close> is the empty one.\<close>

type_synonym ip = bytes

definition v4InV6Prefix :: bytes where
  "v4InV6Prefix = [0, 0, 0, 0, 0, 0, 0, 0, 0, 0, 0xFF, 0xFF]"

definition To4 :: "ip \<Rightarrow> ip option" where
  "To4 ip =
     (if length ip = 4 then Some ip
      else if length ip = 16 \<and> take 12 ip = v4InV6Prefix then Some (drop 12 ip)
      else None)"

definition ip_Equal :: "ip \<Rightarrow> ip \<Rightarrow> bool" where
  "ip_Equal a b \<longleftrightarrow>
     (if length a = length b then a = b
      else if length a = 4 \<and> length b = 16 then take 12 b = v4InV6Prefix \<and> a = drop 12 b
      else if length a = 16 \<and> length b = 4 then take 12 a = v4InV6Prefix \<and> drop 12 a = b
      else False)"

definition IsLoopback :: "ip \<Rightarrow> bool" where
  "IsLoopback ip \<longleftrightarrow> (case To4 ip of Some ip4 \<Rightarrow> ip4 ! 0 = 127 | None \<Rightarrow> ip_Equal ip (replicate 15 0 @ [1]))"

definition IsPrivate :: "ip \<Rightarrow> bool" where
  "IsPrivate ip \<longleftrightarrow>
     (case To4 ip of
        Some ip4 \<Rightarrow> ip4 ! 0 = 10 \<or> ip4 ! 0 = 172 \<and> ip4 ! 1 AND 0xF0 = 16 \<or> ip4 ! 0 = 192 \<and> ip4 ! 1 = 168
      | None \<Rightarrow> length ip = 16 \<and> ip ! 0 AND 0xFE = 0xFC)"

definition IsLinkLocalUnicast :: "ip \<Rightarrow> bool" where
  "IsLinkLocalUnicast ip \<longleftrightarrow>
     (case To4 ip of
        Some ip4 \<Rightarrow> ip4 ! 0 = 169 \<and> ip4 ! 1 = 254
      | None \<Rightarrow> length ip = 16 \<and> ip ! 0 = 0xFE \<and> ip ! 1 AND 0xC0 = 0x80)"

definition IsLinkLocalMulticast :: "ip \<Rightarrow> bool" where
  "IsLinkLocalMulticast ip \<longleftrightarrow>
     (case To4 ip of
        Some ip4 \<Rightarrow> ip4 ! 0 = 224 \<and> ip4 ! 1 = 0 \<and> ip4 ! 2 = 0
      | None \<Rightarrow> length ip = 16 \<and> ip ! 0 = 0xFF \<and> ip ! 1 AND 0x0F = 0x02)"

definition IsMulticast :: "ip \<Rightarrow> bool" where
  "IsMulticast ip \<longleftrightarrow>
     (case To4 ip of
        Some ip4 \<Rightarrow> ip4 ! 0 AND 0xF0 = 0xE0
      | None \<Rightarrow> length ip = 16 \<and> ip ! 0 = 0xFF)"

definition IsUnspecified :: "ip \<Rightarrow> bool" where
  "IsUnspecified ip \<longleftrightarrow> ip_Equal ip (v4InV6Prefix @ [0, 0, 0, 0]) \<or> ip_Equal ip (replicate 16 0)"

definition isDisallowedIP :: "ip \<Rightarrow> bool" where
  "isDisallowedIP ip \<longleftrightarrow>
     (if ip = [] then True
      else let ip = (case To4 ip of Some v4 \<Rightarrow> v4 | None \<Rightarrow> ip)
           in IsLoopback ip \<or> IsPrivate ip \<or> IsLinkLocalUnicast ip \<or> IsLinkLocalMulticast ip \<or> IsMulticast ip
              \<or> IsUnspecified ip)"

definition allowPrivateTargets :: "env \<Rightarrow> bool" where
  "allowPrivateTargets env = GetEnvAsBoolOrDefault env ''UPLOAD_URL_ALLOW_PRIVATE'' False"

text \<open>The parts of a parsed URL the service reads; \<open>parseURL\<close> and \<open>ParseIP\<close> are Go's.\<close>

record parsed_url =
  u_Scheme :: string
  u_Host :: string
  u_Hostname :: string
  u_Path :: string

definition http_scheme :: "string \<Rightarrow> bool" where
  "http_scheme s \<longleftrightarrow> s = ''http'' \<or> s = ''https''"

definition ValidateUploadURL ::
  "env \<Rightarrow> (string \<Rightarrow> parsed_url option) \<Rightarrow> (string \<Rightarrow> ip option) \<Rightarrow> string \<Rightarrow> gerror option" where
  "ValidateUploadURL env parseURL ParseIP rawURL =
     (case parseURL rawURL of
        None \<Rightarrow> Some (ErrorString ''invalid url'')
      | Some u \<Rightarrow>
          (if \<not> http_scheme (u_Scheme u) then Some (ErrorString ''unsupported url scheme: only http and https are allowed'')
           else if u_Hostname u = '''' then Some (ErrorString ''invalid url: missing host'')
           else if allowPrivateTargets env then None
           else (case ParseIP (u_Hostname u) of
                   Some ip \<Rightarrow> (if isDisallowedIP ip then Some (ErrorString ''url resolves to a disallowed address'') else None)
                 | None \<Rightarrow> None)))"

section \<open>The fetching client\<close>

text \<open>
  \<open>NewSafeHTTPClient\<close>: \<open>dial_control\<close> is the dialer's \<open>Control\<close>, \<open>CheckRedirect\<close> the client's policy.  The
  network is a parameter: for a request it names the address the dialer is about to connect to (none
  when an open connection is reused) and, once connected, the answer.
\<close>

datatype http_answer = Redirect parsed_url | Body reader | NetError gerror

record 'w network =
  net_Dial :: "parsed_url \<Rightarrow> 'w \<Rightarrow> string option \<times> 'w"
  net_Answer :: "parsed_url \<Rightarrow> 'w \<Rightarrow> http_answer \<times> 'w"

definition dial_control ::
  "bool \<Rightarrow> (string \<Rightarrow> string option) \<Rightarrow> (string \<Rightarrow> ip option) \<Rightarrow> string \<Rightarrow> gerror option" where
  "dial_control allowPrivate SplitHost ParseIP address =
     (if allowPrivate then None
      else (case SplitHost address of
              None \<Rightarrow> Some (ErrorString ''invalid dial address'')
            | Some host \<Rightarrow>
                (let ip = (case ParseIP host of Some ip \<Rightarrow> ip | None \<Rightarrow> [])
                 in if isDisallowedIP ip then Some (ErrorString ''connection to disallowed address blocked'') else None)))"

definition CheckRedirect :: "parsed_url \<Rightarrow> nat \<Rightarrow> gerror option" where
  "CheckRedirect u via =
     (if 3 \<le> via then Some (ErrorString ''too many redirects'')
      else if \<not> http_scheme (u_Scheme u) then Some (ErrorString ''unsupported redirect scheme'')
      else None)"

text \<open>
  The client's loop, after \<open>via\<close> requests: the body or an error, the addresses connected to, the number of
  requests sent, and the world.  One address is dialled per request; that a dialer may go on to another
  address of the same name when the first one is blocked is left out.
\<close>

function fetch ::
  "bool \<Rightarrow> (string \<Rightarrow> string option) \<Rightarrow> (string \<Rightarrow> ip option) \<Rightarrow> 'w network \<Rightarrow> parsed_url \<Rightarrow> nat \<Rightarrow> 'w
     \<Rightarrow> reader result \<times> string list \<times> nat \<times> 'w" where
  "fetch allowPrivate SplitHost ParseIP net u via w =
     (case net_Dial net u w of
        (target, w1) \<Rightarrow>
          (case (case target of None \<Rightarrow> None | Some address \<Rightarrow> dial_control allowPrivate SplitHost ParseIP address) of
             Some e \<Rightarrow> (Inl e, [], via, w1)
           | None \<Rightarrow>
               (let connected = (case target of None \<Rightarrow> [] | Some address \<Rightarrow> [address]) in
                case net_Answer net u w1 of
                  (Body b, w2) \<Rightarrow> (Inr b, connected, Suc via, w2)
                | (NetError e, w2) \<Rightarrow> (Inl e, connected, Suc via, w2)
                | (Redirect u', w2) \<Rightarrow>
                    (case CheckRedirect u' (Suc via) of
                       Some e \<Rightarrow> (Inl e, connected, Suc via, w2)
                     | None \<Rightarrow>
                         (case fetch allowPrivate SplitHost ParseIP net u' (Suc via) w2 of
                            (answer, rest, n, w3) \<Rightarrow> (answer, connected @ rest, n, w3))))))"
  by pat_completeness auto
termination
  by (relation "measure (\<lambda>(_, _, _, _, _, via, _). 3 - via)") (auto simp: CheckRedirect_def split: if_splits)

declare fetch.simps [simp del]

section \<open>Bytes\<close>

lemma int_masks:
  "list_all (\<lambda>n. (n AND 0xE0 = (0xC0 :: int) \<longleftrightarrow> 0xC0 \<le> n \<and> n \<le> 0xDF) \<and>
      (n AND 0xF0 = 0xE0 \<longleftrightarrow> 0xE0 \<le> n \<and> n \<le> 0xEF) \<and>
      (n AND 0xF8 = 0xF0 \<longleftrightarrow> 0xF0 \<le> n \<and> n \<le> 0xF7) \<and>
      (n AND 0xC0 = 0x80 \<longleftrightarrow> 0x80 \<le> n \<and> n \<le> 0xBF) \<and>
      (n AND 0xF0 = 16 \<longleftrightarrow> 16 \<le> n \<and> n \<le> 31)) [0..255]"
  by (simp add: upto_rec_numeral upto.simps)

lemma byte_masks:
  "(b :: 8 word) AND 0xE0 = 0xC0 \<longleftrightarrow> 0xC0 \<le> unat b \<and> unat b \<le> 0xDF"
  "b AND 0xF0 = 0xE0 \<longleftrightarrow> 0xE0 \<le> unat b \<and> unat b \<le> 0xEF"
  "b AND 0xF8 = 0xF0 \<longleftrightarrow> 0xF0 \<le> unat b \<and> unat b \<le> 0xF7"
  "b AND 0xC0 = 0x80 \<longleftrightarrow> 0x80 \<le> unat b \<and> unat b \<le> 0xBF"
  "b AND 0xF0 = 16 \<longleftrightarrow> 16 \<le> unat b \<and> unat b \<le> 31"
proof -
  have "0 \<le> uint b" "uint b \<le> 255" using unsigned_less [of b, where ?'a = int] by simp_all
  then have "uint b \<in> set [0..255]" by simp
  with int_masks have masks: "(uint b AND 0xE0 = 0xC0 \<longleftrightarrow> 0xC0 \<le> uint b \<and> uint b \<le> 0xDF) \<and>
      (uint b AND 0xF0 = 0xE0 \<longleftrightarrow> 0xE0 \<le> uint b \<and> uint b \<le> 0xEF) \<and>
      (uint b AND 0xF8 = 0xF0 \<longleftrightarrow> 0xF0 \<le> uint b \<and> uint b \<le> 0xF7) \<and>
      (uint b AND 0xC0 = 0x80 \<longleftrightarrow> 0x80 \<le> uint b \<and> uint b \<le> 0xBF) \<and>
      (uint b AND 0xF0 = 16 \<longleftrightarrow> 16 \<le> uint b \<and> uint b \<le> 31)" unfolding list_all_iff by blast
  have le: "(numeral k \<le> uint b) = (numeral k \<le> unat b)" "(uint b \<le> numeral k) = (unat b \<le> numeral k)" for k
    unfolding uint_nat by (metis of_nat_le_iff of_nat_numeral)+
  note eq = word_uint_eq_iff unsigned_and_eq
  show "b AND 0xE0 = 0xC0 \<longleftrightarrow> 0xC0 \<le> unat b \<and> unat b \<le> 0xDF" using masks unfolding eq by (simp add: le)
  show "b AND 0xF0 = 0xE0 \<longleftrightarrow> 0xE0 \<le> unat b \<and> unat b \<le> 0xEF" using masks unfolding eq by (simp add: le)
  show "b AND 0xF8 = 0xF0 \<longleftrightarrow> 0xF0 \<le> unat b \<and> unat b \<le> 0xF7" using masks unfolding eq by (simp add: le)
  show "b AND 0xC0 = 0x80 \<longleftrightarrow> 0x80 \<le> unat b \<and> unat b \<le> 0xBF" using masks unfolding eq by (simp add: le)
  show "b AND 0xF0 = 16 \<longleftrightarrow> 16 \<le> unat b \<and> unat b \<le> 31" using masks unfolding eq by (simp add: le)
qed
lemma sequence_size_iff:
  "sequence_size b =
     (if 0xC0 \<le> unat b \<and> unat b \<le> 0xDF then Some 2 else if 0xE0 \<le> unat b \<and> unat b \<le> 0xEF then Some 3
      else if 0xF0 \<le> unat b \<and> unat b \<le> 0xF7 then Some 4 else None)"
  by (simp add: sequence_size_def byte_masks)

lemma compareBytes_eq [simp]: "compareBytes a b \<longleftrightarrow> a = b"
  unfolding compareBytes_def by (metis (no_types, lifting) list_all2_eq list_all2_iff list_all_iff)

section \<open>UTF-8\<close>

text \<open>The reference: Go's own \<open>utf8.Valid\<close>, which finds no byte that decodes to an error.\<close>

abbreviation chars :: "bytes \<Rightarrow> string" where
  "chars content \<equiv> map (\<lambda>b. char_of (unat b)) content"

function utf8_Valid :: "string \<Rightarrow> bool" where
  "utf8_Valid s =
     (if s = [] then True
      else if DecodeRune s = (RuneError, 1) then False
      else utf8_Valid (drop (snd (DecodeRune s)) s))"
  by pat_completeness auto
termination
  by (relation "measure length") (use DecodeRune_width in auto)

declare utf8_Valid.simps [simp del]

lemma byte_of_unat [simp]: "byte_of (char_of (unat (b :: 8 word))) = unat b"
proof -
  have "unat b < 256" using unsigned_less [of b, where ?'a = nat] by simp
  then show ?thesis by (simp add: byte_of_def)
qed

lemma byte_of_char_of [simp]: "n < 256 \<Longrightarrow> byte_of (char_of n) = n"
  by (simp add: byte_of_def)

lemma decoded_sequence:
  assumes "DecodeRune (chars (b # bs)) = (r, n)" and "(r, n) \<noteq> (RuneError, 1)" and "0x80 \<le> unat b"
  shows "sequence_size b = Some n \<and> n \<le> length (b # bs) \<and> list_all is_continuation (take (n - 1) bs)"
proof -
  have cont: "is_continuation c \<longleftrightarrow> 0x80 \<le> unat c \<and> unat c \<le> 0xBF" for c
    by (simp add: is_continuation_def byte_masks)
  have second: "second_ok k (char_of (unat c)) \<Longrightarrow> is_continuation c" for k c
    by (auto simp: second_ok_def continuation_def cont split: if_splits)
  have third: "continuation (char_of (unat c)) \<longleftrightarrow> is_continuation c" for c
    by (simp add: continuation_def cont)
  show ?thesis
  proof (cases bs)
    case Nil
    with assms show ?thesis by (auto simp: DecodeRune_def Let_def split: if_splits)
  next
    case b1: (Cons c1 bs1)
    show ?thesis
    proof (cases bs1)
      case Nil
      with b1 assms show ?thesis
        by (auto simp: DecodeRune_def Let_def sequence_size_iff dest: second split: if_splits)
    next
      case b2: (Cons c2 bs2)
      with b1 assms show ?thesis
        by (cases bs2) (auto simp: DecodeRune_def Let_def sequence_size_iff third dest: second split: if_splits)
    qed
  qed
qed

lemma valid_utf8_accepted: "utf8_Valid (chars content) \<Longrightarrow> isValidUTF8 content"
proof (induction content rule: isValidUTF8.induct)
  case 1
  then show ?case by simp
next
  case (2 b bs)
  show ?case
  proof (cases "unat b < 0x80")
    case True
    then have "b < 0x80" by (simp add: word_less_nat_alt)
    moreover from 2(3) have "utf8_Valid (chars bs)"
      by (subst (asm) utf8_Valid.simps) (auto simp: DecodeRune_def True split: if_splits)
    ultimately show ?thesis using 2(1) by simp
  next
    case False
    then have "\<not> b < 0x80" by (simp add: word_less_nat_alt)
    obtain r n where d: "DecodeRune (chars (b # bs)) = (r, n)" by (metis surj_pair)
    from 2(3) d have ok: "(r, n) \<noteq> (RuneError, 1)" and rest: "utf8_Valid (drop n (chars (b # bs)))"
      by (subst (asm) utf8_Valid.simps, auto split: if_splits)+
    from decoded_sequence [OF d ok] False have s: "sequence_size b = Some n" "n \<le> length (b # bs)"
      "list_all is_continuation (take (n - 1) bs)" by auto
    from s(1) have "1 \<le> n" by (auto simp: sequence_size_iff split: if_splits)
    then have "drop n (chars (b # bs)) = chars (drop (n - 1) bs)" by (cases n) (auto simp: drop_map)
    with 2(2) [OF \<open>\<not> b < 0x80\<close> s(1)] s \<open>\<not> b < 0x80\<close> rest show ?thesis by simp
  qed
qed

section \<open>Properties\<close>

text \<open>
  The hand-written UTF-8 check never refuses a valid text, but it is not the standard's: it
  also takes overlong encodings (0xC0 0xAF for a slash), encoded surrogates and lead bytes
  beyond U+10FFFF, which \<open>utf8.Valid\<close> refuses.
\<close>

theorem utf8_check_lenient:
  "(utf8_Valid (chars content) \<longrightarrow> isValidUTF8 content) \<and>
   (\<forall>bad\<in>{[0xC0, 0xAF], [0xED, 0xA0, 0x80], [0xF5, 0x80, 0x80, 0x80]}. isValidUTF8Text bad \<and> \<not> utf8_Valid (chars bad))"
proof -
  have "\<not> utf8_Valid (chars [0xC0, 0xAF])" "\<not> utf8_Valid (chars [0xED, 0xA0, 0x80])"
    "\<not> utf8_Valid (chars [0xF5, 0x80, 0x80, 0x80])"
    by (simp_all add: utf8_Valid.simps DecodeRune_def second_ok_def)
  moreover have "isValidUTF8Text [0xC0, 0xAF]" "isValidUTF8Text [0xED, 0xA0, 0x80]" "isValidUTF8Text [0xF5, 0x80, 0x80, 0x80]"
    by (simp_all add: isValidUTF8Text_def sequence_size_iff is_continuation_def byte_masks)
  ultimately show ?thesis using valid_utf8_accepted [of content] by blast
qed

theorem utf8_check_lenient_witness:
  "isValidUTF8 [0xC3, 0xA7] \<and> isValidUTF8Text [0xC0, 0xAF]"
proof -
  have "utf8_Valid (chars [0xC3, 0xA7])"
    by (simp add: utf8_Valid.simps DecodeRune_def second_ok_def continuation_def RuneError_def)
  with utf8_check_lenient [of "[0xC3, 0xA7]"] show ?thesis by blast
qed

lemma disallowed_v4:
  "(isDisallowedIP [a, b, c, d] \<longleftrightarrow>
      a = 127 \<or> a = 10 \<or> a = 172 \<and> 16 \<le> unat b \<and> unat b \<le> 31 \<or> a = 192 \<and> b = 168 \<or>
      a = 169 \<and> b = 254 \<or> 224 \<le> unat a \<and> unat a \<le> 239 \<or> a = 0 \<and> b = 0 \<and> c = 0 \<and> d = 0) \<and>
   isDisallowedIP (v4InV6Prefix @ [a, b, c, d]) = isDisallowedIP [a, b, c, d]"
proof
  have four: "To4 [a, b, c, d] = Some [a, b, c, d]" by (simp add: To4_def)
  have multi: "a = 224 \<and> b = 0 \<and> c = 0 \<Longrightarrow> 224 \<le> unat a \<and> unat a \<le> 239" by simp
  have zero: "IsUnspecified [a, b, c, d] \<longleftrightarrow> a = 0 \<and> b = 0 \<and> c = 0 \<and> d = 0"
    by (auto simp: IsUnspecified_def ip_Equal_def v4InV6Prefix_def numeral_eq_Suc)
  show "isDisallowedIP [a, b, c, d] \<longleftrightarrow>
      a = 127 \<or> a = 10 \<or> a = 172 \<and> 16 \<le> unat b \<and> unat b \<le> 31 \<or> a = 192 \<and> b = 168 \<or>
      a = 169 \<and> b = 254 \<or> 224 \<le> unat a \<and> unat a \<le> 239 \<or> a = 0 \<and> b = 0 \<and> c = 0 \<and> d = 0"
  proof -
    have "IsLoopback [a, b, c, d] \<longleftrightarrow> a = 127" by (simp add: IsLoopback_def four)
    moreover have "IsPrivate [a, b, c, d] \<longleftrightarrow>
        a = 10 \<or> a = 172 \<and> 16 \<le> unat b \<and> unat b \<le> 31 \<or> a = 192 \<and> b = 168"
      by (simp add: IsPrivate_def four byte_masks)
    moreover have "IsLinkLocalUnicast [a, b, c, d] \<longleftrightarrow> a = 169 \<and> b = 254" by (simp add: IsLinkLocalUnicast_def four)
    moreover have "IsLinkLocalMulticast [a, b, c, d] \<longleftrightarrow> a = 224 \<and> b = 0 \<and> c = 0"
      by (simp add: IsLinkLocalMulticast_def four)
    moreover have "IsMulticast [a, b, c, d] \<longleftrightarrow> 224 \<le> unat a \<and> unat a \<le> 239" by (simp add: IsMulticast_def four byte_masks)
    moreover have "isDisallowedIP [a, b, c, d] \<longleftrightarrow> IsLoopback [a, b, c, d] \<or> IsPrivate [a, b, c, d] \<or>
        IsLinkLocalUnicast [a, b, c, d] \<or> IsLinkLocalMulticast [a, b, c, d] \<or> IsMulticast [a, b, c, d] \<or> IsUnspecified [a, b, c, d]"
      by (simp add: isDisallowedIP_def four Let_def)
    ultimately show ?thesis using multi zero by argo
  qed
  show "isDisallowedIP (v4InV6Prefix @ [a, b, c, d]) = isDisallowedIP [a, b, c, d]"
    by (simp add: isDisallowedIP_def To4_def v4InV6Prefix_def)
qed

text \<open>
  For an IPv4 address, plain or mapped into IPv6, the fetch guard refuses exactly loopback,
  the three private ranges, link-local (with the cloud metadata address), multicast and 0.0.0.0.
\<close>

theorem disallowed_ipv4_ranges:
  "(isDisallowedIP [a, b, c, d] \<longleftrightarrow>
      a = 127 \<or> a = 10 \<or> a = 172 \<and> 16 \<le> unat b \<and> unat b \<le> 31 \<or> a = 192 \<and> b = 168 \<or>
      a = 169 \<and> b = 254 \<or> 224 \<le> unat a \<and> unat a \<le> 239 \<or> a = 0 \<and> b = 0 \<and> c = 0 \<and> d = 0) \<and>
   isDisallowedIP (v4InV6Prefix @ [a, b, c, d]) = isDisallowedIP [a, b, c, d]"
  by (rule disallowed_v4)

lemma disallowed_nil [simp]: "isDisallowedIP []"
  by (simp add: isDisallowedIP_def)

lemma dial_control_passes:
  "dial_control False SplitHost ParseIP address = None \<Longrightarrow>
   \<exists>host ip. SplitHost address = Some host \<and> ParseIP host = Some ip \<and> \<not> isDisallowedIP ip"
  by (auto simp: dial_control_def Let_def split: option.splits if_splits)

lemma fetch_step:
  assumes "fetch allowPrivate SplitHost ParseIP net u via w = (answer, connected, n, w')"
  obtains (blocked) "connected = []" "n = via"
  | (answered) target where "connected = (case target of None \<Rightarrow> [] | Some address \<Rightarrow> [address])" "n = Suc via"
      "\<And>address. target = Some address \<Longrightarrow> dial_control allowPrivate SplitHost ParseIP address = None"
  | (followed) target u' w2 rest where
      "connected = (case target of None \<Rightarrow> [] | Some address \<Rightarrow> [address]) @ rest" "Suc via < 3"
      "\<And>address. target = Some address \<Longrightarrow> dial_control allowPrivate SplitHost ParseIP address = None"
      "fetch allowPrivate SplitHost ParseIP net u' (Suc via) w2 = (answer, rest, n, w')"
proof -
  obtain target w1 where d: "net_Dial net u w = (target, w1)" by (metis surj_pair)
  let ?control = "case target of None \<Rightarrow> None | Some address \<Rightarrow> dial_control allowPrivate SplitHost ParseIP address"
  show thesis
  proof (cases ?control)
    case (Some e)
    with assms d have "connected = []" "n = via" by (subst (asm) fetch.simps, simp)+
    then show ?thesis by (rule blocked)
  next
    case None
    then have ok: "\<And>address. target = Some address \<Longrightarrow> dial_control allowPrivate SplitHost ParseIP address = None" by simp
    obtain a w2 where a: "net_Answer net u w1 = (a, w2)" by (metis surj_pair)
    show ?thesis
    proof (cases "\<exists>u'. a = Redirect u' \<and> CheckRedirect u' (Suc via) = None")
      case True
      then obtain u' where u': "a = Redirect u'" "CheckRedirect u' (Suc via) = None" by blast
      obtain x y z v where f: "fetch allowPrivate SplitHost ParseIP net u' (Suc via) w2 = (x, y, z, v)" by (metis surj_pair)
      from u'(2) have "Suc via < 3" by (auto simp: CheckRedirect_def split: if_splits)
      with assms d None a u' f ok show ?thesis
        by (subst (asm) fetch.simps) (auto simp: Let_def intro: followed [of target y])
    next
      case False
      with assms d None a have "connected = (case target of None \<Rightarrow> [] | Some address \<Rightarrow> [address])" "n = Suc via"
        by (subst (asm) fetch.simps, auto simp: Let_def split: http_answer.splits option.splits)+
      with ok show ?thesis by (intro answered [of target]) auto
    qed
  qed
qed

lemma fetch_bounds:
  "fetch allowPrivate SplitHost ParseIP net u via w = (answer, connected, n, w') \<Longrightarrow> via < 3 \<Longrightarrow>
   n \<le> 3 \<and> length connected + via \<le> n \<and>
   (\<forall>address\<in>set connected. dial_control allowPrivate SplitHost ParseIP address = None)"
proof (induction "3 - via" arbitrary: u via w connected rule: less_induct)
  case less
  from less.prems(1) show ?case
  proof (cases rule: fetch_step)
    case blocked
    with less.prems show ?thesis by simp
  next
    case (answered target)
    with less.prems show ?thesis by (cases target) auto
  next
    case (followed target u' w2 rest)
    then have "3 - Suc via < 3 - via" by simp
    with less.hyps [OF _ followed(4) followed(2)] followed(1,3) show ?thesis by (cases target) auto
  qed
qed

text \<open>One request as the network answers it, \<open>None\<close> when the dialer blocks it, and \<open>k\<close> permitted redirects in a row.\<close>

definition one_request ::
  "bool \<Rightarrow> (string \<Rightarrow> string option) \<Rightarrow> (string \<Rightarrow> ip option) \<Rightarrow> 'w network \<Rightarrow> parsed_url \<Rightarrow> 'w
     \<Rightarrow> (http_answer \<times> 'w) option" where
  "one_request allowPrivate SplitHost ParseIP net u w =
     (case net_Dial net u w of
        (target, w1) \<Rightarrow>
          (case (case target of None \<Rightarrow> None | Some address \<Rightarrow> dial_control allowPrivate SplitHost ParseIP address) of
             Some e \<Rightarrow> None
           | None \<Rightarrow> Some (net_Answer net u w1)))"

fun redirected ::
  "(parsed_url \<Rightarrow> 'w \<Rightarrow> (http_answer \<times> 'w) option) \<Rightarrow> nat \<Rightarrow> parsed_url \<Rightarrow> 'w \<Rightarrow> (parsed_url \<times> 'w) option" where
  "redirected request 0 u w = Some (u, w)"
| "redirected request (Suc k) u w =
     (case request u w of
        Some (Redirect u', w') \<Rightarrow> (if u_Scheme u' \<in> {''http'', ''https''} then redirected request k u' w' else None)
      | _ \<Rightarrow> None)"

lemma fetch_answered:
  assumes "one_request allowPrivate SplitHost ParseIP net u w = Some (a, w2)"
  shows "\<exists>connected. fetch allowPrivate SplitHost ParseIP net u via w =
    (case a of
       Body b \<Rightarrow> (Inr b, connected, Suc via, w2)
     | NetError e \<Rightarrow> (Inl e, connected, Suc via, w2)
     | Redirect u' \<Rightarrow>
         (case CheckRedirect u' (Suc via) of
            Some e \<Rightarrow> (Inl e, connected, Suc via, w2)
          | None \<Rightarrow>
              (case fetch allowPrivate SplitHost ParseIP net u' (Suc via) w2 of
                 (answer, rest, n, w3) \<Rightarrow> (answer, connected @ rest, n, w3))))"
  using assms
  by (subst fetch.simps)
    (auto simp: one_request_def Let_def split: prod.splits option.splits http_answer.splits)

lemma fetch_redirected:
  assumes "redirected (one_request allowPrivate SplitHost ParseIP net) k u w = Some (v, wv)" and "via + k \<le> 2"
    and "fetch allowPrivate SplitHost ParseIP net u via w = (answer, connected, n, w')"
  shows "\<exists>rest. fetch allowPrivate SplitHost ParseIP net v (via + k) wv = (answer, rest, n, w')"
  using assms
proof (induction k arbitrary: u w via connected)
  case (Suc k)
  let ?rq = "one_request allowPrivate SplitHost ParseIP net"
  obtain u' w2 where r: "?rq u w = Some (Redirect u', w2)" "u_Scheme u' \<in> {''http'', ''https''}"
      "redirected ?rq k u' w2 = Some (v, wv)"
    using Suc.prems(1) by (auto split: option.splits http_answer.splits prod.splits if_splits)
  have ok: "CheckRedirect u' (Suc via) = None" using r(2) Suc.prems(2) by (auto simp: CheckRedirect_def http_scheme_def)
  obtain a2 rest n2 w3 where f: "fetch allowPrivate SplitHost ParseIP net u' (Suc via) w2 = (a2, rest, n2, w3)" by (metis surj_pair)
  have "a2 = answer" "n2 = n" "w3 = w'" using fetch_answered [OF r(1), of via] ok f Suc.prems(3) by auto
  then have f: "fetch allowPrivate SplitHost ParseIP net u' (Suc via) w2 = (answer, rest, n, w')" using f by simp
  show ?case using Suc.IH [OF r(3) _ f] Suc.prems(2) by simp
qed auto

text \<open>
  Property C18.  The fetch cannot be steered inside, and works outside.  Whatever the names resolve to at
  the moment of connecting and wherever redirects lead, every address connected to is one that
  passed the range check, unless private targets are allowed, and at most three requests are
  sent.  Up to two redirects to HTTP or HTTPS, with nothing blocked on the way, are followed, and
  the body at their end is what is fetched; the third one is refused.
\<close>

theorem fetch_stays_outside:
  assumes "fetch allowPrivate SplitHost ParseIP net u 0 w = (answer, connected, n, w')"
  shows "n \<le> 3 \<and> length connected \<le> n \<and>
         (\<not> allowPrivate \<longrightarrow> (\<forall>address\<in>set connected.
            \<exists>host ip. SplitHost address = Some host \<and> ParseIP host = Some ip \<and> \<not> isDisallowedIP ip)) \<and>
         (\<forall>k v wv. k \<le> 2 \<longrightarrow> redirected (one_request allowPrivate SplitHost ParseIP net) k u w = Some (v, wv) \<longrightarrow>
            (\<forall>b w2. one_request allowPrivate SplitHost ParseIP net v wv = Some (Body b, w2) \<longrightarrow>
               answer = Inr b \<and> n = k + 1 \<and> w' = w2) \<and>
            (\<forall>u' w2. one_request allowPrivate SplitHost ParseIP net v wv = Some (Redirect u', w2) \<longrightarrow> k = 2 \<longrightarrow>
               answer = Inl (ErrorString ''too many redirects'') \<and> n = 3 \<and> w' = w2))"
proof -
  let ?rq = "one_request allowPrivate SplitHost ParseIP net"
  have "answer = Inr b \<and> n = k + 1 \<and> w' = w2"
    if "k \<le> 2" "redirected ?rq k u w = Some (v, wv)" "?rq v wv = Some (Body b, w2)" for k v wv b w2
    using fetch_redirected [OF that(2) _ assms] that(1) fetch_answered [OF that(3), of k] by auto
  moreover have "answer = Inl (ErrorString ''too many redirects'') \<and> n = 3 \<and> w' = w2"
    if "redirected ?rq 2 u w = Some (v, wv)" "?rq v wv = Some (Redirect u', w2)" for v wv u' w2
    using fetch_redirected [OF that(1) _ assms] fetch_answered [OF that(2), of 2] by (auto simp: CheckRedirect_def numeral_2_eq_2)
  ultimately show ?thesis using fetch_bounds [OF assms] dial_control_passes by (cases allowPrivate) auto
qed

text \<open>A public site that redirects to the metadata address: one request is sent, the second never is.\<close>

definition trap :: "nat network" where
  "trap = \<lparr> net_Dial = (\<lambda>u w. (Some (if w = 0 then ''public'' else ''metadata''), Suc w)),
     net_Answer = (\<lambda>u w. (Redirect u, w)) \<rparr>"

definition trap_ip :: "string \<Rightarrow> ip option" where
  "trap_ip host = Some (if host = ''public'' then [93, 184, 216, 34] else [169, 254, 169, 254])"

definition trap_url :: parsed_url where
  "trap_url = \<lparr> u_Scheme = ''http'', u_Host = ''x'', u_Hostname = ''x'', u_Path = '''' \<rparr>"

text \<open>A public site that redirects twice before it answers.\<close>

definition mirror :: "nat network" where
  "mirror = \<lparr> net_Dial = (\<lambda>u w. (Some ''public'', Suc w)),
     net_Answer = (\<lambda>u w. (if w \<le> 2 then Redirect u else Body (whole [7]), w)) \<rparr>"

theorem fetch_stays_outside_witness:
  "(\<exists>answer w'. fetch False Some trap_ip trap trap_url 0 0 = (answer, [''public''], 1, w') \<and>
     \<not> isDisallowedIP [93, 184, 216, 34]) \<and>
   (\<exists>connected w'. fetch False Some trap_ip mirror trap_url 0 0 = (Inr (whole [7]), connected, 3, w'))"
proof -
  have out: "\<not> isDisallowedIP [93, 184, 216, 34]" "isDisallowedIP [169, 254, 169, 254]"
    by (simp_all add: disallowed_v4)
  have run: "fetch False Some trap_ip trap trap_url 0 0 =
      (Inl (ErrorString ''connection to disallowed address blocked''), [''public''], 1, 2)"
    by (simp add: fetch.simps trap_def trap_ip_def trap_url_def dial_control_def out CheckRedirect_def http_scheme_def)
  obtain answer connected n w' where followed: "fetch False Some trap_ip mirror trap_url 0 0 = (answer, connected, n, w')"
    by (metis surj_pair)
  have "redirected (one_request False Some trap_ip mirror) 2 trap_url 0 = Some (trap_url, 2)"
    "one_request False Some trap_ip mirror trap_url 2 = Some (Body (whole [7]), 3)"
    by (simp_all add: numeral_2_eq_2 one_request_def mirror_def trap_ip_def trap_url_def dial_control_def out)
  with fetch_stays_outside [OF followed, THEN conjunct2, THEN conjunct2, THEN conjunct2, rule_format, of 2]
  have "answer = Inr (whole [7]) \<and> n = 3" by simp
  with fetch_stays_outside [OF run] run out followed show ?thesis by (simp add: trap_ip_def)
qed

text \<open>
  The two upload routes do not accept the same types: the extensions a URL upload accepts
  and a file upload refuses are exactly these five, and the types only a file upload takes
  include every audio and video format.
\<close>

theorem url_uploads_differ:
  "{e \<in> set validExtensions. CHR ''.'' # e \<notin> set AllowedFileFormats} = {''dwg'', ''dxf'', ''rar'', ''7z'', ''txt''} \<and>
   {''.wav'', ''.mp3'', ''.mp4'', ''.mov'', ''.3gp'', ''.avi''} \<subseteq>
     {f \<in> set AllowedFileFormats. \<not> IsValidExtension (tl f)}"
  by (auto simp: validExtensions_def AllowedFileFormats_def IsValidExtension_def lower_byte_def)

end
