(* ===== verification/Archive_Handler.thy ===== *)
theory Archive_Handler
  imports Tiering Access_Control File_Validation
begin

text \<open>
  \<open>handler/archive.go\<close>: the on-demand archiving endpoint, from the request body to the per-file
  results and their summary.  The parsed body, the struct validator, \<open>url.Parse\<close> and \<open>strings.EqualFold\<close>
  are parameters.  The batch is run one file after the other, in the order of the request; the
  Go code runs up to ten at a time and stores each result under its file's index.
\<close>

section \<open>Responses\<close>

text \<open>\<open>service.Response\<close>: status, success flag, message and data.\<close>

record 'd http_response =
  hr_Status :: nat
  hr_Success :: bool
  hr_Message :: string
  hr_Data :: "'d option"

definition Response :: "nat \<Rightarrow> bool \<Rightarrow> string \<Rightarrow> 'd option \<Rightarrow> 'd http_response" where
  "Response code success message data =
     \<lparr> hr_Status = code, hr_Success = success, hr_Message = message, hr_Data = data \<rparr>"

abbreviation bad_request :: "string \<Rightarrow> 'd http_response" where
  "bad_request message \<equiv> Response 400 False message None"

definition forbidden :: "'d http_response" where
  "forbidden = Response 403 False ''token is not allowed to access this bucket'' None"

lemma Response_sel [simp]:
  "hr_Status (Response c s m d) = c" "hr_Success (Response c s m d) = s" "hr_Data (Response c s m d) = d"
  by (simp_all add: Response_def)

section \<open>Object keys of a request\<close>

record url_lib =
  ul_Parse :: "string \<Rightarrow> parsed_url option"
  ul_EqualFold :: "string \<Rightarrow> string \<Rightarrow> bool"

definition keyFromURL :: "url_lib \<Rightarrow> env \<Rightarrow> string \<Rightarrow> string \<Rightarrow> string result" where
  "keyFromURL lib env raw bucket =
     (case ul_Parse lib raw of
        None \<Rightarrow> Inl (ErrorString ''malformed URL'')
      | Some parsed \<Rightarrow>
          (if (case ul_Parse lib (GetEnvOrDefault env ''APP_URL'' ''http://localhost:9090'') of
                 Some appURL \<Rightarrow> u_Host appURL \<noteq> '''' \<and> \<not> ul_EqualFold lib (u_Host parsed) (u_Host appURL)
               | None \<Rightarrow> False)
           then Inl (ErrorString ''URL host does not belong to this CDN'')
           else
             (let path = TrimPrefix (u_Path parsed) ''/''; pfx = bucket @ ''/'' in
              if \<not> HasPrefix path pfx then Inl (ErrorString ''URL does not point at bucket'')
              else Inr (TrimPrefix path pfx))))"

definition normalizeObjectKey :: "url_lib \<Rightarrow> env \<Rightarrow> string \<Rightarrow> string \<Rightarrow> string result" where
  "normalizeObjectKey lib env raw bucket =
     (let val = TrimSpace raw in
      if val = '''' then Inl (ErrorString ''empty file reference'')
      else
        (case (if HasPrefix val ''http://'' \<or> HasPrefix val ''https://'' then keyFromURL lib env val bucket else Inr val) of
           Inl err \<Rightarrow> Inl err
         | Inr val \<Rightarrow>
             (let val = TrimPrefix val ''/'' in
              if val = '''' then Inl (ErrorString ''no object key'')
              else if HasUnsafeObjectKey val then Inl (ErrorString ''invalid object key'')
              else Inr val)))"

section \<open>The batch\<close>

record archive_entry =
  ae_File :: string
  ae_Object :: "string option"
  ae_Status :: TierOutcome
  ae_Size :: "int option"
  ae_Error :: "gerror option"

definition archive_one ::
  "url_lib \<Rightarrow> env \<Rightarrow> 'w Tiering \<Rightarrow> string \<Rightarrow> bool \<Rightarrow> string \<Rightarrow> 'w \<Rightarrow> archive_entry \<times> 'w" where
  "archive_one lib env t bucket evict name w =
     (case normalizeObjectKey lib env name bucket of
        Inl err \<Rightarrow>
          (\<lparr> ae_File = name, ae_Object = None, ae_Status = TierFailed, ae_Size = None, ae_Error = Some err \<rparr>, w)
      | Inr key \<Rightarrow>
          (case ArchiveObject t bucket key evict w of
             (res, w') \<Rightarrow>
               (\<lparr> ae_File = name, ae_Object = Some key, ae_Status = tr_Outcome res,
                  ae_Size = (if 0 < tr_Size res then Some (tr_Size res) else None), ae_Error = tr_Err res \<rparr>, w')))"

fun archiveAll ::
  "url_lib \<Rightarrow> env \<Rightarrow> 'w Tiering \<Rightarrow> string \<Rightarrow> string list \<Rightarrow> bool \<Rightarrow> 'w \<Rightarrow> archive_entry list \<times> 'w" where
  "archiveAll lib env t bucket [] evict w = ([], w)"
| "archiveAll lib env t bucket (name # files) evict w =
     (case archive_one lib env t bucket evict name w of
        (entry, w1) \<Rightarrow>
          (case archiveAll lib env t bucket files evict w1 of (entries, w2) \<Rightarrow> (entry # entries, w2)))"

record archive_summary =
  as_counts :: "TierOutcome \<Rightarrow> nat"
  as_bytes_freed :: int

text \<open>The map holds a counter for these five outcomes only; any other status is not counted.\<close>

definition summary_keys :: "TierOutcome list" where
  "summary_keys = [TierArchived, TierArchivedKept, TierAlreadyArchived, TierNotFound, TierFailed]"

definition summarize_entry :: "archive_entry \<Rightarrow> archive_summary \<Rightarrow> archive_summary" where
  "summarize_entry r s =
     (let s = (if ae_Status r \<in> set summary_keys
               then s\<lparr>as_counts := (as_counts s)(ae_Status r := as_counts s (ae_Status r) + 1)\<rparr> else s)
      in case ae_Size r of
           Some sz \<Rightarrow> (if ae_Status r = TierArchived then s\<lparr>as_bytes_freed := as_bytes_freed s + sz\<rparr> else s)
         | None \<Rightarrow> s)"

definition summarize :: "archive_entry list \<Rightarrow> archive_summary" where
  "summarize results = fold summarize_entry results \<lparr> as_counts = (\<lambda>_. 0), as_bytes_freed = 0 \<rparr>"

section \<open>The endpoint\<close>

record ArchiveRequest =
  aq_Bucket :: string
  aq_Files :: "string list"
  aq_Evict :: "bool option"

text \<open>\<open>body\<close> is what \<open>BodyParser\<close> makes of the request; \<open>validateStruct\<close> is \<open>validator.ValidateStruct\<close>.\<close>

definition ArchiveObjects_handler ::
  "url_lib \<Rightarrow> env \<Rightarrow> (ArchiveRequest \<Rightarrow> string option) \<Rightarrow> 'w Tiering \<Rightarrow> request \<Rightarrow> ArchiveRequest option \<Rightarrow> 'w
     \<Rightarrow> (archive_entry list \<times> archive_summary) http_response \<times> 'w" where
  "ArchiveObjects_handler lib env validateStruct t c body w =
     (case body of
        None \<Rightarrow> (bad_request ''Invalid request body'', w)
      | Some req \<Rightarrow>
          (case validateStruct req of
             Some message \<Rightarrow> (bad_request message, w)
           | None \<Rightarrow>
               (case fst (resolveBucket c (aq_Bucket req)) of
                  Inl err \<Rightarrow> (forbidden, w)
                | Inr bucket \<Rightarrow>
                    (if bucket = '''' then (bad_request ''Bucket is required'', w)
                     else
                       (let maxBatch = GetEnvAsIntOrDefault env ''MAX_BATCH_FILES'' 100 in
                        if 0 < maxBatch \<and> maxBatch < int (length (aq_Files req))
                        then (bad_request ''Too many files in one batch'', w)
                        else if \<not> TierEnabled t
                        then (Response 503 False ''Archive is not configured on this deployment'' None, w)
                        else if \<not> TierInScope t bucket
                        then (bad_request ''Bucket is not in the archive scope on this deployment'', w)
                        else
                          (let evict = (case aq_Evict req of Some e \<Rightarrow> e | None \<Rightarrow> True) in
                           case archiveAll lib env t bucket (aq_Files req) evict w of
                             (results, w') \<Rightarrow> (Response 200 True ''success'' (Some (results, summarize results)), w')))))))"

section \<open>Keys\<close>

lemma normalize_safe: "normalizeObjectKey lib env raw bucket = Inr key \<Longrightarrow> \<not> HasUnsafeObjectKey key"
  by (auto simp: normalizeObjectKey_def Let_def split: if_splits sum.splits)

section \<open>Accounting\<close>

lemma archive_one_file [simp]: "ae_File (fst (archive_one lib env t bucket evict name w)) = name"
  by (auto simp: archive_one_def split: sum.splits prod.splits)

lemma archiveAll_files: "map ae_File (fst (archiveAll lib env t bucket files evict w)) = files"
proof (induction files arbitrary: w)
  case (Cons name files)
  obtain entry w1 where e: "archive_one lib env t bucket evict name w = (entry, w1)" by (metis surj_pair)
  obtain entries w2 where "archiveAll lib env t bucket files evict w1 = (entries, w2)" by (metis surj_pair)
  with e Cons [of w1] archive_one_file [of lib env t bucket evict name w] show ?case by simp
qed simp

lemma summary_mem [simp]:
  "TierArchived \<in> set summary_keys" "TierArchivedKept \<in> set summary_keys" "TierAlreadyArchived \<in> set summary_keys"
  "TierNotFound \<in> set summary_keys" "TierFailed \<in> set summary_keys"
  by (simp_all add: summary_keys_def)

lemma finish_archive_outcome [simp]: "tr_Outcome (fst (finish_archive t b k n evict w)) \<in> set summary_keys"
  by (auto simp: finish_archive_def split: prod.splits option.splits)

lemma ArchiveKnownObject_outcome:
  "TierInScope t b \<Longrightarrow> tr_Outcome (fst (ArchiveKnownObject t b k n evict w)) \<in> set summary_keys"
  by (simp add: ArchiveKnownObject_def split: prod.split option.split)

lemma ArchiveObject_outcome:
  "TierInScope t b \<Longrightarrow> tr_Outcome (fst (ArchiveObject t b k evict w)) \<in> set summary_keys"
  by (simp add: ArchiveObject_def ArchiveKnownObject_outcome split: prod.split sum.split option.split)

lemma archiveAll_outcomes:
  "TierInScope t bucket \<Longrightarrow> r \<in> set (fst (archiveAll lib env t bucket files evict w)) \<Longrightarrow> ae_Status r \<in> set summary_keys"
proof (induction files arbitrary: w)
  case (Cons name files)
  have out: "tr_Outcome res \<in> set summary_keys" if "ArchiveObject t bucket k evict w = (res, w')" for k res w'
    using ArchiveObject_outcome [OF Cons.prems(1), of k evict w] that by simp
  obtain entry w1 where e: "archive_one lib env t bucket evict name w = (entry, w1)" by (metis surj_pair)
  then have "ae_Status entry \<in> set summary_keys"
    using out by (auto simp: archive_one_def split: sum.splits prod.splits)
  moreover obtain entries w2 where "archiveAll lib env t bucket files evict w1 = (entries, w2)" by (metis surj_pair)
  ultimately show ?case using e Cons.IH [OF Cons.prems(1), of w1] Cons.prems(2) by auto
qed simp

definition archived_sizes :: "archive_entry list \<Rightarrow> int" where
  "archived_sizes results =
     sum_list (map (\<lambda>r. if ae_Status r = TierArchived then (case ae_Size r of Some n \<Rightarrow> n | None \<Rightarrow> 0) else 0) results)"

lemma summarize_fold:
  "list_all (\<lambda>r. ae_Status r \<in> set summary_keys) results \<Longrightarrow>
   sum_list (map (as_counts (fold summarize_entry results s)) summary_keys) =
     sum_list (map (as_counts s) summary_keys) + length results \<and>
   as_bytes_freed (fold summarize_entry results s) = as_bytes_freed s + archived_sizes results"
proof (induction results arbitrary: s)
  case Nil
  then show ?case by (simp add: archived_sizes_def)
next
  case (Cons r rs)
  then have "sum_list (map (as_counts (summarize_entry r s)) summary_keys) = sum_list (map (as_counts s) summary_keys) + 1"
    by (auto simp: summarize_entry_def summary_keys_def Let_def split: option.splits)
  moreover have "as_bytes_freed (summarize_entry r s) = as_bytes_freed s + archived_sizes [r]"
    by (auto simp: summarize_entry_def archived_sizes_def Let_def split: option.splits)
  ultimately show ?case using Cons by (simp add: archived_sizes_def)
qed

section \<open>What a batch may remove\<close>

context two_tiers
begin

lemma ArchiveKnownObject_cold_other:
  assumes run: "ArchiveKnownObject (NewTiering S (Some A)) b k n evict w = (res, w')"
    and "slashless b" and "slashless b'" and "(b', k') \<noteq> (b, k)"
  shows "cold w' b' k' = cold w b' k'"
proof (rule ArchiveKnownObject_cases [where I = "\<lambda>v. cold v b' k' = cold w b' k'", OF run refl])
  fix A' w0 w1
  assume "cold w1 b' k' = cold w b' k'"
    and "finish_archive (NewTiering S (Some A)) b k n evict w1 = (res, w')"
  then show ?thesis using finish_archive_hot by metis
next
  fix g w1 w2
  assume "OpenObject (t_store (NewTiering S (Some A))) b k w1 = (g, w2)" "cold w1 b' k' = cold w b' k'"
  then show "cold w2 b' k' = cold w b' k'" using openobj_cold by (metis NewTiering_sel(1))
next
  fix A' r w1 w2
  assume "t_archive (NewTiering S (Some A)) = Some A'" "ar_Stat A' b k w1 = (r, w2)" "cold w1 b' k' = cold w b' k'"
  then show "cold w2 b' k' = cold w b' k'" using stat_frame by (metis NewTiering_sel(2) option.inject)
next
  fix A' rd u w1 w2
  assume "t_archive (NewTiering S (Some A)) = Some A'" "ar_Put A' b k rd w1 = (u, w2)" "cold w1 b' k' = cold w b' k'"
  then show "cold w2 b' k' = cold w b' k'"
    using put_other [of b k rd w1 u w2 b' k'] assms by simp
qed

lemma ArchiveObject_cold_keep:
  assumes run: "ArchiveObject (NewTiering S (Some A)) b k evict w = (res, w')"
    and "slashless b" and "slashless b'" and "(b', k') \<noteq> (b, k) \<or> hot w b k = None"
  shows "cold w' b' k' = cold w b' k'"
proof (cases "ar_Enabled A")
  case False
  with run show ?thesis by (simp add: ArchiveObject_def)
next
  case True
  obtain st w1 where st: "StatObject S b k w = (st, w1)" by fastforce
  show ?thesis
  proof (cases st)
    case (Inl e)
    obtain r w2 where r: "ar_Stat A b k w1 = (r, w2)" by fastforce
    from run st Inl True r have "w' = w2"
      by (auto simp: ArchiveObject_def split: sum.splits)
    then show ?thesis using stat_frame [OF r] statobj_cold [OF st] by simp
  next
    case (Inr info)
    with st statobj_ok have "hot w b k \<noteq> None" by fastforce
    moreover from run st Inr True have "ArchiveKnownObject (NewTiering S (Some A)) b k (oi_Size info) evict w1 = (res, w')"
      by (simp add: ArchiveObject_def)
    ultimately show ?thesis
      using ArchiveKnownObject_cold_other [of b k "oi_Size info" evict w1 res w' b' k'] assms(2-4) statobj_cold [OF st]
      by (cases "(b', k') = (b, k)") auto
  qed
qed

lemma finish_archive_only_removes:
  assumes "finish_archive (NewTiering S (Some A)) b k n evict w1 = (res, w')"
  shows "hot w' b' k' = hot w1 b' k' \<or> hot w' b' k' = None"
  using assms
proof (cases rule: finish_archive_cases)
  case (removed u)
  then have rm: "RemoveObject S b k w1 = (u, w')" by simp
  from remove_other [OF rm, of b' k'] remove_same [OF rm] show ?thesis by (cases "(b', k') = (b, k)") auto
qed simp

lemma ArchiveObject_only_removes:
  assumes run: "ArchiveObject (NewTiering S (Some A)) b k evict w = (res, w')" and sl: "slashless b"
  shows "hot w' b' k' = hot w b' k' \<or> hot w' b' k' = None"
proof -
  obtain st w1 where st: "StatObject S b k w = (st, w1)" by fastforce
  have hot1: "hot w1 = hot w" by (rule statobj_frame [OF st])
  show ?thesis
  proof (cases "ar_Enabled A \<and> \<not> isl st")
    case False
    obtain r w2 where r: "ar_Stat A b k w1 = (r, w2)" by fastforce
    from run st False r have "w' = w \<or> w' = w2"
      by (cases st) (auto simp: ArchiveObject_def split: sum.splits if_splits)
    then show ?thesis using hot1 stat_hot [OF r] by auto
  next
    case True
    then obtain info where "st = Inr info" by (cases st) auto
    with run st True have "ArchiveKnownObject (NewTiering S (Some A)) b k (oi_Size info) evict w1 = (res, w')"
      by (simp add: ArchiveObject_def)
    then show ?thesis using sl
    proof (cases rule: ArchiveKnownObject_shape)
      case stopped
      then show ?thesis using hot1 by (simp add: kept_hot)
    next
      case (settled w2 c)
      then show ?thesis using finish_archive_only_removes [OF settled(4), of b' k'] hot1 by (simp add: kept_hot)
    qed
  qed
qed

text \<open>
  \<open>safe\<close> says that the object has already left the local store during this batch and is in the archive
  with its length.
\<close>

lemma archiveAll_safe:
  assumes "archiveAll lib env (NewTiering S (Some A)) b files evict w = (entries, w')" and sl: "slashless b" "slashless b'"
    and "hot w b' k' = Some c \<or>
         safe \<and> hot w b' k' = None \<and> (\<exists>c0. cold w b' k' = Some c0 \<and> length c0 = length c)"
  shows "hot w' b' k' = Some c \<or>
         (safe \<or> evict \<and> b' = b \<and> (\<exists>name\<in>set files. normalizeObjectKey lib env name b = Inr k')) \<and>
         hot w' b' k' = None \<and> (\<exists>c'. cold w' b' k' = Some c' \<and> length c' = length c)"
  using assms(1,4)
proof (induction files arbitrary: w entries safe)
  case Nil
  then show ?case by auto
next
  case (Cons name files)
  obtain entry w1 where e: "archive_one lib env (NewTiering S (Some A)) b evict name w = (entry, w1)" by (metis surj_pair)
  obtain rest where r: "archiveAll lib env (NewTiering S (Some A)) b files evict w1 = (rest, w')"
    using Cons.prems(1) e by (auto split: prod.splits)
  show ?case
  proof (cases "normalizeObjectKey lib env name b")
    case (Inl err)
    with e have "w1 = w" by (simp add: archive_one_def)
    with Cons.IH [OF r, of safe] Cons.prems(2) show ?thesis by auto
  next
    case (Inr key)
    then obtain res where one: "ArchiveObject (NewTiering S (Some A)) b key evict w = (res, w1)"
      using e by (auto simp: archive_one_def split: prod.splits)
    show ?thesis
    proof (cases "hot w b' k' = Some c")
      case True
      from ArchiveObject_safe [OF one sl(1) True] ArchiveObject_only_removes [OF one sl(1), of b' k'] True
      consider (kept) "hot w1 b' k' = Some c"
        | (moved) c1 where "hot w1 b' k' = None" "evict" "b' = b" "k' = key" "cold w1 b' k' = Some c1" "length c1 = length c"
        by fastforce
      then show ?thesis
      proof cases
        case kept
        with Cons.IH [OF r, of safe] show ?thesis by auto
      next
        case moved
        with Cons.IH [OF r, of True] Inr show ?thesis by auto
      qed
    next
      case False
      with Cons.prems(2) have away: "safe" "hot w b' k' = None" "\<exists>c0. cold w b' k' = Some c0 \<and> length c0 = length c"
        by auto
      then have "cold w1 b' k' = cold w b' k'"
        using ArchiveObject_cold_keep [OF one sl, of k'] by (cases "(b', k') = (b, key)") auto
      with away ArchiveObject_only_removes [OF one sl(1), of b' k'] Cons.IH [OF r, of safe] show ?thesis by auto
    qed
  qed
qed

end

section \<open>Properties\<close>

text \<open>The handler's only way to touch the store: the request passed every check.\<close>

lemma archive_handler_cases:
  assumes "ArchiveObjects_handler lib env validateStruct t c body w = (resp, w')"
  obtains (refused) "hr_Status resp \<noteq> 200" "w' = w"
  | (ran) req bucket evs results where "body = Some req" "resolveBucket c (aq_Bucket req) = (Inr bucket, evs)" "bucket \<noteq> ''''"
      "TierEnabled t" "TierInScope t bucket"
      "archiveAll lib env t bucket (aq_Files req) (aq_Evict req \<noteq> Some False) w = (results, w')"
      "resp = Response 200 True ''success'' (Some (results, summarize results))"
proof -
  note run = assms [unfolded ArchiveObjects_handler_def Let_def]
  show thesis
  proof (cases "\<exists>req bucket evs. body = Some req \<and> validateStruct req = None \<and> resolveBucket c (aq_Bucket req) = (Inr bucket, evs) \<and>
      bucket \<noteq> '''' \<and> \<not> (0 < GetEnvAsIntOrDefault env ''MAX_BATCH_FILES'' 100 \<and>
        GetEnvAsIntOrDefault env ''MAX_BATCH_FILES'' 100 < int (length (aq_Files req))) \<and> TierEnabled t \<and> TierInScope t bucket")
    case True
    then obtain req bucket evs where ok: "body = Some req" "validateStruct req = None"
      "resolveBucket c (aq_Bucket req) = (Inr bucket, evs)" "bucket \<noteq> ''''" "TierEnabled t" "TierInScope t bucket"
      "\<not> (0 < GetEnvAsIntOrDefault env ''MAX_BATCH_FILES'' 100 \<and>
        GetEnvAsIntOrDefault env ''MAX_BATCH_FILES'' 100 < int (length (aq_Files req)))" by blast
    have evict: "(case aq_Evict req of Some e \<Rightarrow> e | None \<Rightarrow> True) = (aq_Evict req \<noteq> Some False)"
      by (cases "aq_Evict req") auto
    obtain results w1 where all: "archiveAll lib env t bucket (aq_Files req) (aq_Evict req \<noteq> Some False) w = (results, w1)"
      by (metis surj_pair)
    with run ok have "resp = Response 200 True ''success'' (Some (results, summarize results))" "w' = w1"
      by (simp_all add: evict)
    with ok all show ?thesis by (intro ran [of req bucket evs results]) auto
  next
    case False
    show ?thesis
    proof (cases body)
      case None
      with run show ?thesis by (intro refused) auto
    next
      case (Some req)
      obtain rb evs where rb: "resolveBucket c (aq_Bucket req) = (rb, evs)" by (metis surj_pair)
      show ?thesis
        using run False Some rb
        by (cases "validateStruct req"; cases rb) (auto simp: forbidden_def intro!: refused split: if_splits)
    qed
  qed
qed

text \<open>
  Property C7.  The endpoint moves what it was asked to move and nothing else.  When a request that came
  through the bucket middleware makes a local object disappear, then the caller had not asked
  to keep copies, the object's bucket is the one its credential may act on, its key is what one of
  the listed files normalizes to, and the archive holds a copy of the same length.
\<close>

theorem archive_request_confined:
  assumes "deployment a s3 S hot" and "BucketAuthMiddleware sv c0 = (Pass c, evs)"
    and "ArchiveObjects_handler lib env validateStruct (NewTiering S (Some (archive_iface a))) c (Some req) w = (resp, w')"
    and "\<forall>b evs. resolveBucket c (aq_Bucket req) = (Inr b, evs) \<longrightarrow> slashless b" and "slashless b'"
    and "hot w b' k' = Some content" and "hot w' b' k' \<noteq> Some content"
  shows "aq_Evict req \<noteq> Some False \<and>
         (presents_general sv c0 \<and> b' = TrimSpace (aq_Bucket req) \<or> presents_scoped sv c0 b') \<and>
         (\<exists>name\<in>set (aq_Files req). normalizeObjectKey lib env name b' = Inr k') \<and>
         (\<exists>copy. cold_of a s3 w' b' k' = Some copy \<and> length copy = length content)"
  using assms(3)
proof (cases rule: archive_handler_cases)
  case refused
  with assms(6,7) show ?thesis by simp
next
  case (ran req' bucket evs' results)
  then have req: "req' = req" by simp
  have b: "slashless bucket" using assms(4) ran(2) req by blast
  from two_tiers.archiveAll_safe [OF deployment.tiers [OF assms(1)] ran(6) b assms(5), of k' content False] assms(6,7)
  have "aq_Evict req' \<noteq> Some False" "b' = bucket" "\<exists>name\<in>set (aq_Files req'). normalizeObjectKey lib env name bucket = Inr k'"
    "\<exists>copy. cold_of a s3 w' b' k' = Some copy \<and> length copy = length content" by auto
  with gate_then_resolve [OF assms(2) ran(2)] req show ?thesis by blast
qed

definition demo_urls :: url_lib where
  "demo_urls = \<lparr> ul_Parse = (\<lambda>_. None), ul_EqualFold = (=) \<rparr>"

definition demo_archive_request :: ArchiveRequest where
  "demo_archive_request = \<lparr> aq_Bucket = '''', aq_Files = [''a.png'', ''../b.png''], aq_Evict = None \<rparr>"

lemma normalize_demo:
  "normalizeObjectKey demo_urls env ''a.png'' b = Inr ''a.png''"
  "normalizeObjectKey demo_urls env ''../b.png'' b = Inl (ErrorString ''invalid object key'')"
  by (simp_all add: normalizeObjectKey_def HasUnsafeObjectKey_def TrimPrefix_def gostr printable_def)

theorem archive_request_confined_witness:
  "\<exists>c resp w'. BucketAuthMiddleware demo_server demo_request = (Pass c, []) \<and>
     ArchiveObjects_handler demo_urls (\<lambda>_. '''') (\<lambda>_. None) mem_tiering c (Some demo_archive_request) tier_world = (resp, w') \<and>
     m_hot w' ''photos'' ''a.png'' = None \<and> presents_scoped demo_server demo_request ''photos'' \<and>
     (\<exists>copy. cold_of mem_archive m_s3 w' ''photos'' ''a.png'' = Some copy \<and> length copy = 2)"
proof -
  let ?c = "StorePrincipal \<lparr> pr_Scoped = True, pr_Bucket = ''photos'' \<rparr> demo_request"
  have gate: "BucketAuthMiddleware demo_server demo_request = (Pass ?c, [])"
    by (simp add: BucketAuthMiddleware_def demo_resolve)
  have bucket: "resolveBucket ?c '''' = (Inr ''photos'', [])"
    by (simp add: resolveBucket_def PrincipalFrom_def StorePrincipal_def Let_def)
  obtain resp w' where run: "ArchiveObjects_handler demo_urls (\<lambda>_. '''') (\<lambda>_. None) mem_tiering ?c (Some demo_archive_request)
      tier_world = (resp, w')" by (metis surj_pair)
  have gone: "m_hot w' ''photos'' ''a.png'' = None"
    using run by (auto simp: ArchiveObjects_handler_def demo_archive_request_def bucket GetEnvAsIntOrDefault_def
        archive_one_def normalize_demo run_tiers tier_world_def)
  have sl: "slashless ''photos''" by (simp add: slashless_def)
  have "m_hot tier_world ''photos'' ''a.png'' = Some [1, 2]" by (simp add: tier_world_def)
  with archive_request_confined [OF mem_deployment.deployment_axioms gate run _ sl, of "''a.png''" "[1, 2]"] gone bucket sl
  have "(presents_general demo_server demo_request \<and> ''photos'' = TrimSpace '''' \<or> presents_scoped demo_server demo_request ''photos'') \<and>
      (\<exists>copy. cold_of mem_archive m_s3 w' ''photos'' ''a.png'' = Some copy \<and> length copy = 2)"
    by (simp add: demo_archive_request_def numeral_2_eq_2)
  with gate run gone show ?thesis by auto
qed

text \<open>
  The answer accounts for the whole batch: one result per listed file, in their order, each
  with one of the five counted outcomes, the five counters add up to the number of files, and
  \<open>bytes_freed\<close> is the total size of the objects reported as archived and evicted.
\<close>

theorem archive_request_accounted:
  assumes "ArchiveObjects_handler lib env validateStruct t c (Some req) w = (resp, w')" and "hr_Status resp = 200"
  shows "\<exists>results summary. hr_Data resp = Some (results, summary) \<and> map ae_File results = aq_Files req \<and>
           sum_list (map (as_counts summary) summary_keys) = length (aq_Files req) \<and>
           as_bytes_freed summary = archived_sizes results"
  using assms(1)
proof (cases rule: archive_handler_cases)
  case refused
  with assms(2) show ?thesis by simp
next
  case (ran req' bucket evs results)
  from archiveAll_files [of lib env t bucket "aq_Files req'"] ran(6) have files: "map ae_File results = aq_Files req'"
    by (metis fst_conv)
  from archiveAll_outcomes [OF ran(5)] ran(6) have "list_all (\<lambda>r. ae_Status r \<in> set summary_keys) results"
    unfolding list_all_iff by (metis fst_conv)
  from summarize_fold [OF this] have
    "sum_list (map (as_counts (summarize results)) summary_keys) = length results \<and> as_bytes_freed (summarize results) = archived_sizes results"
    by (simp add: summarize_def summary_keys_def)
  with files ran show ?thesis by (metis Response_sel(3) length_map option.inject)
qed

theorem archive_request_accounted_witness:
  "\<exists>resp w' results summary.
     ArchiveObjects_handler demo_urls (\<lambda>_. '''') (\<lambda>_. None) mem_tiering
       (StorePrincipal \<lparr> pr_Scoped = True, pr_Bucket = ''photos'' \<rparr> demo_request) (Some demo_archive_request) tier_world = (resp, w') \<and>
     hr_Data resp = Some (results, summary) \<and> as_counts summary TierArchived + as_counts summary TierFailed \<le> 2 \<and>
     map ae_File results = [''a.png'', ''../b.png'']"
proof -
  let ?c = "StorePrincipal \<lparr> pr_Scoped = True, pr_Bucket = ''photos'' \<rparr> demo_request"
  have bucket: "resolveBucket ?c '''' = (Inr ''photos'', [])"
    by (simp add: resolveBucket_def PrincipalFrom_def StorePrincipal_def Let_def)
  obtain resp w' where run: "ArchiveObjects_handler demo_urls (\<lambda>_. '''') (\<lambda>_. None) mem_tiering ?c (Some demo_archive_request)
      tier_world = (resp, w')" by (metis surj_pair)
  have ok: "hr_Status resp = 200"
    using run by (auto simp: ArchiveObjects_handler_def demo_archive_request_def bucket GetEnvAsIntOrDefault_def
        TierEnabled_def TierInScope_def InScope_def Let_def split: prod.splits)
  from archive_request_accounted [OF run ok] run show ?thesis
    by (auto simp: demo_archive_request_def summary_keys_def)
qed

end
