(* ===== verification/Go_Floats.thy ===== *)
theory Go_Floats
  imports CDN_Prelude Complex_Main
begin

text \<open>
  Go's \<open>float64\<close> for the ratios and rates the code computes: rationals rounded to 53 significant bits,
  with the conversions from and to 64-bit integers, and the bounds that survive the rounding.
\<close>

section \<open>float64\<close>

text \<open>
  The values here are quotients and products of 64-bit integers, far from the exponent limits,
  so rounding to nearest, ties to even, is all there is.
\<close>

fun bit_length :: "nat \<Rightarrow> nat" where
  "bit_length n = (if n = 0 then 0 else Suc (bit_length (n div 2)))"

declare bit_length.simps [simp del]

definition pow2 :: "int \<Rightarrow> rat" where
  "pow2 e = (if 0 \<le> e then 2 ^ nat e else 1 / 2 ^ nat (- e))"

definition exponent :: "rat \<Rightarrow> int" where
  "exponent x =
     (case quotient_of x of
        (a, b) \<Rightarrow> (let k = int (bit_length (nat a)) - int (bit_length (nat b)) in if pow2 k \<le> x then k else k - 1))"

definition round_even :: "rat \<Rightarrow> int" where
  "round_even x =
     (let n = \<lfloor>x\<rfloor>; d = x - of_int n
      in if d < 1 / 2 then n else if 1 / 2 < d then n + 1 else if even n then n else n + 1)"

definition f64 :: "rat \<Rightarrow> rat" where
  "f64 x =
     (if x = 0 then 0
      else let e = exponent \<bar>x\<bar> - 52 in of_int (round_even (x / pow2 e)) * pow2 e)"

text \<open>
  Division by zero gives an infinity or no number; no negative value is divided by zero here.  \<open>uint(x)\<close> of a value that
  does not fit gives what the platform gives, the parameter \<open>conv\<close>.
\<close>

datatype float64 = Fin rat | Infinite | NaN

definition float_of :: "64 word \<Rightarrow> float64" where
  "float_of n = Fin (f64 (of_nat (unat n)))"

definition float_of_int :: "int \<Rightarrow> float64" where
  "float_of_int n = Fin (f64 (of_int n))"

fun float_div :: "float64 \<Rightarrow> float64 \<Rightarrow> float64" where
  "float_div (Fin x) (Fin y) = (if y = 0 then if x = 0 then NaN else Infinite else Fin (f64 (x / y)))"
| "float_div (Fin x) Infinite = Fin 0"
| "float_div Infinite (Fin y) = Infinite"
| "float_div _ _ = NaN"

fun float_mul :: "float64 \<Rightarrow> float64 \<Rightarrow> float64" where
  "float_mul (Fin x) (Fin y) = Fin (f64 (x * y))"
| "float_mul (Fin x) Infinite = (if x = 0 then NaN else Infinite)"
| "float_mul Infinite (Fin y) = (if y = 0 then NaN else Infinite)"
| "float_mul Infinite Infinite = Infinite"
| "float_mul _ _ = NaN"

type_synonym platform = "float64 \<Rightarrow> 64 word"

definition to_uint :: "platform \<Rightarrow> float64 \<Rightarrow> 64 word" where
  "to_uint conv x =
     (case x of
        Fin r \<Rightarrow> (if 0 \<le> r \<and> r < 2 ^ 64 then word_of_int \<lfloor>r\<rfloor> else conv x)
      | _ \<Rightarrow> conv x)"

section \<open>What the rounding keeps\<close>

lemma bit_length_bounds: "n < 2 ^ bit_length n \<and> (0 < n \<longrightarrow> 2 ^ bit_length n \<le> 2 * n)"
proof (induction n rule: bit_length.induct)
  case (1 n)
  show ?case
  proof (cases "n = 0")
    case True
    then show ?thesis by (simp add: bit_length.simps [of 0])
  next
    case False
    have s: "bit_length n = Suc (bit_length (n div 2))" using False by (simp add: bit_length.simps [of n])
    show ?thesis using 1 [OF False] False unfolding s by (cases "n div 2 = 0") (auto simp: bit_length.simps [of 0])
  qed
qed

lemma pow2_pos: "0 < pow2 e"
  by (simp add: pow2_def)

lemma pow2_Suc: "pow2 (e + 1) = 2 * pow2 e"
proof (cases "0 \<le> e")
  case True
  then show ?thesis by (simp add: pow2_def nat_add_distrib)
next
  case False
  then have "nat (- e) = Suc (nat (- (e + 1)))" by simp
  then show ?thesis using False by (cases "e = -1") (auto simp: pow2_def)
qed

lemma pow2_add_nat: "pow2 (e + int n) = 2 ^ n * pow2 e"
proof (induction n)
  case (Suc n)
  have "pow2 (e + int (Suc n)) = pow2 ((e + int n) + 1)" by (simp add: algebra_simps)
  then show ?case by (simp only: pow2_Suc Suc power_Suc mult.assoc)
qed simp

lemma pow2_mono: "e \<le> e' \<Longrightarrow> pow2 e \<le> pow2 e'"
proof -
  assume "e \<le> e'"
  then have e': "pow2 e' = 2 ^ nat (e' - e) * pow2 e" using pow2_add_nat [of e "nat (e' - e)"] by simp
  have "(1::rat) \<le> 2 ^ nat (e' - e)" by simp
  then show ?thesis unfolding e' using pow2_pos [of e] mult_right_mono [of 1 "2 ^ nat (e' - e)" "pow2 e"] by simp
qed

lemma pow2_diff: "pow2 (int a - int b) = 2 ^ a / 2 ^ b"
proof (cases "b \<le> a")
  case True
  then show ?thesis by (simp add: pow2_def power_diff flip: of_nat_diff)
next
  case False
  then have "nat (int b - int a) = b - a" by simp
  then show ?thesis using False by (simp add: pow2_def power_diff)
qed

text \<open>The exponent is the position of the leading bit.\<close>

lemma exponent_lower:
  assumes "0 < x"
  shows "pow2 (exponent x) \<le> x"
proof -
  obtain a b where q: "quotient_of x = (a, b)" by (metis surj_pair)
  have b: "0 < b" using quotient_of_denom_pos [OF q] .
  have x: "x = of_int a / of_int b" using quotient_of_div [OF q] .
  have a: "0 < a" using assms b unfolding x by (simp add: zero_less_divide_iff)
  let ?k = "int (bit_length (nat a)) - int (bit_length (nat b))"
  have "pow2 (?k - 1) \<le> x"
  proof -
    have "2 * pow2 (?k - 1) = pow2 ?k" using pow2_Suc [of "?k - 1"] by simp
    also have "\<dots> = 2 ^ bit_length (nat a) / 2 ^ bit_length (nat b)" by (rule pow2_diff)
    also have "\<dots> \<le> (2 * of_nat (nat a)) / of_nat (nat b)"
    proof (rule frac_le)
      have "2 ^ bit_length (nat a) \<le> 2 * nat a" using bit_length_bounds [of "nat a"] a by simp
      then have "of_nat (2 ^ bit_length (nat a)) \<le> (of_nat (2 * nat a) :: rat)" by (rule of_nat_mono)
      then show "(2::rat) ^ bit_length (nat a) \<le> 2 * of_nat (nat a)" by simp
      have "nat b \<le> 2 ^ bit_length (nat b)" using bit_length_bounds [of "nat b"] by simp
      then have "of_nat (nat b) \<le> (of_nat (2 ^ bit_length (nat b)) :: rat)" by (rule of_nat_mono)
      then show "of_nat (nat b) \<le> (2::rat) ^ bit_length (nat b)" by simp
    qed (use a b in simp_all)
    also have "\<dots> = 2 * x" unfolding x using a b by simp
    finally show ?thesis by simp
  qed
  then show ?thesis unfolding exponent_def q by (auto simp: Let_def)
qed

lemma exponent_below:
  assumes "0 < x" and "x < 2 ^ n"
  shows "exponent x < int n"
proof (rule ccontr)
  assume "\<not> exponent x < int n"
  then have "pow2 (int n) \<le> x" using pow2_mono [of "int n" "exponent x"] exponent_lower [OF assms(1)] by linarith
  then show False using assms(2) by (simp add: pow2_def)
qed

lemma round_even_le: "x \<le> of_int m \<Longrightarrow> round_even x \<le> m"
proof -
  assume le: "x \<le> of_int m"
  have f: "\<lfloor>x\<rfloor> \<le> m" using le by linarith
  show ?thesis
  proof (cases "\<lfloor>x\<rfloor> = m")
    case True
    then have "x - of_int \<lfloor>x\<rfloor> = 0" using le of_int_floor_le [of x] by simp
    then show ?thesis using True by (simp add: round_even_def Let_def)
  next
    case False
    then show ?thesis using f by (auto simp: round_even_def Let_def)
  qed
qed

lemma round_even_ge: "of_int m \<le> x \<Longrightarrow> m \<le> round_even x"
proof -
  assume "of_int m \<le> x"
  then have "m \<le> \<lfloor>x\<rfloor>" by (simp add: le_floor_iff)
  then show ?thesis by (auto simp: round_even_def Let_def)
qed

text \<open>Between two integers below 2^53 rounding does not leave the interval.\<close>

lemma f64_bounds:
  assumes "0 < x" and "x < 2 ^ 53" and "of_nat m \<le> x" and "x \<le> of_nat n"
  shows "of_nat m \<le> f64 x" and "f64 x \<le> of_nat n"
proof -
  define e where "e = exponent x - 52"
  have "e \<le> 0" using exponent_below [OF assms(1,2)] unfolding e_def by simp
  then have p: "pow2 e = 1 / 2 ^ nat (- e)" by (cases "e = 0") (simp_all add: pow2_def)
  let ?s = "2 ^ nat (- e) :: int"
  have ax: "\<bar>x\<bar> = x" using assms(1) by simp
  have s: "x / pow2 e = x * of_int ?s" unfolding p by simp
  have f: "f64 x = of_int (round_even (x * of_int ?s)) / of_int ?s"
    using assms(1) unfolding f64_def ax e_def [symmetric] Let_def s by (simp add: p)
  have "round_even (x * of_int ?s) \<le> int n * ?s"
    by (rule round_even_le) (use assms(4) in \<open>simp add: mult_right_mono\<close>)
  then have "of_int (round_even (x * of_int ?s)) \<le> (of_int (int n * ?s) :: rat)" by (simp only: of_int_le_iff)
  then show "f64 x \<le> of_nat n" unfolding f by (simp add: divide_le_eq)
  have "int m * ?s \<le> round_even (x * of_int ?s)"
    by (rule round_even_ge) (use assms(3) in \<open>simp add: mult_right_mono\<close>)
  then have "(of_int (int m * ?s) :: rat) \<le> of_int (round_even (x * of_int ?s))" by (simp only: of_int_le_iff)
  then show "of_nat m \<le> f64 x" unfolding f by (simp add: le_divide_eq)
qed

lemma f64_nat: "n < 2 ^ 53 \<Longrightarrow> f64 (of_nat n) = of_nat n"
proof (cases "n = 0")
  case True
  then show ?thesis by (simp add: f64_def)
next
  case False
  assume "n < 2 ^ 53"
  then have "of_nat n < (of_nat (2 ^ 53) :: rat)" by (simp only: of_nat_less_iff)
  then show ?thesis using f64_bounds [of "of_nat n" n n] False by (simp add: order_antisym)
qed

lemma float_of_exact: "unat n < 2 ^ 53 \<Longrightarrow> float_of n = Fin (of_nat (unat n))"
  by (simp only: float_of_def f64_nat)

lemma floor_word:
  assumes "0 \<le> r" and "r \<le> of_nat (unat M)"
  shows "to_uint conv (Fin r) \<le> M"
proof -
  have lt: "(of_nat (unat M) :: rat) < 2 ^ 64"
  proof -
    have "(of_nat (unat M) :: rat) < of_nat (2 ^ 64)" using unsigned_less [of M] by (simp only: of_nat_less_iff) simp
    then show ?thesis by simp
  qed
  have f: "\<lfloor>r\<rfloor> \<le> int (unat M)" using assms(2) by linarith
  have "0 \<le> \<lfloor>r\<rfloor>" using assms(1) by simp
  then have "uint (word_of_int \<lfloor>r\<rfloor> :: 64 word) \<le> \<lfloor>r\<rfloor>" by (simp add: uint_word_of_int zmod_le_nonneg_dividend)
  then have "uint (word_of_int \<lfloor>r\<rfloor> :: 64 word) \<le> uint M" using f by simp
  then show ?thesis using assms lt unfolding to_uint_def by (simp add: word_le_def)
qed

section \<open>Signs and shares\<close>

lemma round_even_int [simp]: "round_even (of_int k) = k"
  by (simp add: round_even_def Let_def)

lemma f64_int:
  assumes "\<bar>z\<bar> < 2 ^ 53"
  shows "f64 (of_int z) = of_int z"
proof (cases "z = 0")
  case True
  then show ?thesis by (simp add: f64_def)
next
  case False
  let ?e = "exponent \<bar>of_int z\<bar> - 52"
  have "of_int \<bar>z\<bar> < (of_int (2 ^ 53) :: rat)" using assms by (simp only: of_int_less_iff)
  then have "?e \<le> 0" using exponent_below [of "\<bar>of_int z\<bar>" 53] False by simp
  then have p: "pow2 ?e = 1 / 2 ^ nat (- ?e)" by (cases "?e = 0") (simp_all add: pow2_def)
  then have "of_int z / pow2 ?e = of_int (z * 2 ^ nat (- ?e))" by simp
  then have "round_even (of_int z / pow2 ?e) = z * 2 ^ nat (- ?e)" by (simp only: round_even_int)
  then show ?thesis using False p by (simp add: f64_def Let_def)
qed

lemma scaled_large:
  assumes "x \<noteq> 0"
  shows "of_int (2 ^ 52) \<le> \<bar>x\<bar> / pow2 (exponent \<bar>x\<bar> - 52)"
proof -
  have "pow2 52 * pow2 (exponent \<bar>x\<bar> - 52) = pow2 (exponent \<bar>x\<bar>)"
    using pow2_add_nat [of "exponent \<bar>x\<bar> - 52" 52] by (simp add: pow2_def)
  then have "pow2 52 * pow2 (exponent \<bar>x\<bar> - 52) \<le> \<bar>x\<bar>" using exponent_lower [of "\<bar>x\<bar>"] assms by simp
  then show ?thesis using pow2_pos [of "exponent \<bar>x\<bar> - 52"] by (simp add: le_divide_eq pow2_def)
qed

lemma f64_positive:
  assumes "0 < x"
  shows "0 < f64 x"
proof -
  have "of_int (2 ^ 52) \<le> x / pow2 (exponent x - 52)" using scaled_large [of x] assms by simp
  from round_even_ge [OF this] have "0 < round_even (x / pow2 (exponent x - 52))" by simp
  then show ?thesis using assms pow2_pos [of "exponent x - 52"] by (simp add: f64_def Let_def)
qed

lemma f64_negative:
  assumes "x < 0"
  shows "f64 x < 0"
proof -
  have "x / pow2 (exponent \<bar>x\<bar> - 52) \<le> of_int (- (2 ^ 52))" using scaled_large [of x] assms by simp
  from round_even_le [OF this] have "round_even (x / pow2 (exponent \<bar>x\<bar> - 52)) < 0" by simp
  then show ?thesis using assms pow2_pos [of "exponent \<bar>x\<bar> - 52"] by (simp add: f64_def Let_def mult_less_0_iff)
qed

lemma f64_between: "0 \<le> x \<Longrightarrow> x \<le> of_nat n \<Longrightarrow> n < 2 ^ 53 \<Longrightarrow> 0 \<le> f64 x \<and> f64 x \<le> of_nat n"
proof (cases "x = 0")
  case False
  assume "0 \<le> x" and x: "x \<le> of_nat n" and "n < 2 ^ 53"
  then have "of_nat n < (of_nat (2 ^ 53) :: rat)" by (simp only: of_nat_less_iff)
  then have "x < 2 ^ 53" using x by simp
  then show ?thesis using f64_bounds [of x 0 n] x \<open>0 \<le> x\<close> False by simp
qed (simp add: f64_def)

lemma float_of_int_small: "\<bar>z\<bar> < 2 ^ 53 \<Longrightarrow> float_of_int z = Fin (of_int z)"
  by (simp only: float_of_int_def f64_int)

text \<open>A quotient of natural numbers keeps its side of one, and a share of a number stays below it.\<close>

lemma f64_ratio_below: "a \<le> b \<Longrightarrow> 0 \<le> f64 (of_nat a / of_nat b) \<and> f64 (of_nat a / of_nat b) \<le> 1"
  using f64_between [of "of_nat a / of_nat b" 1] by (cases "b = 0") (simp_all add: divide_le_eq)

lemma f64_ratio_above:
  assumes "0 < b" and "b \<le> a" and "a < 2 ^ 53"
  shows "1 \<le> f64 (of_nat a / of_nat b)"
proof -
  let ?x = "of_nat a / of_nat b :: rat"
  have "of_nat a < (of_nat (2 ^ 53) :: rat)" using assms(3) by (simp only: of_nat_less_iff)
  moreover have "of_nat a * 1 \<le> (of_nat a * of_nat b :: rat)"
    using assms(1) of_nat_mono [of 1 b, where 'a = rat] by (intro mult_left_mono) simp_all
  then have "?x \<le> of_nat a" using assms(1) by (simp add: divide_le_eq)
  moreover have "of_nat b \<le> (of_nat a :: rat)" using assms(2) by (rule of_nat_mono)
  then have "of_nat 1 \<le> ?x" using assms(1) by (simp add: le_divide_eq)
  ultimately show ?thesis using f64_bounds(1) [of ?x 1 a] by simp
qed

lemma f64_share_quotient: "1 \<le> r \<Longrightarrow> n < 2 ^ 53 \<Longrightarrow> 0 \<le> f64 (of_nat n / r) \<and> f64 (of_nat n / r) \<le> of_nat n"
  by (rule f64_between) (simp_all add: divide_le_eq mult_le_cancel_left1)

lemma f64_share_product: "0 \<le> r \<Longrightarrow> r \<le> 1 \<Longrightarrow> n < 2 ^ 53 \<Longrightarrow> 0 \<le> f64 (of_nat n * r) \<and> f64 (of_nat n * r) \<le> of_nat n"
  by (rule f64_between) (simp_all add: mult_left_le)

end
