(* ===== verification/Image_Service.thy ===== *)
theory Image_Service
  imports File_Validation Backends Go_Floats
begin

text \<open>
  \<open>service/imagick.go\<close> and the ratio arithmetic of \<open>service/util.go\<close>: which image operations are tried, in
  which order, at which size, and what is returned when one of them fails.  ImageMagick is the
  parameter \<open>magick\<close>; \<open>float64\<close> is that of \<open>Go_Floats\<close>.
\<close>

section \<open>Target sizes\<close>

definition RatioWidthHeight ::
  "platform \<Rightarrow> 64 word \<Rightarrow> 64 word \<Rightarrow> 64 word \<Rightarrow> 64 word \<Rightarrow> 64 word \<times> 64 word" where
  "RatioWidthHeight conv width height targetWidth targetHeight =
     (let whRatio = float_div (float_of width) (float_of height);
          hwRatio = float_div (float_of height) (float_of width);
          targetWidth = (if targetWidth = 0 then to_uint conv (float_mul (float_of targetHeight) whRatio) else targetWidth);
          targetHeight = (if targetHeight = 0 then to_uint conv (float_mul (float_of targetWidth) hwRatio) else targetHeight)
      in (targetWidth, targetHeight))"

definition calculateDimensions ::
  "platform \<Rightarrow> 64 word \<Rightarrow> 64 word \<Rightarrow> 64 word \<Rightarrow> 64 word \<Rightarrow> 64 word \<times> 64 word" where
  "calculateDimensions conv origWidth origHeight targetWidth targetHeight =
     (if targetWidth = 0 \<and> targetHeight = 0 then (origWidth, origHeight)
      else
        (let aspect = float_div (float_of origWidth) (float_of origHeight) in
         if targetWidth = 0 then (to_uint conv (float_mul (float_of targetHeight) aspect), targetHeight)
         else if targetHeight = 0
         then (targetWidth, to_uint conv (float_div (float_of targetWidth) aspect))
         else (targetWidth, targetHeight)))"

section \<open>ImageMagick\<close>

text \<open>
  One wand per operation; a setter reports an error next to the wand as it is afterwards.  A byte slice
  that may be nil is an option; \<open>slice\<close> reads it, nil being as empty as can be.
\<close>

definition slice :: "bytes option \<Rightarrow> bytes" where
  "slice b = (case b of Some x \<Rightarrow> x | None \<Rightarrow> [])"


record 'm magick =
  mk_Read :: "bytes \<Rightarrow> 'm result"
  mk_Width :: "'m \<Rightarrow> 64 word"
  mk_Height :: "'m \<Rightarrow> 64 word"
  mk_Format :: "'m \<Rightarrow> string"
  mk_Resize :: "64 word \<Rightarrow> 64 word \<Rightarrow> 'm \<Rightarrow> gerror option \<times> 'm"
  mk_Quality :: "64 word \<Rightarrow> 'm \<Rightarrow> gerror option \<times> 'm"
  mk_Strip :: "'m \<Rightarrow> gerror option \<times> 'm"
  mk_Blob :: "'m \<Rightarrow> bytes option"

definition ImagickThreadLimit :: "env \<Rightarrow> int" where
  "ImagickThreadLimit env =
     (let n = GetEnvAsIntOrDefault env ''IMAGICK_THREAD_LIMIT'' 2 in if n < 1 then 1 else n)"

text \<open>The limits \<open>ApplyImagickResourceLimits\<close> asks for, at 64 bits.\<close>

definition resource_limits :: "env \<Rightarrow> (string \<times> 64 word) list" where
  "resource_limits env =
     [(''memory'', word_of_int (GetEnvAsIntOrDefault env ''IMAGICK_MEMORY_LIMIT_MB'' 512) * 1024 * 1024),
      (''map'', word_of_int (GetEnvAsIntOrDefault env ''IMAGICK_MAP_LIMIT_MB'' 1024) * 1024 * 1024),
      (''area'', word_of_int (GetEnvAsIntOrDefault env ''IMAGICK_AREA_LIMIT_MP'' 256) * 1000 * 1000),
      (''disk'', word_of_int (GetEnvAsIntOrDefault env ''IMAGICK_DISK_LIMIT_MB'' 2048) * 1024 * 1024),
      (''time'', word_of_int (GetEnvAsIntOrDefault env ''IMAGICK_TIME_LIMIT_SEC'' 60)),
      (''thread'', word_of_int (ImagickThreadLimit env))]"

definition ImagickGetWidthHeight :: "'m magick \<Rightarrow> bytes \<Rightarrow> gerror option \<times> 64 word \<times> 64 word" where
  "ImagickGetWidthHeight mk img =
     (case mk_Read mk img of
        Inl err \<Rightarrow> (Some err, 0, 0)
      | Inr mw \<Rightarrow> (None, mk_Width mk mw, mk_Height mk mw))"

definition ImagickFormat :: "'m magick \<Rightarrow> bytes \<Rightarrow> gerror option \<times> string" where
  "ImagickFormat mk img =
     (case mk_Read mk img of Inl err \<Rightarrow> (Some err, '''') | Inr mw \<Rightarrow> (None, mk_Format mk mw))"

definition ImagickResize :: "'m magick \<Rightarrow> platform \<Rightarrow> bytes \<Rightarrow> 64 word \<Rightarrow> 64 word \<Rightarrow> bytes option" where
  "ImagickResize mk conv img targetWidth targetHeight =
     (case mk_Read mk img of
        Inl err \<Rightarrow> Some img
      | Inr mw \<Rightarrow>
          (case RatioWidthHeight conv (mk_Width mk mw) (mk_Height mk mw) targetWidth targetHeight of
             (targetWidth, targetHeight) \<Rightarrow>
               (case mk_Resize mk targetWidth targetHeight mw of
                  (Some err, mw) \<Rightarrow> Some img
                | (None, mw) \<Rightarrow>
                    (case mk_Quality mk 95 mw of
                       (Some err, mw) \<Rightarrow> Some img
                     | (None, mw) \<Rightarrow> mk_Blob mk mw))))"

section \<open>Optimizing\<close>

definition IsImageContent :: "bytes \<Rightarrow> bool" where
  "IsImageContent data \<longleftrightarrow>
     (if length data < 4 then False
      else HasPrefix data [0xFF, 0xD8, 0xFF] \<or> HasPrefix data [0x89, 0x50, 0x4E, 0x47] \<or>
           HasPrefix data [0x47, 0x49, 0x46] \<or> HasPrefix data [0x42, 0x4D] \<or>
           HasPrefix data [0x00, 0x00, 0x01, 0x00] \<or> HasPrefix data [0x52, 0x49, 0x46, 0x46])"

definition GetImageInfo :: "'m magick \<Rightarrow> bytes \<Rightarrow> (64 word \<times> 64 word \<times> string) result" where
  "GetImageInfo mk data =
     (case mk_Read mk data of
        Inl err \<Rightarrow> Inl (Wrapf ''failed to read image'' err)
      | Inr mw \<Rightarrow> Inr (mk_Width mk mw, mk_Height mk mw, mk_Format mk mw))"

definition IsResizable :: "'m magick \<Rightarrow> bytes \<Rightarrow> bool" where
  "IsResizable mk data \<longleftrightarrow>
     (if \<not> IsImageContent data then False
      else (case GetImageInfo mk data of
              Inl err \<Rightarrow> False
            | Inr (_, _, format) \<Rightarrow> format \<in> {''JPEG'', ''PNG'', ''GIF'', ''WEBP''}))"

record OptimizeOptions =
  oo_MaxDimension :: "64 word"
  oo_TargetWidth :: "64 word"
  oo_TargetHeight :: "64 word"
  oo_JPEGQuality :: "64 word"
  oo_PNGQuality :: "64 word"
  oo_WebPQuality :: "64 word"
  oo_Strip :: bool

definition DefaultOptimizeOptions :: "env \<Rightarrow> OptimizeOptions" where
  "DefaultOptimizeOptions env =
     \<lparr> oo_MaxDimension = word_of_int (GetEnvAsIntOrDefault env ''OPTIMIZE_MAX_DIMENSION'' 2560),
       oo_TargetWidth = 0, oo_TargetHeight = 0,
       oo_JPEGQuality = word_of_int (GetEnvAsIntOrDefault env ''OPTIMIZE_JPEG_QUALITY'' 85),
       oo_PNGQuality = word_of_int (GetEnvAsIntOrDefault env ''OPTIMIZE_PNG_QUALITY'' 95),
       oo_WebPQuality = word_of_int (GetEnvAsIntOrDefault env ''OPTIMIZE_WEBP_QUALITY'' 85),
       oo_Strip = True \<rparr>"

text \<open>The switch that chooses the new size.\<close>

definition optimized_size :: "platform \<Rightarrow> OptimizeOptions \<Rightarrow> 64 word \<Rightarrow> 64 word \<Rightarrow> 64 word \<times> 64 word" where
  "optimized_size conv opts origWidth origHeight =
     (if 0 < oo_TargetWidth opts \<or> 0 < oo_TargetHeight opts then
        calculateDimensions conv origWidth origHeight (oo_TargetWidth opts) (oo_TargetHeight opts)
      else if 0 < oo_MaxDimension opts \<and> (oo_MaxDimension opts < origWidth \<or> oo_MaxDimension opts < origHeight) then
        (let aspect = float_div (float_of origWidth) (float_of origHeight) in
         if origHeight \<le> origWidth
         then (oo_MaxDimension opts,
               to_uint conv (float_div (float_of (oo_MaxDimension opts)) aspect))
         else (to_uint conv (float_mul (float_of (oo_MaxDimension opts)) aspect), oo_MaxDimension opts))
      else (origWidth, origHeight))"

definition quality_for :: "OptimizeOptions \<Rightarrow> string \<Rightarrow> 64 word" where
  "quality_for opts format =
     (if format = ''JPEG'' then oo_JPEGQuality opts
      else if format = ''PNG'' then oo_PNGQuality opts
      else if format = ''WEBP'' then oo_WebPQuality opts
      else 0)"

definition OptimizeImage ::
  "'m magick \<Rightarrow> platform \<Rightarrow> bytes \<Rightarrow> OptimizeOptions \<Rightarrow> (bytes \<times> 64 word \<times> 64 word) result" where
  "OptimizeImage mk conv data opts =
     (if \<not> IsResizable mk data then Inr (data, 0, 0)
      else
        (case mk_Read mk data of
           Inl err \<Rightarrow> Inl (Wrapf ''failed to read image data'' err)
         | Inr mw \<Rightarrow>
             (if mk_Format mk mw = ''GIF'' then Inr (data, mk_Width mk mw, mk_Height mk mw)
              else
                (let origWidth = mk_Width mk mw; origHeight = mk_Height mk mw in
                 case optimized_size conv opts origWidth origHeight of
                   (newWidth, newHeight) \<Rightarrow>
                     (case (if newWidth \<noteq> origWidth \<or> newHeight \<noteq> origHeight
                            then mk_Resize mk newWidth newHeight mw else (None, mw)) of
                        (Some err, mw) \<Rightarrow> Inl (Wrapf ''failed to resize image'' err)
                      | (None, mw) \<Rightarrow>
                          (let mw = (if oo_Strip opts then snd (mk_Strip mk mw) else mw);
                               quality = quality_for opts (mk_Format mk mw);
                               mw = (if 0 < quality then snd (mk_Quality mk quality mw) else mw);
                               processed = slice (mk_Blob mk mw)
                           in if processed = [] then Inl (ErrorString ''failed to get processed image data'')
                              else Inr (processed, mk_Width mk mw, mk_Height mk mw)))))))"

definition ProcessImage :: "'m magick \<Rightarrow> platform \<Rightarrow> bytes \<Rightarrow> bytes result" where
  "ProcessImage mk conv data =
     (case OptimizeImage mk conv data
             \<lparr> oo_MaxDimension = 2000, oo_TargetWidth = 0, oo_TargetHeight = 0, oo_JPEGQuality = 85,
               oo_PNGQuality = 95, oo_WebPQuality = 80, oo_Strip = True \<rparr> of
        Inl err \<Rightarrow> Inl err
      | Inr (out, _, _) \<Rightarrow> Inr out)"

text \<open>\<open>uint(width)\<close> of a negative \<open>int\<close> wraps.\<close>

definition ResizeImageTo :: "'m magick \<Rightarrow> platform \<Rightarrow> bytes \<Rightarrow> int \<Rightarrow> int \<Rightarrow> bytes result" where
  "ResizeImageTo mk conv data width height =
     (if \<not> IsResizable mk data then Inl (ErrorString ''file is not a resizable image'')
      else
        (case mk_Read mk data of
           Inl err \<Rightarrow> Inl (Wrapf ''failed to read image data'' err)
         | Inr mw \<Rightarrow>
             (case calculateDimensions conv (mk_Width mk mw) (mk_Height mk mw) (word_of_int width) (word_of_int height) of
                (targetWidth, targetHeight) \<Rightarrow>
                  (case mk_Resize mk targetWidth targetHeight mw of
                     (Some err, mw) \<Rightarrow> Inl (Wrapf ''failed to resize image'' err)
                   | (None, mw) \<Rightarrow>
                       (let resized = slice (mk_Blob mk mw) in
                        if resized = [] then Inl (ErrorString ''failed to get resized image data'') else Inr resized)))))"

text \<open>
  The MinIO client adds \<open>GetObject\<close> to the store: an object handle is its \<open>Stat\<close> answer and its body, both
  as the deferred request makes them; reading a missing object fails.
\<close>

record minio_object =
  mo_Stat :: "int result"
  mo_Body :: reader

record 'w minio_client = "'w object_store" +
  mc_GetObject :: "string \<Rightarrow> string \<Rightarrow> 'w \<Rightarrow> minio_object result \<times> 'w"

definition ServiceGetImage ::
  "'m magick \<Rightarrow> platform \<Rightarrow> 'w minio_client \<Rightarrow> string \<Rightarrow> string \<Rightarrow> int \<Rightarrow> int \<Rightarrow> 'w \<Rightarrow> bytes result \<times> 'w" where
  "ServiceGetImage mk conv client bucket objectName width height w =
     (case mc_GetObject client bucket objectName w of
        (Inl err, w) \<Rightarrow> (Inl (Wrapf ''failed to get object'' err), w)
      | (Inr object, w) \<Rightarrow>
          (case rd_fail (mo_Body object) of
             Some err \<Rightarrow> (Inl (Wrapf ''failed to read object data'' err), w)
           | None \<Rightarrow>
               (let imageData = rd_data (mo_Body object) in
                if \<not> IsImageContent imageData then (Inr imageData, w)
                else if width = 0 \<and> height = 0 then (Inr imageData, w)
                else if \<not> IsResizable mk imageData then (Inr imageData, w)
                else (case ResizeImageTo mk conv imageData width height of
                        Inl err \<Rightarrow> (Inl (Wrapf ''failed to resize image'' err), w)
                      | Inr resized \<Rightarrow> (Inr resized, w)))))"

section \<open>Sizes stay under the cap\<close>

text \<open>The size chosen without explicit target dimensions stays under the cap, in spite of the rounding of the ratio.\<close>

lemma optimized_size_capped:
  assumes "oo_TargetWidth opts = 0" and "oo_TargetHeight opts = 0" and "0 < oo_MaxDimension opts"
    and "0 < h" and "unat w < 2 ^ 53" and "unat h < 2 ^ 53" and "unat (oo_MaxDimension opts) < 2 ^ 53"
    and "optimized_size conv opts w h = (w', h')"
  shows "w' \<le> oo_MaxDimension opts \<and> h' \<le> oo_MaxDimension opts"
proof -
  let ?M = "oo_MaxDimension opts" and ?r = "f64 (of_nat (unat w) / of_nat (unat h))"
  have pos: "0 < unat h" using assms(4) by (simp add: word_less_nat_alt)
  then have "(of_nat (unat h) :: rat) \<noteq> 0" unfolding of_nat_eq_0_iff by simp
  then have asp: "float_div (float_of w) (float_of h) = Fin ?r"
    unfolding float_of_exact [OF assms(5)] float_of_exact [OF assms(6)] by simp
  have M: "float_of ?M = Fin (of_nat (unat ?M))" by (rule float_of_exact [OF assms(7)])
  consider "w \<le> ?M" "h \<le> ?M" | "?M < w \<or> ?M < h" "h \<le> w" | "?M < w \<or> ?M < h" "\<not> h \<le> w" by fastforce
  then show ?thesis
  proof cases
    case 1
    then show ?thesis using assms(1,2,8) by (auto simp: optimized_size_def leD)
  next
    case 2
    have r: "1 \<le> ?r" by (rule f64_ratio_above [OF pos _ assms(5)]) (use 2 in \<open>simp add: word_le_nat_alt\<close>)
    have "(w', h') = (?M, to_uint conv (Fin (f64 (of_nat (unat ?M) / ?r))))"
      using assms(1,2,3) 2 r unfolding assms(8) [symmetric] by (simp add: optimized_size_def asp M Let_def)
    then show ?thesis using f64_share_quotient [OF r assms(7)] floor_word by simp
  next
    case 3
    have r: "0 \<le> ?r" "?r \<le> 1" using f64_ratio_below [of "unat w" "unat h"] 3 by (simp_all add: word_le_nat_alt)
    have "(w', h') = (to_uint conv (Fin (f64 (of_nat (unat ?M) * ?r))), ?M)"
      using assms(1,2,3) 3 unfolding assms(8) [symmetric] by (simp add: optimized_size_def asp M Let_def)
    then show ?thesis using f64_share_product [OF r assms(7)] floor_word by simp
  qed
qed

text \<open>What a wand of ImageMagick does with its sides: resizing sets them, the other two operations leave them alone.\<close>

definition keeps_sides :: "'m magick \<Rightarrow> bool" where
  "keeps_sides mk \<longleftrightarrow>
     (\<forall>w h mw mw'. mk_Resize mk w h mw = (None, mw') \<longrightarrow> mk_Width mk mw' = w \<and> mk_Height mk mw' = h) \<and>
     (\<forall>mw. mk_Width mk (snd (mk_Strip mk mw)) = mk_Width mk mw \<and> mk_Height mk (snd (mk_Strip mk mw)) = mk_Height mk mw) \<and>
     (\<forall>q mw. mk_Width mk (snd (mk_Quality mk q mw)) = mk_Width mk mw \<and> mk_Height mk (snd (mk_Quality mk q mw)) = mk_Height mk mw)"

lemma OptimizeImage_encodes:
  assumes "OptimizeImage mk conv data opts = Inr (out, w, h)" and "keeps_sides mk"
    and "IsResizable mk data" and "mk_Read mk data = Inr mw" and "mk_Format mk mw \<noteq> ''GIF''"
  shows "(w, h) = optimized_size conv opts (mk_Width mk mw) (mk_Height mk mw) \<and> out \<noteq> [] \<and>
    (\<exists>mw'. mk_Blob mk mw' = Some out \<and> mk_Width mk mw' = w \<and> mk_Height mk mw' = h)"
proof -
  obtain nw nh where size: "optimized_size conv opts (mk_Width mk mw) (mk_Height mk mw) = (nw, nh)" by fastforce
  obtain err mw1 where r: "(if nw \<noteq> mk_Width mk mw \<or> nh \<noteq> mk_Height mk mw then mk_Resize mk nw nh mw else (None, mw)) = (err, mw1)"
    by fastforce
  let ?mw2 = "if oo_Strip opts then snd (mk_Strip mk mw1) else mw1"
  let ?q = "quality_for opts (mk_Format mk ?mw2)"
  let ?mw3 = "if 0 < ?q then snd (mk_Quality mk ?q ?mw2) else ?mw2"
  have none: "err = None" using assms size r by (cases err) (simp_all add: OptimizeImage_def Let_def)
  have out: "slice (mk_Blob mk ?mw3) = out" "out \<noteq> []" "mk_Width mk ?mw3 = w" "mk_Height mk ?mw3 = h"
    using assms size r none by (auto simp: OptimizeImage_def Let_def split: if_splits)
  then have "mk_Blob mk ?mw3 = Some out" by (cases "mk_Blob mk ?mw3") (auto simp: slice_def)
  moreover have "mk_Width mk mw1 = nw \<and> mk_Height mk mw1 = nh"
    using assms(2) r none by (auto simp: keeps_sides_def split: if_splits)
  then have "mk_Width mk ?mw3 = nw \<and> mk_Height mk ?mw3 = nh" using assms(2) by (simp add: keeps_sides_def)
  ultimately show ?thesis using size out by auto
qed

text \<open>
  Property C36.  An optimized image stays under the cap.  Let \<open>OPTIMIZE_MAX_DIMENSION\<close> be positive, the request name
  no target sides, and the picture that ImageMagick reads have sides of 1 to 2^53 pixels.  Then what
  \<open>OptimizeImage\<close> answers for it is the encoding of a picture with both sides at most the
  cap, and these are the sides it reports; only content it does not resize and GIFs come back, untouched
  and at their own size.  (When it answers an error, the handlers keep the posted bytes.)
\<close>

lemma optimized_image_capped:
  assumes "keeps_sides mk" and "OptimizeImage mk conv data opts = Inr (out, w, h)"
    and "oo_TargetWidth opts = 0" and "oo_TargetHeight opts = 0"
    and "0 < oo_MaxDimension opts" and "unat (oo_MaxDimension opts) < 2 ^ 53"
    and "\<forall>mw. mk_Read mk data = Inr mw \<longrightarrow> 0 < mk_Height mk mw \<and> unat (mk_Width mk mw) < 2 ^ 53 \<and> unat (mk_Height mk mw) < 2 ^ 53"
  shows "if \<not> IsResizable mk data \<or> (\<exists>mw. mk_Read mk data = Inr mw \<and> mk_Format mk mw = ''GIF'') then out = data
    else w \<le> oo_MaxDimension opts \<and> h \<le> oo_MaxDimension opts \<and> out \<noteq> [] \<and>
      (\<exists>mw. mk_Blob mk mw = Some out \<and> mk_Width mk mw = w \<and> mk_Height mk mw = h)"
proof (cases "\<not> IsResizable mk data \<or> (\<exists>mw. mk_Read mk data = Inr mw \<and> mk_Format mk mw = ''GIF'')")
  case True
  then show ?thesis using assms(2) by (auto simp: OptimizeImage_def split: if_splits)
next
  case False
  then obtain mw where mw: "IsResizable mk data" "mk_Read mk data = Inr mw" "mk_Format mk mw \<noteq> ''GIF''"
    using assms(2) by (cases "mk_Read mk data") (auto simp: OptimizeImage_def)
  note encoded = OptimizeImage_encodes [OF assms(2,1) mw]
  have "w \<le> oo_MaxDimension opts \<and> h \<le> oo_MaxDimension opts"
    using optimized_size_capped [OF assms(3,4,5) _ _ _ assms(6), of "mk_Height mk mw" "mk_Width mk mw" conv w h] assms(7) mw(2) encoded
    by simp
  then show ?thesis unfolding if_not_P [OF False] using encoded by blast
qed

text \<open>
  The derived side of a resize is not capped: from a source one pixel high and \<open>k\<close> wide a
  request for height \<open>t\<close> alone makes an image \<open>t * k\<close> wide, whatever \<open>MAX_RESIZE_DIMENSION\<close> was applied to
  the request.
\<close>

lemma derived_side_uncapped:
  assumes "0 < k" and "unat k < 2 ^ 53" and "0 < t" and "unat t < 2 ^ 53" and "unat t * unat k < 2 ^ 53"
  shows "RatioWidthHeight conv k 1 0 t = (t * k, t)"
proof -
  let ?k = "of_nat (unat k) :: rat" and ?t = "of_nat (unat t) :: rat"
  have one: "float_of 1 = Fin 1" using float_of_exact [of 1] by simp
  have d: "float_div (float_of k) (float_of 1) = Fin ?k"
    unfolding one float_of_exact [OF assms(2)] using f64_nat [OF assms(2)] by simp
  have p: "?t * ?k = of_nat (unat t * unat k)" by (simp only: of_nat_mult)
  have m: "float_mul (float_of t) (Fin ?k) = Fin (of_nat (unat t * unat k))"
    unfolding float_of_exact [OF assms(4)] float_mul.simps p f64_nat [OF assms(5)] by (rule refl)
  have lt: "(of_nat (unat t * unat k) :: rat) < 2 ^ 64"
  proof -
    have "(of_nat (unat t * unat k) :: rat) < of_nat (2 ^ 53)" using assms(5) by (simp only: of_nat_less_iff)
    then show ?thesis by simp
  qed
  have "to_uint conv (Fin (of_nat (unat t * unat k))) = word_of_nat (unat t * unat k)"
    using lt unfolding to_uint_def by (simp del: of_nat_mult add: floor_of_nat)
  also have "\<dots> = t * k" by simp
  finally have "to_uint conv (float_mul (float_of t) (float_div (float_of k) (float_of 1))) = t * k" by (simp only: d m)
  then show ?thesis using assms(3) by (auto simp: RatioWidthHeight_def Let_def)
qed

lemma derived_side_uncapped_witness:
  "RatioWidthHeight (\<lambda>_. 0) 4000 1 0 5000 = ((20000000::64 word), 5000)"
  using derived_side_uncapped [of 4000 5000 "\<lambda>_. 0"] by simp

text \<open>
  Optimizing never loses an upload: a success returns the bytes that came in, or a non-empty
  re-encoding of a picture that ImageMagick could read in one of the formats it resizes; a GIF always comes
  back as it was.
\<close>

lemma OptimizeImage_result:
  assumes "OptimizeImage mk conv data opts = Inr (out, w, h)"
  shows "out = data \<or> (out \<noteq> [] \<and> IsResizable mk data \<and> (\<exists>mw. mk_Read mk data = Inr mw \<and> mk_Format mk mw \<noteq> ''GIF''))"
proof (cases "IsResizable mk data")
  case False
  then show ?thesis using assms by (simp add: OptimizeImage_def)
next
  case True
  then obtain mw where mw: "mk_Read mk data = Inr mw"
    using assms by (cases "mk_Read mk data") (auto simp: OptimizeImage_def)
  show ?thesis
  proof (cases "mk_Format mk mw = ''GIF''")
    case gif: True
    then show ?thesis using assms True mw by (simp add: OptimizeImage_def)
  next
    case False
    then show ?thesis using assms True mw
      by (auto simp: OptimizeImage_def Let_def split: prod.splits option.splits if_splits)
  qed
qed

text \<open>A wand of width, height, format and blob for the witnesses: resizing sets the sides.\<close>

definition plain_magick :: "(nat \<times> nat) magick" where
  "plain_magick =
     \<lparr> mk_Read = (\<lambda>b. if 4 \<le> length b then Inr (length b, 1) else Inl (ErrorString ''no decode delegate'')),
       mk_Width = (\<lambda>m. word_of_nat (fst m)), mk_Height = (\<lambda>m. word_of_nat (snd m)),
       mk_Format = (\<lambda>_. ''PNG''),
       mk_Resize = (\<lambda>w h m. (None, (unat w, unat h))),
       mk_Quality = (\<lambda>q m. (None, m)), mk_Strip = (\<lambda>m. (None, m)),
       mk_Blob = (\<lambda>m. Some (replicate (fst m) 7)) \<rparr>"

text \<open>A picture eight pixels wide, under a cap of five.\<close>

lemma optimized_image_capped_witness:
  "let data = [0x89, 0x50, 0x4E, 0x47, 1, 2, 3, 4]; opts = (DefaultOptimizeOptions (\<lambda>_. []))\<lparr>oo_MaxDimension := 5\<rparr> in
   \<exists>out w h. OptimizeImage plain_magick (\<lambda>_. 0) data opts = Inr (out, w, h) \<and> w \<le> 5 \<and> h \<le> 5 \<and> out \<noteq> []"
proof -
  let ?data = "[0x89, 0x50, 0x4E, 0x47, 1, 2, 3, 4] :: bytes" and ?opts = "(DefaultOptimizeOptions (\<lambda>_. []))\<lparr>oo_MaxDimension := 5\<rparr>"
  have run: "OptimizeImage plain_magick (\<lambda>_. 0) ?data ?opts = Inr ([7, 7, 7, 7, 7], 5, 0)" by code_simp
  have kinds: "IsResizable plain_magick ?data" "mk_Read plain_magick ?data = Inr (8, 1)" "mk_Format plain_magick (8, 1) \<noteq> ''GIF''"
    by code_simp+
  have "keeps_sides plain_magick" by (simp add: keeps_sides_def plain_magick_def)
  from optimized_image_capped [OF this run] kinds show ?thesis
    unfolding Let_def run by (auto simp: DefaultOptimizeOptions_def plain_magick_def)
qed

lemma OptimizeImage_result_witness:
  "\<exists>out. OptimizeImage plain_magick (\<lambda>_. 0) [0x89, 0x50, 0x4E, 0x47, 1] (DefaultOptimizeOptions (\<lambda>_. [])) = Inr (out, 5, 1) \<and>
     (out = [0x89, 0x50, 0x4E, 0x47, 1] \<or>
      (out \<noteq> [] \<and> IsResizable plain_magick [0x89, 0x50, 0x4E, 0x47, 1] \<and>
       (\<exists>mw. mk_Read plain_magick [0x89, 0x50, 0x4E, 0x47, 1] = Inr mw \<and> mk_Format plain_magick mw \<noteq> ''GIF'')))"
proof -
  have "OptimizeImage plain_magick (\<lambda>_. 0) [0x89, 0x50, 0x4E, 0x47, 1] (DefaultOptimizeOptions (\<lambda>_. [])) =
      Inr ([7, 7, 7, 7, 7], 5, 1)"
    by code_simp
  from OptimizeImage_result [OF this] this show ?thesis by blast
qed

end
