(* ===== verification/File_Helpers.thy ===== *)
theory File_Helpers
  imports Go_Strings
begin

text \<open>
  The stream and file helpers of \<open>service/util.go\<close> over a file system and an HTTP client given as functions.
  \<open>StreamToByte\<close> is used by the image handler; nothing calls the others.
\<close>

text \<open>A read error ends the copy and is dropped: what was read until then is the answer.\<close>

definition StreamToByte :: "reader \<Rightarrow> bytes" where
  [simp]: "StreamToByte stream = rd_data stream"

definition ByteToStream :: "bytes \<Rightarrow> reader" where
  "ByteToStream data = whole data"

text \<open>The parameter is not used; \<open>n\<close> is the random number below a million.\<close>

definition RandomName :: "int \<Rightarrow> int \<Rightarrow> int \<Rightarrow> string" where
  "RandomName len micros n = Itoa micros @ ''_'' @ Itoa n"

record 'w file_system =
  fs_Open :: "string \<Rightarrow> 'w \<Rightarrow> reader result \<times> 'w"
  fs_Create :: "string \<Rightarrow> 'w \<Rightarrow> gerror option \<times> 'w"
  fs_Copy :: "string \<Rightarrow> reader \<Rightarrow> 'w \<Rightarrow> gerror option \<times> 'w"

text \<open>A file that was not opened is nil, and reading it fails at once.\<close>

definition ImageToByte :: "'w file_system \<Rightarrow> string \<Rightarrow> 'w \<Rightarrow> bytes \<times> 'w" where
  "ImageToByte fs img w =
     (let (opened, w) = fs_Open fs img w;
          buffer = (case opened of
                      Inl err \<Rightarrow> \<lparr> rd_data = [], rd_fail = Some (ErrorString ''invalid argument'') \<rparr>
                    | Inr stream \<Rightarrow> stream)
      in (StreamToByte buffer, w))"

definition DownloadFile ::
  "(string \<Rightarrow> 'w \<Rightarrow> reader result \<times> 'w) \<Rightarrow> 'w file_system \<Rightarrow> string \<Rightarrow> string \<Rightarrow> 'w \<Rightarrow> gerror option \<times> 'w" where
  "DownloadFile get fs filepath url w =
     (case get url w of
        (Inl err, w) \<Rightarrow> (Some err, w)
      | (Inr body, w) \<Rightarrow>
          (case fs_Create fs filepath w of
             (Some err, w) \<Rightarrow> (Some err, w)
           | (None, w) \<Rightarrow> fs_Copy fs filepath body w))"

lemma stream_roundtrip: "StreamToByte (ByteToStream data) = data"
  by (simp add: ByteToStream_def)

text \<open>Two calls at different microseconds answer different names; within one microsecond the random number decides.\<close>

lemma RandomName_inject:
  assumes "RandomName a (int x) (int n) = RandomName b (int y) (int m)"
  shows "x = y \<and> n = m"
proof -
  have digits: "CHR ''_'' \<notin> set (decimal k)" for k using decimal_digits [of "CHR ''_''" k] by (auto simp: is_digit_def)
  have "decimal x @ CHR ''_'' # decimal n = decimal y @ CHR ''_'' # decimal m"
    using assms by (simp add: RandomName_def Itoa_def)
  then have "decimal x = decimal y \<and> decimal n = decimal m" using append_sep_inject digits by metis
  then show ?thesis using decimal_inject by blast
qed

text \<open>A download reports success only when all three steps succeeded; a target that cannot be made leaves no copy.\<close>

lemma DownloadFile_None:
  "DownloadFile get fs filepath url w = (None, w') \<Longrightarrow>
   \<exists>body w1 w2. get url w = (Inr body, w1) \<and> fs_Create fs filepath w1 = (None, w2) \<and> fs_Copy fs filepath body w2 = (None, w')"
  by (auto simp: DownloadFile_def split: prod.splits sum.splits option.splits)

end
