(* ===== verification/Image_Handler.thy ===== *)
theory Image_Handler
  imports Archive_Handler Image_Service Object_Names File_Helpers Worker_Pool Batch_Processor
begin

text \<open>
  \<open>handler/image.go\<close>: reading, uploading, resizing and deleting objects, one definition per handler.
  The two batch handlers treat their files one after the other, in the order of the request; the Go
  code runs up to ten at a time and answers in the order they finish.
\<close>

section \<open>The handler and its surroundings\<close>

text \<open>
  A file that can be read again: \<open>sf_Body\<close> from its start, \<open>sf_Rest\<close> once it was drained, and what
  seeking back to the start answers.
\<close>

record seek_file =
  sf_Body :: reader
  sf_Rest :: reader
  sf_Seek :: "gerror option"

definition rewound :: "seek_file \<Rightarrow> reader" where
  "rewound f = (case sf_Seek f of None \<Rightarrow> sf_Body f | Some err \<Rightarrow> sf_Rest f)"

definition memory_file :: "bytes \<Rightarrow> seek_file" where
  "memory_file content = \<lparr> sf_Body = whole content, sf_Rest = whole [], sf_Seek = None \<rparr>"

text \<open>The temporary files of the operating system; an operation answers the file as it is afterwards.\<close>

record 'w temp_files =
  tf_CreateTemp :: "string \<Rightarrow> 'w \<Rightarrow> seek_file result \<times> 'w"
  tf_Write :: "seek_file \<Rightarrow> bytes \<Rightarrow> 'w \<Rightarrow> (gerror option \<times> seek_file) \<times> 'w"
  tf_Seek :: "seek_file \<Rightarrow> 'w \<Rightarrow> (gerror option \<times> seek_file) \<times> 'w"

text \<open>\<open>CreateFile\<close> of \<open>service/util.go\<close>: a temporary file with the content, back at its start.\<close>

definition CreateFile :: "'w temp_files \<Rightarrow> bytes \<Rightarrow> 'w \<Rightarrow> seek_file result \<times> 'w" where
  "CreateFile tf content w =
     (case tf_CreateTemp tf ''create_image_*.png'' w of
        (Inl err, w) \<Rightarrow> (Inl err, w)
      | (Inr tempFile, w) \<Rightarrow>
          (case tf_Write tf tempFile content w of
             ((Some err, _), w) \<Rightarrow> (Inl err, w)
           | ((None, tempFile), w) \<Rightarrow>
               (case tf_Seek tf tempFile w of
                  ((Some err, _), w) \<Rightarrow> (Inl err, w)
                | ((None, tempFile), w) \<Rightarrow> (Inr tempFile, w))))"

record file_header =
  fh_Filename :: string
  fh_Size :: int
  fh_ContentType :: string
  fh_Open :: "seek_file result"

text \<open>A form: its values, empty when absent, and its file, absent also when \<open>FormFile\<close> fails.\<close>

record form =
  fm_Value :: "string \<Rightarrow> string"
  fm_File :: "file_header option"

text \<open>
  The fields of the Go struct, and what the handlers call outside it: the environment,
  \<open>http.DetectContentType\<close>, the text of an error, \<open>uuid.New\<close>, \<open>acquireResizeSlot\<close>'s answer and
  the temporary files.
\<close>

record ('m, 'w) image_handler =
  ih_minio :: "'w minio_client"
  ih_aws :: "'w s3_sdk"
  ih_archive :: "'w Archive option"
  ih_magick :: "'m magick"
  ih_conv :: platform
  ih_env :: env
  ih_detect :: "bytes \<Rightarrow> string"
  ih_text :: "gerror \<Rightarrow> string"
  ih_uuid :: "'w \<Rightarrow> string \<times> 'w"
  ih_slot :: "'w \<Rightarrow> bool \<times> 'w"
  ih_temp :: "'w temp_files"

text \<open>What goes back: a JSON answer, a file of the server, bytes, or a stream of a given size.\<close>

type_synonym headers = "string \<rightharpoonup> string"

datatype 'd reply =
    Json headers "'d http_response"
  | SendFile headers string
  | Send headers bytes
  | SendStream headers reader int

definition not_found :: "headers \<Rightarrow> 'd reply" where
  "not_found h = SendFile h ''./public/notfound.png''"

definition set_sides :: "64 word \<Rightarrow> 64 word \<Rightarrow> headers \<Rightarrow> headers" where
  "set_sides width height h = h(''Width'' \<mapsto> Itoa (sint width), ''Height'' \<mapsto> Itoa (sint height))"

section \<open>Slots\<close>

definition optimize_slots :: "env \<Rightarrow> int" where
  "optimize_slots env = (let n = GetEnvAsIntOrDefault env ''OPTIMIZE_MAX_CONCURRENT'' 4 in if n < 1 then 1 else n)"

definition resize_slots :: "env \<Rightarrow> int" where
  "resize_slots env = (let n = GetEnvAsIntOrDefault env ''RESIZE_MAX_CONCURRENT'' 4 in if n < 1 then 1 else n)"

text \<open>
  The requests that need a slot, each in its phase: a buffered channel of capacity \<open>cap\<close> takes one token per
  request that decodes; a waiting request gives up when its timer fires.
\<close>

datatype phase = Arrived | WaitingForSlot | Decoding | Served | GaveUp

inductive slot_step :: "nat \<Rightarrow> phase list \<Rightarrow> phase list \<Rightarrow> bool" for cap where
  enter: "k < length ps \<Longrightarrow> ps ! k = Arrived \<Longrightarrow> slot_step cap ps (ps[k := WaitingForSlot])"
| acquire: "k < length ps \<Longrightarrow> ps ! k = WaitingForSlot \<Longrightarrow> length (filter (\<lambda>p. p = Decoding) ps) < cap \<Longrightarrow>
    slot_step cap ps (ps[k := Decoding])"
| time_out: "k < length ps \<Longrightarrow> ps ! k = WaitingForSlot \<Longrightarrow> slot_step cap ps (ps[k := GaveUp])"
| release: "k < length ps \<Longrightarrow> ps ! k = Decoding \<Longrightarrow> slot_step cap ps (ps[k := Served])"

section \<open>Archiving an upload\<close>

datatype archive_note = NoArchive | ArchiveUploaded | ArchiveFailed gerror

definition archiveObject ::
  "('m, 'w) image_handler \<Rightarrow> string \<Rightarrow> string \<Rightarrow> reader \<Rightarrow> 'w \<Rightarrow> archive_note \<times> 'w" where
  "archiveObject i bucket objectName body w =
     (case ih_archive i of
        None \<Rightarrow> (NoArchive, w)
      | Some archive \<Rightarrow>
          (if \<not> ar_InScope archive bucket then (NoArchive, w)
           else (case ar_Put archive bucket objectName body w of
                   (Some err, w) \<Rightarrow> (ArchiveFailed err, w)
                 | (None, w) \<Rightarrow> (ArchiveUploaded, w))))"

definition rewindAndArchive ::
  "('m, 'w) image_handler \<Rightarrow> string \<Rightarrow> string \<Rightarrow> seek_file \<Rightarrow> 'w \<Rightarrow> archive_note \<times> 'w" where
  "rewindAndArchive i bucket objectName body w =
     (case ih_archive i of
        None \<Rightarrow> (NoArchive, w)
      | Some archive \<Rightarrow>
          (if \<not> ar_InScope archive bucket then (NoArchive, w)
           else (case sf_Seek body of
                   Some err \<Rightarrow> (ArchiveFailed err, w)
                 | None \<Rightarrow> archiveObject i bucket objectName (sf_Body body) w)))"

section \<open>Checking and optimizing content\<close>

text \<open>No letter but S, V and G lowers to s, v or g, so lowering the ASCII letters is enough here.\<close>

definition lower_ascii :: "8 word \<Rightarrow> 8 word" where
  "lower_ascii b = (if 0x41 \<le> b \<and> b \<le> 0x5A then b + 0x20 else b)"

fun contains :: "'a list \<Rightarrow> 'a list \<Rightarrow> bool" where
  "contains [] p \<longleftrightarrow> p = []"
| "contains (c # s) p \<longleftrightarrow> HasPrefix (c # s) p \<or> contains s p"

definition isValidSVG :: "bytes \<Rightarrow> bool" where
  "isValidSVG content \<longleftrightarrow> contains (map lower_ascii (take 2048 content)) [0x3C, 0x73, 0x76, 0x67]"

definition validateImageContent ::
  "('m, 'w) image_handler \<Rightarrow> string \<Rightarrow> bytes \<Rightarrow> (64 word \<times> 64 word) result" where
  "validateImageContent i filename content =
     (if \<not> IsImageFile filename then Inr (0, 0)
      else
        (let validate = GetEnvAsBoolOrDefault (ih_env i) ''VALIDATE_FILE'' True in
         if HasSuffix (ToLower filename) ''.svg''
         then (if \<not> isValidSVG content \<and> validate then Inl (ErrorString ''invalid image content'') else Inr (0, 0))
         else (case GetImageInfo (ih_magick i) content of
                 Inl err \<Rightarrow> (if validate then Inl (ErrorString ''invalid image content'') else Inr (0, 0))
               | Inr (w, h, _) \<Rightarrow> Inr (w, h))))"

definition maybeOptimize ::
  "('m, 'w) image_handler \<Rightarrow> bytes \<Rightarrow> OptimizeOptions \<Rightarrow> bytes \<times> 64 word \<times> 64 word" where
  "maybeOptimize i content opts =
     (case OptimizeImage (ih_magick i) (ih_conv i) content opts of
        Inl err \<Rightarrow> (content, 0, 0)
      | Inr (out, w, h) \<Rightarrow> (out, w, h))"

section \<open>Reading\<close>

definition errObjectMissing :: gerror where
  "errObjectMissing = ErrorString ''object not found in storage or archive''"

definition openObject ::
  "('m, 'w) image_handler \<Rightarrow> string \<Rightarrow> string \<Rightarrow> 'w \<Rightarrow> (reader \<times> int) result \<times> 'w" where
  "openObject i bucket objectName w =
     (case mc_GetObject (ih_minio i) bucket objectName w of
        (got, w) \<Rightarrow>
          (case (case got of
                   Inl err \<Rightarrow> None
                 | Inr object \<Rightarrow>
                     (case mo_Stat object of
                        Inl statErr \<Rightarrow> None
                      | Inr sz \<Rightarrow> (if 0 < sz then Some (mo_Body object, sz) else None))) of
             Some found \<Rightarrow> (Inr found, w)
           | None \<Rightarrow>
               (case ih_archive i of
                  None \<Rightarrow> (Inl errObjectMissing, w)
                | Some archive \<Rightarrow>
                    (if \<not> ar_Enabled archive then (Inl errObjectMissing, w)
                     else (case ar_Open archive bucket objectName w of
                             (Inl archiveErr, w) \<Rightarrow> (Inl errObjectMissing, w)
                           | (Inr found, w) \<Rightarrow> (Inr found, w))))))"

definition media_type :: "string \<Rightarrow> string" where
  "media_type sniffed = ToLower (TrimSpace (takeWhile (\<lambda>c. c \<noteq> CHR '';'') sniffed))"

definition executable_types :: "string list" where
  "executable_types = [''text/html'', ''application/xhtml+xml'', ''text/xml'', ''application/xml'']"

definition inertContentType :: "string \<Rightarrow> string" where
  "inertContentType sniffed =
     (if media_type sniffed \<in> set executable_types then ''text/plain; charset=utf-8'' else sniffed)"

definition svg_policy :: string where
  "svg_policy = ''default-src 'none'; style-src 'unsafe-inline'; sandbox''"

definition contentTypeFor :: "('m, 'w) image_handler \<Rightarrow> bool \<Rightarrow> bytes \<Rightarrow> string" where
  "contentTypeFor i isSVG head = (if isSVG then ''image/svg+xml'' else inertContentType (ih_detect i head))"

text \<open>The size a read asks for: the path form first, then the query form, and only for image names.\<close>

definition read_size :: "env \<Rightarrow> (request_source \<Rightarrow> string \<Rightarrow> string) \<Rightarrow> string \<Rightarrow> bool \<times> 64 word \<times> 64 word" where
  "read_size env field objectName =
     (if \<not> IsImageFile objectName then (False, 0, 0)
      else (case GetWidthAndHeight env field ParamsType of
              (resize, width, height) \<Rightarrow>
                (if resize then (resize, width, height) else GetWidthAndHeight env field QueryType)))"

text \<open>The resize path: the whole object is in memory.\<close>

definition send_resized ::
  "('m, 'w) image_handler \<Rightarrow> bool \<Rightarrow> headers \<Rightarrow> bytes \<Rightarrow> 64 word \<Rightarrow> 64 word \<Rightarrow> 'w \<Rightarrow> 'd reply \<times> 'w" where
  "send_resized i isSVG h getByte width height w =
     (if getByte = [] then (not_found h, w)
      else
        (case ih_slot i w of
           (False, w) \<Rightarrow>
             (Send (h(''Cache-Control'' \<mapsto> ''no-store'', ''Content-Type'' \<mapsto> contentTypeFor i isSVG getByte)) getByte, w)
         | (True, w) \<Rightarrow>
             (let h = (case ImagickGetWidthHeight (ih_magick i) getByte of
                         (None, orjWidth, orjHeight) \<Rightarrow> set_sides orjWidth orjHeight h
                       | (Some err, _, _) \<Rightarrow> h)
              in (Send (h(''Content-Type'' \<mapsto> contentTypeFor i isSVG getByte))
                    (slice (ImagickResize (ih_magick i) (ih_conv i) getByte width height)), w))))"

text \<open>
  The streaming path: \<open>io.ReadFull\<close> of 512 bytes fails only when the stream breaks before it has
  delivered that many; the head is replayed in front of the rest.
\<close>

definition send_stream :: "('m, 'w) image_handler \<Rightarrow> bool \<Rightarrow> headers \<Rightarrow> reader \<Rightarrow> int \<Rightarrow> 'd reply" where
  "send_stream i isSVG h body sz =
     (let head = take 512 (rd_data body) in
      if length head < 512 \<and> rd_fail body \<noteq> None then not_found h
      else SendStream (h(''Content-Type'' \<mapsto> contentTypeFor i isSVG head))
             (body\<lparr>rd_data := head @ drop 512 (rd_data body)\<rparr>) sz)"

definition GetImage ::
  "('m, 'w) image_handler \<Rightarrow> string \<Rightarrow> string \<Rightarrow> (request_source \<Rightarrow> string \<Rightarrow> string) \<Rightarrow> 'w \<Rightarrow> 'd reply \<times> 'w" where
  "GetImage i bucket objectName field w =
     (if HasUnsafeObjectKey objectName then (not_found Map.empty, w)
      else
        (case read_size (ih_env i) field objectName of
           (resize, width, height) \<Rightarrow>
             (case BucketExists (ih_minio i) bucket w of
                (Inr True, w) \<Rightarrow>
                  (case openObject i bucket objectName w of
                     (Inl err, w) \<Rightarrow> (not_found Map.empty, w)
                   | (Inr (body, sz), w) \<Rightarrow>
                       (let isSVG = HasSuffix (ToLower objectName) ''.svg'';
                            h = (if isSVG then [''Content-Security-Policy'' \<mapsto> svg_policy] else Map.empty)
                        in if resize then send_resized i isSVG h (StreamToByte body) width height w
                           else (send_stream i isSVG h body sz, w)))
              | (_, w) \<Rightarrow> (not_found Map.empty, w))))"

section \<open>Uploading\<close>

text \<open>The data of an answer: the code of a refused file, or what was stored where.\<close>

datatype upload_data =
    Code validation_error
  | InvalidImageContent
  | Uploaded int archive_note string string string

text \<open>The list of allowed formats, in whatever order the map yields it, is left out of the message.\<close>

definition invalid_file :: "validation_error \<Rightarrow> upload_data http_response" where
  "invalid_file e =
     Response 400 False
       (case e of
          FILE_TOO_LARGE n \<Rightarrow> ''File size is too large. Maximum: '' @ Itoa n @ '' bytes''
        | INVALID_FILE_FORMAT \<Rightarrow> ''Invalid file format. Allowed formats: ''
        | INVALID_FILE_CONTENT \<Rightarrow> ''Invalid file content'') (Some (Code e))"

definition invalid_image :: "upload_data http_response" where
  "invalid_image = Response 400 False ''invalid image content'' (Some InvalidImageContent)"

text \<open>\<open>None\<close> when the bucket is there or was made; a name is checked only when it is about to be created.\<close>

definition ensure_bucket :: "('m, 'w) image_handler \<Rightarrow> string \<Rightarrow> 'w \<Rightarrow> 'd http_response option \<times> 'w" where
  "ensure_bucket i bucket w =
     (case BucketExists (ih_minio i) bucket w of
        (Inl err, w) \<Rightarrow> (Some (bad_request (''bucket check failed: '' @ ih_text i err)), w)
      | (Inr True, w) \<Rightarrow> (None, w)
      | (Inr False, w) \<Rightarrow>
          (case ValidateName bucket of
             Some err \<Rightarrow> (Some (bad_request (ih_text i err)), w)
           | None \<Rightarrow>
               (case MakeBucket (ih_minio i) bucket w of
                  (Some err, w) \<Rightarrow> (Some (bad_request ''Bucket Not Found And Not Created!''), w)
                | (None, w) \<Rightarrow> (None, w))))"

definition object_name :: "string \<Rightarrow> string \<Rightarrow> string" where
  "object_name path imageName =
     (if path = '''' then imageName else SanitizeObjectName (TrimSet {CHR ''/''} path) @ ''/'' @ imageName)"

definition object_link :: "env \<Rightarrow> string \<Rightarrow> string \<Rightarrow> string" where
  "object_link env bucket objectName =
     TrimSuffix (GetEnvOrDefault env ''APP_URL'' ''http://localhost:9090'') ''/'' @ ''/'' @ bucket @ ''/'' @ objectName"

text \<open>What is about to be stored: the file, the reader handed to MinIO, its size and its type.\<close>

record payload =
  py_File :: seek_file
  py_Body :: reader
  py_Size :: int
  py_Type :: string

text \<open>Replacing the file by a temporary one holding \<open>content\<close>; when that cannot be made the old one stays.\<close>

definition replace_file ::
  "('m, 'w) image_handler \<Rightarrow> bytes \<Rightarrow> (headers \<Rightarrow> headers) \<Rightarrow> headers \<Rightarrow> payload \<Rightarrow> 'w \<Rightarrow> (headers \<times> payload) \<times> 'w" where
  "replace_file i content set_sizes h p w =
     (case CreateFile (ih_temp i) content w of
        (Inl err, w) \<Rightarrow> ((h, p), w)
      | (Inr tempFile, w) \<Rightarrow>
          (((set_sizes h)(''Content-Length'' \<mapsto> Itoa (int (length content))),
            p\<lparr>py_File := tempFile, py_Body := sf_Body tempFile, py_Size := int (length content)\<rparr>), w))"

text \<open>
  From the opened file to the payload.  A file that cannot be read to its end skips every check on its
  content and is stored from where the reading stopped.
\<close>

definition read_payload ::
  "('m, 'w) image_handler \<Rightarrow> form \<Rightarrow> file_header \<Rightarrow> seek_file \<Rightarrow> 'w
     \<Rightarrow> (upload_data http_response + headers \<times> payload) \<times> 'w" where
  "read_payload i form file fileBuffer w =
     (if rd_fail (sf_Body fileBuffer) \<noteq> None then
        (Inr (Map.empty, \<lparr> py_File = fileBuffer, py_Body = sf_Rest fileBuffer, py_Size = fh_Size file,
                           py_Type = fh_ContentType file \<rparr>), w)
      else
        (let fileContent = rd_data (sf_Body fileBuffer) in
         case ValidateFileContent (ih_env i) fileContent of
           Some valErr \<Rightarrow> (Inl (invalid_file valErr), w)
         | None \<Rightarrow>
             (case validateImageContent i (fh_Filename file) fileContent of
                Inl verr \<Rightarrow> (Inl invalid_image, w)
              | Inr (orjWidth, orjHeight) \<Rightarrow>
                  (let p = \<lparr> py_File = fileBuffer, py_Body = rewound fileBuffer, py_Size = int (length fileContent),
                             py_Type = ih_detect i fileContent \<rparr>;
                       h = (if 0 < orjWidth \<and> 0 < orjHeight then set_sides orjWidth orjHeight Map.empty else Map.empty)
                   in case GetWidthAndHeight (ih_env i) (\<lambda>_. fm_Value form) FormsType of
                        (resize, width, height) \<Rightarrow>
                          (if fm_Value form ''optimize'' = ''true'' \<and> IsImageFile (fh_Filename file) then
                             (let opts = DefaultOptimizeOptions (ih_env i);
                                  opts = (if resize then opts\<lparr>oo_TargetWidth := width, oo_TargetHeight := height\<rparr> else opts)
                              in case maybeOptimize i fileContent opts of
                                   (optimized, ow, oh) \<Rightarrow>
                                     map_prod Inr id
                                       (replace_file i optimized (if 0 < ow \<and> 0 < oh then set_sides ow oh else id) h p w))
                           else if resize \<and> 0 < orjWidth \<and> 0 < orjHeight then
                             (case RatioWidthHeight (ih_conv i) orjWidth orjHeight width height of
                                (width, height) \<Rightarrow>
                                  map_prod Inr id
                                    (replace_file i (slice (ImagickResize (ih_magick i) (ih_conv i) fileContent width height))
                                       (set_sides width height) h p w))
                           else (Inr (h, p), w))))))"

text \<open>Storing and archiving the payload, the end of both upload handlers.\<close>

definition store_payload ::
  "('m, 'w) image_handler \<Rightarrow> string \<Rightarrow> string \<Rightarrow> string \<Rightarrow> headers \<Rightarrow> payload \<Rightarrow> 'w
     \<Rightarrow> upload_data reply \<times> 'w" where
  "store_payload i bucket objectName imageName h p w =
     (case PutObject (ih_minio i) bucket objectName (py_Body p) (py_Size p) (py_Type p) w of
        (Inl err, w) \<Rightarrow> (Json h (bad_request (ih_text i err)), w)
      | (Inr n, w) \<Rightarrow>
          (case rewindAndArchive i bucket objectName (py_File p) w of
             (note, w) \<Rightarrow>
               (Json h (Response 201 True ''success''
                  (Some (Uploaded (py_Size p) note imageName objectName (object_link (ih_env i) bucket objectName)))), w)))"

definition UploadImage ::
  "('m, 'w) image_handler \<Rightarrow> request \<Rightarrow> form \<Rightarrow> 'w \<Rightarrow> upload_data reply \<times> 'w" where
  "UploadImage i c form w =
     (case fm_File form of
        None \<Rightarrow> (Json Map.empty (bad_request ''File Not Found!''), w)
      | Some file \<Rightarrow>
          (case fst (resolveBucket c (fm_Value form ''bucket'')) of
             Inl err \<Rightarrow> (Json Map.empty forbidden, w)
           | Inr bucket \<Rightarrow>
               (if bucket = '''' then (Json Map.empty (bad_request ''Bucket is required''), w)
                else
                  (case ensure_bucket i bucket w of
                     (Some refused, w) \<Rightarrow> (Json Map.empty refused, w)
                   | (None, w) \<Rightarrow>
                       (case ValidateFile (ih_env i) (fh_Size file) (fh_Filename file) of
                          Some valErr \<Rightarrow> (Json Map.empty (invalid_file valErr), w)
                        | None \<Rightarrow>
                            (case fh_Open file of
                               Inl err \<Rightarrow> (Json Map.empty (bad_request (ih_text i err)), w)
                             | Inr fileBuffer \<Rightarrow>
                                 (let parseFileName = split_on (CHR ''.'') (fh_Filename file) in
                                  if length parseFileName < 2
                                  then (Json Map.empty (bad_request ''File extension not found!''), w)
                                  else
                                    (case ih_uuid i w of
                                       (randomName, w) \<Rightarrow>
                                         (let imageName = randomName @ ''.'' @ SanitizeObjectName (last parseFileName);
                                              objectName = object_name (fm_Value form ''path'') imageName
                                          in case read_payload i form file fileBuffer w of
                                               (Inl refused, w) \<Rightarrow> (Json Map.empty refused, w)
                                             | (Inr (h, p), w) \<Rightarrow>
                                                 store_payload i bucket objectName imageName h p w)))))))))"

section \<open>Uploading from a URL\<close>

record UploadUrlRequest =
  uq_Path :: string
  uq_Bucket :: string
  uq_URL :: string
  uq_Optimize :: bool

text \<open>What a fetch needs: \<open>net.SplitHostPort\<close>, \<open>net.ParseIP\<close> and the network.\<close>

record 'w fetcher =
  ft_SplitHost :: "string \<Rightarrow> string option"
  ft_ParseIP :: "string \<Rightarrow> ip option"
  ft_net :: "'w network"

text \<open>\<open>io.ReadAll(io.LimitReader(body, n))\<close>: a failure behind the limit is not seen.\<close>

definition read_limited :: "int \<Rightarrow> reader \<Rightarrow> bytes result" where
  "read_limited n body =
     (if n \<le> int (length (rd_data body)) then Inr (take (nat n) (rd_data body))
      else (case rd_fail body of None \<Rightarrow> Inr (rd_data body) | Some err \<Rightarrow> Inl err))"

text \<open>The extension under which fetched content is stored, \<open>None\<close> when the handler refuses it.\<close>

definition fetched_extension :: "string \<Rightarrow> string \<Rightarrow> string option" where
  "fetched_extension contentType url =
     (let extension = GetExtensionFromContentType contentType in
      if extension = ''''
      then (let extension = GetExtensionFromURL url in if IsValidExtension extension then Some extension else None)
      else Some extension)"

definition store_fetched ::
  "('m, 'w) image_handler \<Rightarrow> UploadUrlRequest \<Rightarrow> string \<Rightarrow> bytes \<Rightarrow> 'w \<Rightarrow> upload_data reply \<times> 'w" where
  "store_fetched i req bucket content w =
     (case (if uq_Optimize req then maybeOptimize i content (DefaultOptimizeOptions (ih_env i)) else (content, 0, 0)) of
        (content, ow, oh) \<Rightarrow>
          (let contentType = ih_detect i content;
               h = (if 0 < ow \<and> 0 < oh then set_sides ow oh Map.empty else Map.empty)
           in case fetched_extension contentType (uq_URL req) of
                None \<Rightarrow> (Json h (bad_request ''Unsupported or unrecognized file type''), w)
              | Some extension \<Rightarrow>
                  (case validateImageContent i (''f.'' @ extension) content of
                     Inl verr \<Rightarrow> (Json h invalid_image, w)
                   | Inr sides \<Rightarrow>
                       (case ih_uuid i w of
                          (randomName, w) \<Rightarrow>
                            (let objectName = object_name (uq_Path req) (randomName @ ''.'' @ SanitizeObjectName extension) in
                             case PutObject (ih_minio i) bucket objectName (whole content) (int (length content)) contentType w of
                               (Inl err, w) \<Rightarrow> (Json h (bad_request (ih_text i err)), w)
                             | (Inr n, w) \<Rightarrow>
                                 (case rewindAndArchive i bucket objectName (memory_file content) w of
                                    (note, w) \<Rightarrow>
                                      (Json h (Response 201 True ''success''
                                         (Some (Uploaded n note (randomName @ ''.'' @ extension) objectName
                                                  (object_link (ih_env i) bucket objectName)))), w)))))))"

definition UploadWithUrl ::
  "('m, 'w) image_handler \<Rightarrow> url_lib \<Rightarrow> 'w fetcher \<Rightarrow> (UploadUrlRequest \<Rightarrow> string option) \<Rightarrow> request
     \<Rightarrow> UploadUrlRequest option \<Rightarrow> 'w \<Rightarrow> upload_data reply \<times> 'w" where
  "UploadWithUrl i lib ft validateStruct c body w =
     (case body of
        None \<Rightarrow> (Json Map.empty (bad_request ''Invalid request body''), w)
      | Some req \<Rightarrow>
          (case validateStruct req of
             Some message \<Rightarrow> (Json Map.empty (bad_request message), w)
           | None \<Rightarrow>
               (case fst (resolveBucket c (uq_Bucket req)) of
                  Inl err \<Rightarrow> (Json Map.empty forbidden, w)
                | Inr bucket \<Rightarrow>
                    (if bucket = '''' then (Json Map.empty (bad_request ''Bucket is required''), w)
                     else
                       (case ValidateUploadURL (ih_env i) (ul_Parse lib) (ft_ParseIP ft) (uq_URL req) of
                          Some err \<Rightarrow> (Json Map.empty (bad_request (ih_text i err)), w)
                        | None \<Rightarrow>
                            (case ensure_bucket i bucket w of
                               (Some refused, w) \<Rightarrow> (Json Map.empty refused, w)
                             | (None, w) \<Rightarrow>
                                 (case ul_Parse lib (uq_URL req) of
                                    None \<Rightarrow> (Json Map.empty (bad_request ''invalid url''), w)
                                  | Some u \<Rightarrow>
                                      (case fetch (allowPrivateTargets (ih_env i)) (ft_SplitHost ft) (ft_ParseIP ft) (ft_net ft) u 0 w of
                                         (Inl err, dialled, n, w) \<Rightarrow> (Json Map.empty (bad_request (ih_text i err)), w)
                                       | (Inr answer, dialled, n, w) \<Rightarrow>
                                           (case read_limited (max_file_size (ih_env i)) answer of
                                              Inl err \<Rightarrow> (Json Map.empty (bad_request ''Failed to read content from URL''), w)
                                            | Inr content \<Rightarrow> store_fetched i req bucket content w)))))))))"

section \<open>Deleting\<close>

definition DeleteImage ::
  "('m, 'w) image_handler \<Rightarrow> request \<Rightarrow> string \<Rightarrow> string \<Rightarrow> string \<Rightarrow> 'w \<Rightarrow> unit reply \<times> 'w" where
  "DeleteImage i c bucketParam awsParam object w =
     (case fst (resolveBucket c bucketParam) of
        Inl err \<Rightarrow> (Json Map.empty forbidden, w)
      | Inr bucket \<Rightarrow>
          (let awsDelete = (awsParam = ''true'') in
           if bucket = '''' \<or> object = '''' then (Json Map.empty (bad_request ''invalid path or bucket or file.''), w)
           else if HasUnsafeObjectKey object then (Json Map.empty (bad_request ''invalid object key''), w)
           else
             (case BucketExists (ih_minio i) bucket w of
                (Inr True, w) \<Rightarrow>
                  (case (if awsDelete then AwsBucketExists (ih_aws i) bucket w else (True, w)) of
                     (False, w) \<Rightarrow> (Json Map.empty (bad_request ''Bucket Not Found On Aws S3!''), w)
                   | (True, w) \<Rightarrow>
                       (case RemoveObject (ih_minio i) bucket object w of
                          (Some err, w) \<Rightarrow> (Json Map.empty (Response 500 False (ih_text i err) None), w)
                        | (None, w) \<Rightarrow>
                            (case (if awsDelete then AwsDeleteObjects (ih_aws i) bucket [object] w else (None, w)) of
                               (Some err, w) \<Rightarrow> (Json Map.empty (Response 500 False (ih_text i err) None), w)
                             | (None, w) \<Rightarrow> (Json Map.empty (Response 200 True ''File Successfully Deleted'' None), w))))
              | (_, w) \<Rightarrow> (Json Map.empty (bad_request ''Bucket Not Found On Minio!''), w))))"

record BatchDeleteRequest =
  bd_Bucket :: string
  bd_Files :: "string list"
  bd_AWSDelete :: bool

record delete_result =
  dr_filename :: string
  dr_success :: bool
  dr_error :: "gerror option"
  dr_aws_error :: "gerror option"

definition delete_one ::
  "('m, 'w) image_handler \<Rightarrow> string \<Rightarrow> bool \<Rightarrow> string \<Rightarrow> 'w \<Rightarrow> delete_result \<times> 'w" where
  "delete_one i bucket awsDelete filename w =
     (case RemoveObject (ih_minio i) bucket filename w of
        (Some err, w) \<Rightarrow>
          (\<lparr> dr_filename = filename, dr_success = False, dr_error = Some err, dr_aws_error = None \<rparr>, w)
      | (None, w) \<Rightarrow>
          (case (if awsDelete then AwsDeleteObjects (ih_aws i) bucket [filename] w else (None, w)) of
             (awsErr, w) \<Rightarrow>
               (\<lparr> dr_filename = filename, dr_success = True, dr_error = None, dr_aws_error = awsErr \<rparr>, w)))"

fun delete_all ::
  "('m, 'w) image_handler \<Rightarrow> string \<Rightarrow> bool \<Rightarrow> string list \<Rightarrow> 'w \<Rightarrow> delete_result list \<times> 'w" where
  "delete_all i bucket awsDelete [] w = ([], w)"
| "delete_all i bucket awsDelete (filename # files) w =
     (case delete_one i bucket awsDelete filename w of
        (result, w) \<Rightarrow> (case delete_all i bucket awsDelete files w of (results, w) \<Rightarrow> (result # results, w)))"

definition too_many :: "env \<Rightarrow> nat \<Rightarrow> 'd http_response option" where
  "too_many env n =
     (let maxBatch = GetEnvAsIntOrDefault env ''MAX_BATCH_FILES'' 100 in
      if 0 < maxBatch \<and> maxBatch < int n
      then Some (bad_request (''Too many files in one batch (max '' @ Itoa maxBatch @ '')'')) else None)"

definition BatchDelete ::
  "('m, 'w) image_handler \<Rightarrow> (BatchDeleteRequest \<Rightarrow> string option) \<Rightarrow> request \<Rightarrow> BatchDeleteRequest option \<Rightarrow> 'w
     \<Rightarrow> delete_result list reply \<times> 'w" where
  "BatchDelete i validateStruct c body w =
     (case body of
        None \<Rightarrow> (Json Map.empty (bad_request ''Invalid request body''), w)
      | Some req \<Rightarrow>
          (case validateStruct req of
             Some message \<Rightarrow> (Json Map.empty (bad_request message), w)
           | None \<Rightarrow>
               (case fst (resolveBucket c (bd_Bucket req)) of
                  Inl err \<Rightarrow> (Json Map.empty forbidden, w)
                | Inr bucket \<Rightarrow>
                    (if bucket = '''' then (Json Map.empty (bad_request ''Bucket is required''), w)
                     else
                       (case too_many (ih_env i) (length (bd_Files req)) of
                          Some refused \<Rightarrow> (Json Map.empty refused, w)
                        | None \<Rightarrow>
                            (case BucketExists (ih_minio i) bucket w of
                               (Inr True, w) \<Rightarrow>
                                 (case (if bd_AWSDelete req then AwsBucketExists (ih_aws i) bucket w else (True, w)) of
                                    (False, w) \<Rightarrow> (Json Map.empty (bad_request ''AWS bucket not found''), w)
                                  | (True, w) \<Rightarrow>
                                      (case delete_all i bucket (bd_AWSDelete req) (bd_Files req) w of
                                         (results, w) \<Rightarrow>
                                           (Json Map.empty (Response 200 True ''Batch delete completed'' (Some results)), w)))
                             | (_, w) \<Rightarrow> (Json Map.empty (bad_request ''Bucket not found''), w)))))))"

section \<open>Resizing without storing\<close>

record ImageProcessRequest =
  ip_File :: bytes
  ip_Width :: "64 word"
  ip_Height :: "64 word"
  ip_ContentType :: string
  ip_Filename :: string
  ip_Result :: "bytes option"

definition processImage ::
  "('m, 'w) image_handler \<Rightarrow> ImageProcessRequest \<Rightarrow> gerror option \<times> ImageProcessRequest" where
  "processImage i req =
     (if \<not> IsImageFile (ip_Filename req) then (None, req\<lparr>ip_Result := Some (ip_File req)\<rparr>)
      else
        (case ImagickResize (ih_magick i) (ih_conv i) (ip_File req) (ip_Width req) (ip_Height req) of
           None \<Rightarrow> (Some (ErrorString ''image processing failed''), req)
         | Some resized \<Rightarrow> (None, req\<lparr>ip_Result := Some resized\<rparr>)))"

text \<open>Each item is processed on its own; the goroutines share nothing.\<close>

definition processBatch ::
  "('m, 'w) image_handler \<Rightarrow> ImageProcessRequest BatchItem list \<Rightarrow> ImageProcessRequest BatchItem list" where
  "processBatch i items =
     map (\<lambda>item. case processImage i (bi_Data item) of
            (err, req) \<Rightarrow> item\<lparr>bi_Data := req, bi_Error := err, bi_Success := err = None\<rparr>) items"

text \<open>
  The pool of \<open>NewImage\<close>: five workers, whatever the environment says, and the other settings from it.  The
  batch processor it starts as well is never given an item.
\<close>

definition image_pool :: "env \<Rightarrow> 'v \<Rightarrow> 'v pool option" where
  "image_pool env w =
     (let workerConfig = (DefaultPoolConfig env)\<lparr>pc_Workers := 5\<rparr>
      in map_option (StartPool workerConfig) (NewPool workerConfig w))"

definition image_batches :: "('m, 'w) image_handler \<Rightarrow> 'v \<Rightarrow> (ImageProcessRequest, 'v) BatchProcessor option" where
  "image_batches i w =
     map_option StartBatches (NewBatchProcessor (DefaultBatchConfig\<lparr>bc_BatchSize := 10\<rparr>) w)"

text \<open>
  The task of a request reads and writes that request only.  The handler submits it to the pool and
  waits for the answer of the run, retries included.
\<close>

definition resize_job :: "('m, 'w) image_handler \<Rightarrow> string \<Rightarrow> ImageProcessRequest job" where
  "resize_job i ident = \<lparr> jb_ID = ident, jb_Task = processImage i \<rparr>"

definition ResizeImage ::
  "('m, 'w) image_handler \<Rightarrow> ImageProcessRequest pool \<Rightarrow> string \<Rightarrow> form \<Rightarrow> upload_data reply \<times> ImageProcessRequest pool" where
  "ResizeImage i p ident form =
     (case GetWidthAndHeight (ih_env i) (\<lambda>_. fm_Value form) FormsType of
        (resize, width, height) \<Rightarrow>
          (case fm_File form of
             None \<Rightarrow> (Json Map.empty (bad_request ''File Not Found!''), p)
           | Some file \<Rightarrow>
               (case fh_Open file of
                  Inl err \<Rightarrow> (Json Map.empty (bad_request (ih_text i err)), p)
                | Inr fileBuffer \<Rightarrow>
                    (case rd_fail (sf_Body fileBuffer) of
                       Some err \<Rightarrow> (Json Map.empty (Response 500 False ''Error reading file content'' None), p)
                     | None \<Rightarrow>
                         (let fileContent = rd_data (sf_Body fileBuffer) in
                          case ValidateFileContent (ih_env i) fileContent of
                            Some valErr \<Rightarrow> (Json Map.empty (invalid_file valErr), p)
                          | None \<Rightarrow>
                              (if \<not> resize \<or> \<not> IsImageFile (fh_Filename file) then
                                 (Send [''Content-Length'' \<mapsto> Itoa (int (length fileContent)),
                                        ''Content-Type'' \<mapsto> inertContentType (ih_detect i fileContent)] fileContent, p)
                               else
                                 (let req = \<lparr> ip_File = fileContent, ip_Width = width, ip_Height = height,
                                              ip_ContentType = fh_ContentType file, ip_Filename = fh_Filename file,
                                              ip_Result = None \<rparr>
                                  in case Submit (resize_job i ident) p of
                                       (Some err, p) \<Rightarrow> (Json Map.empty (Response 503 False ''Image processing queue is full'' None), p)
                                     | (None, p) \<Rightarrow>
                                         (case runJob (resize_job i ident) (pl_maxRetries p) req of
                                            (Some err, calls, req) \<Rightarrow>
                                              (Json Map.empty (Response 500 False ''Image processing failed'' None), p)
                                          | (None, calls, req) \<Rightarrow>
                                              (let result = slice (ip_Result req) in
                                               if result = []
                                               then (Json Map.empty (Response 500 False ''Image processing produced no output'' None), p)
                                               else (Send [''Content-Length'' \<mapsto> Itoa (int (length result)),
                                                           ''Content-Type'' \<mapsto> inertContentType (ih_detect i result)] result, p))))))))))"

section \<open>Uploading a batch\<close>

record batch_form =
  bf_bucket :: "string list"
  bf_path :: "string list"
  bf_optimize :: "string list"
  bf_files :: "file_header list"

record upload_result =
  ur_filename :: string
  ur_error :: "string option"
  ur_object_name :: "string option"
  ur_archive :: archive_note
  ur_size :: "int option"

definition upload_failed :: "string \<Rightarrow> string \<Rightarrow> upload_result" where
  "upload_failed filename message =
     \<lparr> ur_filename = filename, ur_error = Some message, ur_object_name = None, ur_archive = NoArchive, ur_size = None \<rparr>"

text \<open>The key of a file of a batch: its sanitized name behind a random one, under the sanitized prefix.\<close>

definition batch_key :: "string \<Rightarrow> string \<Rightarrow> string \<Rightarrow> string" where
  "batch_key pathPrefix randomName filename =
     (let objectName = randomName @ ''_'' @ SanitizeObjectName filename in
      if pathPrefix = '''' then objectName else SanitizeObjectName pathPrefix @ ''/'' @ objectName)"

text \<open>
  What is stored of one file: an image is read, checked and possibly optimized, anything else is
  streamed as it comes, with the size and type the client declared.
\<close>

definition batch_payload ::
  "('m, 'w) image_handler \<Rightarrow> bool \<Rightarrow> file_header \<Rightarrow> seek_file \<Rightarrow> string + bool \<times> payload" where
  "batch_payload i optimize file fileContent =
     (if \<not> IsImageFile (fh_Filename file) then
        Inr (False, \<lparr> py_File = fileContent, py_Body = sf_Body fileContent, py_Size = fh_Size file,
                      py_Type = fh_ContentType file \<rparr>)
      else
        (case rd_fail (sf_Body fileContent) of
           Some readErr \<Rightarrow> Inl (ih_text i readErr)
         | None \<Rightarrow>
             (let raw = rd_data (sf_Body fileContent) in
              case validateImageContent i (fh_Filename file) raw of
                Inl verr \<Rightarrow> Inl ''invalid image content''
              | Inr sides \<Rightarrow>
                  (let payload = (if optimize then fst (maybeOptimize i raw (DefaultOptimizeOptions (ih_env i))) else raw)
                   in Inr (optimize, \<lparr> py_File = memory_file payload, py_Body = whole payload,
                                       py_Size = int (length payload), py_Type = ih_detect i payload \<rparr>)))))"

definition upload_one ::
  "('m, 'w) image_handler \<Rightarrow> string \<Rightarrow> string \<Rightarrow> bool \<Rightarrow> file_header \<Rightarrow> 'w \<Rightarrow> upload_result \<times> 'w" where
  "upload_one i bucket pathPrefix optimize file w =
     (case ValidateFile (ih_env i) (fh_Size file) (fh_Filename file) of
        Some valErr \<Rightarrow> (upload_failed (fh_Filename file) (hr_Message (invalid_file valErr)), w)
      | None \<Rightarrow>
          (case fh_Open file of
             Inl err \<Rightarrow> (upload_failed (fh_Filename file) (ih_text i err), w)
           | Inr fileContent \<Rightarrow>
               (case ih_uuid i w of
                  (randomName, w) \<Rightarrow>
                    (let objectName = batch_key pathPrefix randomName (fh_Filename file) in
                     case batch_payload i optimize file fileContent of
                       Inl message \<Rightarrow> (upload_failed (fh_Filename file) message, w)
                     | Inr (optimized, p) \<Rightarrow>
                         (case PutObject (ih_minio i) bucket objectName (py_Body p) (py_Size p) (py_Type p) w of
                            (Inl err, w) \<Rightarrow> (upload_failed (fh_Filename file) (ih_text i err), w)
                          | (Inr n, w) \<Rightarrow>
                              (case archiveObject i bucket objectName (rewound (py_File p)) w of
                                 (note, w) \<Rightarrow>
                                   (\<lparr> ur_filename = fh_Filename file, ur_error = None, ur_object_name = Some objectName,
                                      ur_archive = note, ur_size = (if optimized then Some (py_Size p) else None) \<rparr>, w)))))))"

fun upload_all ::
  "('m, 'w) image_handler \<Rightarrow> string \<Rightarrow> string \<Rightarrow> bool \<Rightarrow> file_header list \<Rightarrow> 'w \<Rightarrow> upload_result list \<times> 'w" where
  "upload_all i bucket pathPrefix optimize [] w = ([], w)"
| "upload_all i bucket pathPrefix optimize (file # files) w =
     (case upload_one i bucket pathPrefix optimize file w of
        (result, w) \<Rightarrow> (case upload_all i bucket pathPrefix optimize files w of (results, w) \<Rightarrow> (result # results, w)))"

definition first_value :: "string list \<Rightarrow> string" where
  "first_value vs = (case vs of v # _ \<Rightarrow> v | [] \<Rightarrow> '''')"

definition BatchUpload ::
  "('m, 'w) image_handler \<Rightarrow> request \<Rightarrow> batch_form option \<Rightarrow> 'w \<Rightarrow> upload_result list reply \<times> 'w" where
  "BatchUpload i c form w =
     (case form of
        None \<Rightarrow> (Json Map.empty (bad_request ''Invalid form data''), w)
      | Some form \<Rightarrow>
          (case fst (resolveBucket c (first_value (bf_bucket form))) of
             Inl err \<Rightarrow> (Json Map.empty forbidden, w)
           | Inr bucket \<Rightarrow>
               (if bucket = '''' then (Json Map.empty (bad_request ''Bucket is required''), w)
                else
                  (let pathPrefix = first_value (bf_path form); optimize = (first_value (bf_optimize form) = ''true'') in
                   case BucketExists (ih_minio i) bucket w of
                     (Inr True, w) \<Rightarrow>
                       (if bf_files form = [] then (Json Map.empty (bad_request ''No files provided''), w)
                        else (case too_many (ih_env i) (length (bf_files form)) of
                                Some refused \<Rightarrow> (Json Map.empty refused, w)
                              | None \<Rightarrow>
                                  (case upload_all i bucket pathPrefix optimize (bf_files form) w of
                                     (results, w) \<Rightarrow>
                                       (Json Map.empty (Response 200 True ''Batch upload completed'' (Some results)), w))))
                   | (_, w) \<Rightarrow> (Json Map.empty (bad_request ''Bucket not found''), w)))))"

section \<open>The services behind the handler\<close>

lemma truncate_sel [simp]:
  "BucketExists (object_store.truncate c) = BucketExists c" "MakeBucket (object_store.truncate c) = MakeBucket c"
  "PutObject (object_store.truncate c) = PutObject c" "RemoveObject (object_store.truncate c) = RemoveObject c"
  by (simp_all add: object_store.defs)

text \<open>
  The deployment of the archive, seen through the handler's clients.  \<open>GetObject\<close> of MinIO describes the
  stored object; S3 stores what it is sent whole, deletes the listed keys at most; names, slots and
  temporary files have nothing to do with either store, and a temporary file holds what was written.
\<close>

locale image_service = deployment a s3 "object_store.truncate (ih_minio i)" hot
  for i :: "('m, 'w) image_handler" and a s3 hot +
  assumes archive: "ih_archive i = Some (archive_iface a)" and aws: "ih_aws i = a_aws a"
    and getobj_ok: "mc_GetObject (ih_minio i) b k w = (Inr obj, w') \<Longrightarrow> mo_Stat obj = Inr n \<Longrightarrow>
      \<exists>c. hot w b k = Some c \<and> n = int (length c) \<and> streams (mo_Body obj) c"
    and getobj_frame: "mc_GetObject (ih_minio i) b k w = (got, w') \<Longrightarrow> hot w' = hot w \<and> s3 w' = s3 w"
    and upload_ok: "sdk_Upload (a_aws a) b k (whole c) w = (None, w') \<Longrightarrow> s3 w' b k = Some c"
    and accounts_frame: "sdk_ListBuckets (a_aws a) w = (bs, w') \<Longrightarrow> hot w' = hot w \<and> s3 w' = s3 w"
    and delete_frame: "sdk_DeleteObjects (a_aws a) b ks w = (d, w') \<Longrightarrow>
      hot w' = hot w \<and> ((b', k') \<notin> {b} \<times> set ks \<longrightarrow> s3 w' b' k' = s3 w b' k')"
    and uuid_frame: "ih_uuid i w = (nm, w') \<Longrightarrow> hot w' = hot w \<and> s3 w' = s3 w"
    and slot_frame: "ih_slot i w = (got_slot, w') \<Longrightarrow> hot w' = hot w \<and> s3 w' = s3 w"
    and create_frame: "tf_CreateTemp (ih_temp i) pattern w = (f, w') \<Longrightarrow> hot w' = hot w \<and> s3 w' = s3 w"
    and write_frame: "tf_Write (ih_temp i) tmp c w = (x, w') \<Longrightarrow> hot w' = hot w \<and> s3 w' = s3 w"
    and seek_frame: "tf_Seek (ih_temp i) tmp w = (x, w') \<Longrightarrow> hot w' = hot w \<and> s3 w' = s3 w"
    and written_back: "tf_CreateTemp (ih_temp i) pattern w = (Inr tmp, w1) \<Longrightarrow> tf_Write (ih_temp i) tmp c w2 = ((None, tmp'), w3) \<Longrightarrow>
      tf_Seek (ih_temp i) tmp' w4 = ((None, tmp''), w5) \<Longrightarrow> sf_Body tmp'' = whole c"
begin

lemma temp_frame: "CreateFile (ih_temp i) c w = (f, w') \<Longrightarrow> hot w' = hot w \<and> s3 w' = s3 w"
  by (auto simp: CreateFile_def dest!: create_frame write_frame seek_frame split: prod.splits sum.splits option.splits)

lemma temp_ok: "CreateFile (ih_temp i) c w = (Inr tmp, w') \<Longrightarrow> sf_Body tmp = whole c"
  by (auto simp: CreateFile_def dest: written_back split: prod.splits sum.splits option.splits)

lemma exists_frames: "BucketExists (ih_minio i) b w = (ex, w') \<Longrightarrow> hot w' = hot w \<and> s3 w' = s3 w"
  using exists_frame exists_s3 by simp

lemma make_frames: "MakeBucket (ih_minio i) b w = (mk, w') \<Longrightarrow> hot w' = hot w \<and> s3 w' = s3 w"
  using make_frame make_s3 by simp

lemma put_frames: "PutObject (ih_minio i) b k rd n ct w = (p, w') \<Longrightarrow>
    s3 w' = s3 w \<and> ((b', k') \<noteq> (b, k) \<longrightarrow> hot w' b' k' = hot w b' k')"
  using putobj_other [of b k rd n ct w p w' b' k'] putobj_s3 [of b k rd n ct w p w'] by simp

lemma put_stores: "PutObject (ih_minio i) b k rd n ct w = (Inr m, w') \<Longrightarrow> 0 \<le> n \<Longrightarrow>
    n \<le> int (length (rd_data rd)) \<and> hot w' b k = Some (take (nat n) (rd_data rd))"
  using putobj_ok by simp

lemma remove_frames: "RemoveObject (ih_minio i) b k w = (u, w') \<Longrightarrow>
    s3 w' = s3 w \<and> ((b', k') \<noteq> (b, k) \<longrightarrow> hot w' b' k' = hot w b' k')"
  using remove_other [of b k w u w' b' k'] remove_s3 [of b k w u w'] by simp

lemma open_frames: "ar_Open (archive_iface a) b k w = (g, w') \<Longrightarrow> hot w' = hot w \<and> s3 w' = s3 w"
  using open_hot [of b k w g w'] Open_world [of a b k w g w'] get_frame by (auto simp: archive_iface_def)

lemma archive_frames:
  "ar_Put (archive_iface a) b k rd w = (u, w') \<Longrightarrow> slashless b \<Longrightarrow> slashless b' \<Longrightarrow>
   hot w' = hot w \<and> ((b', k') \<noteq> (b, k) \<longrightarrow> cold_of a s3 w' b' k' = cold_of a s3 w b' k')"
  using put_hot [of b k rd w u w'] put_other [of b k rd w u w' b' k'] by simp

lemma archive_stores:
  "ar_Put (archive_iface a) b k (whole c) w = (None, w') \<Longrightarrow> cold_of a s3 w' b k = Some c"
  using upload_ok by (auto simp: archive_iface_def Put_def S3PutObject_def Let_def cold_of_def split: if_splits prod.splits option.splits)

lemma ensure_frames: "ensure_bucket i b w = (refused, w') \<Longrightarrow> hot w' = hot w \<and> s3 w' = s3 w"
  using exists_frames make_frames
  by (fastforce simp: ensure_bucket_def split: prod.splits sum.splits bool.splits option.splits)

lemma aws_exists_frames: "AwsBucketExists (ih_aws i) b w = (ex, w') \<Longrightarrow> hot w' = hot w \<and> s3 w' = s3 w"
  using accounts_frame aws by (fastforce simp: AwsBucketExists_def AwsListBuckets_def split: prod.splits sum.splits)

end

section \<open>An instance\<close>

text \<open>The services in memory, for the witnesses: every name is \<open>u\<close>, a slot is always free.\<close>

definition mem_client :: "mem minio_client" where
  "mem_client =
     \<lparr> ListBuckets = ListBuckets mem_store, ListObjects = ListObjects mem_store, StatObject = StatObject mem_store,
       RemoveObject = RemoveObject mem_store, PutObject = PutObject mem_store, MakeBucket = MakeBucket mem_store,
       BucketExists = BucketExists mem_store, OpenObject = OpenObject mem_store,
       mc_GetObject = (\<lambda>b k w.
         (Inr (case m_hot w b k of
                 None \<Rightarrow> \<lparr> mo_Stat = Inl S3NotFound, mo_Body = \<lparr> rd_data = [], rd_fail = Some S3NotFound \<rparr> \<rparr>
               | Some c \<Rightarrow> \<lparr> mo_Stat = Inr (int (length c)), mo_Body = whole c \<rparr>), w)) \<rparr>"

definition mem_temp :: "mem temp_files" where
  "mem_temp =
     \<lparr> tf_CreateTemp = (\<lambda>_ w. (Inr (memory_file []), w)), tf_Write = (\<lambda>f c w. ((None, memory_file c), w)),
       tf_Seek = (\<lambda>f w. ((None, f), w)) \<rparr>"

definition mem_images :: "((nat \<times> nat), mem) image_handler" where
  "mem_images =
     \<lparr> ih_minio = mem_client, ih_aws = mem_sdk, ih_archive = Some (archive_iface mem_archive), ih_magick = plain_magick,
       ih_conv = (\<lambda>_. 0), ih_env = (\<lambda>_. []), ih_detect = (\<lambda>_. ''text/html; charset=utf-8''), ih_text = (\<lambda>_. ''error''),
       ih_uuid = (\<lambda>w. (''u'', w)), ih_slot = (\<lambda>w. (True, w)), ih_temp = mem_temp \<rparr>"

lemma mem_images_sel [simp]:
  "ih_minio mem_images = mem_client" "ih_aws mem_images = mem_sdk" "ih_archive mem_images = Some (archive_iface mem_archive)"
  "ih_uuid mem_images w = (''u'', w)" "ih_slot mem_images w = (True, w)"
  "ih_temp mem_images = mem_temp"
  by (simp_all add: mem_images_def)

lemma mem_client_truncate [simp]: "object_store.truncate mem_client = mem_store"
  by (simp add: mem_client_def object_store.defs)

interpretation mem_images: image_service mem_images mem_archive m_s3 m_hot
proof (intro image_service.intro image_service_axioms.intro)
  show "deployment mem_archive m_s3 (object_store.truncate (ih_minio mem_images)) m_hot"
    by (simp add: mem_deployment.deployment_axioms)
qed (auto simp: mem_client_def mem_sdk_def mem_temp_def memory_file_def split: option.splits)

definition photos_request :: request where
  "photos_request = \<lparr> rq_Authorization = '''', rq_CFConnectingIP = '''', rq_PeerIP = '''', rq_QueryToken = '''',
     rq_Principal = Some \<lparr> pr_Scoped = True, pr_Bucket = ''photos'' \<rparr> \<rparr>"

definition png :: bytes where
  "png = [0x89, 0x50, 0x4E, 0x47, 1]"

definition photo_form :: form where
  "photo_form =
     \<lparr> fm_Value = (\<lambda>name. if name = ''path'' then ''/p/'' else ''''),
       fm_File = Some \<lparr> fh_Filename = ''a.PNG'', fh_Size = 5, fh_ContentType = '''', fh_Open = Inr (memory_file png) \<rparr> \<rparr>"

section \<open>Reads\<close>

lemma send_stream_cases:
  "send_stream i svg h body n = r \<Longrightarrow>
   r = not_found h \<or>
   r = SendStream (h(''Content-Type'' \<mapsto> contentTypeFor i svg (take 512 (rd_data body)))) body n"
  by (auto simp: send_stream_def Let_def)

context image_service
begin

lemma openObject_local:
  assumes "openObject i b k w = (r, w')"
  obtains body n where "r = Inr (body, n)" "hot w' = hot w" "s3 w' = s3 w"
      "\<exists>c. hot w b k = Some c \<and> c \<noteq> [] \<and> streams body c \<and> n = int (length c)"
  | w1 where "hot w1 = hot w" "s3 w1 = s3 w" "w1 = snd (mc_GetObject (ih_minio i) b k w)"
      "(r, w') = (if \<not> a_enabled a then (Inl errObjectMissing, w1)
                  else case Open a b k w1 of (Inl e, w2) \<Rightarrow> (Inl errObjectMissing, w2) | (Inr x, w2) \<Rightarrow> (Inr x, w2))"
proof -
  obtain got w1 where g: "mc_GetObject (ih_minio i) b k w = (got, w1)" by (metis surj_pair)
  note frame = getobj_frame [OF g]
  let ?found = "case got of Inl err \<Rightarrow> None
     | Inr object \<Rightarrow> (case mo_Stat object of Inl e \<Rightarrow> None | Inr sz \<Rightarrow> if 0 < sz then Some (mo_Body object, sz) else None)"
  show ?thesis
  proof (cases ?found)
    case None
    have "(r, w') = openObject i b k w" using assms by simp
    also have "\<dots> = (if \<not> a_enabled a then (Inl errObjectMissing, w1)
        else case Open a b k w1 of (Inl e, w2) \<Rightarrow> (Inl errObjectMissing, w2) | (Inr x, w2) \<Rightarrow> (Inr x, w2))"
      by (simp add: openObject_def g None archive)
    finally show ?thesis using frame g by (intro that(2)) simp_all
  next
    case (Some found)
    then obtain object sz where o: "got = Inr object" "mo_Stat object = Inr sz" "0 < sz" "found = (mo_Body object, sz)"
      by (auto split: sum.splits if_splits)
    obtain c where c: "hot w b k = Some c" "sz = int (length c)" "streams (mo_Body object) c"
      using getobj_ok [OF g [unfolded o(1)] o(2)] by blast
    moreover have "r = Inr (mo_Body object, sz)" "w' = w1" using assms g Some o(4) by (simp_all add: openObject_def)
    ultimately show ?thesis using that(1) frame o(3) by auto
  qed
qed

lemma openObject_frames: "openObject i b k w = (r, w') \<Longrightarrow> hot w' = hot w \<and> s3 w' = s3 w"
  by (erule openObject_local) (use open_frames in \<open>force split: if_splits prod.splits sum.splits\<close>)+

lemma openObject_content:
  assumes "openObject i b k w = (Inr (body, n), w')"
  shows "\<exists>c. streams body c \<and>
    (hot w b k = Some c \<and> c \<noteq> [] \<and> n = int (length c) \<or>
     cold_of a s3 w b k = Some c \<and>
     (n = int (length c) \<or>
      n = 0 \<and> sdk_GetObject (a_aws a) (fst (resolve a b k)) (snd (resolve a b k)) (snd (mc_GetObject (ih_minio i) b k w)) =
        (Inr (body, None), w')))"
  using assms
proof (cases rule: openObject_local)
  case (1 body' n')
  then show ?thesis by auto
next
  case (2 w1)
  then have "Open a b k w1 = (Inr (body, n), w')" by (auto split: if_splits prod.splits sum.splits)
  from Open_size [OF this] obtain c where "cold_of a s3 w1 b k = Some c" "streams body c" "n = int (length c) \<or>
      n = 0 \<and> sdk_GetObject (a_aws a) (fst (resolve a b k)) (snd (resolve a b k)) w1 = (Inr (body, None), w')" by blast
  moreover have "cold_of a s3 w1 = cold_of a s3 w" using 2(2) by (rule cold_cong)
  ultimately show ?thesis unfolding 2(3) by auto
qed

lemma send_resized_frames: "send_resized i svg h c width height w = (r, w') \<Longrightarrow> hot w' = hot w \<and> s3 w' = s3 w"
  using slot_frame by (auto simp: send_resized_def Let_def split: if_splits prod.splits bool.splits option.splits)

lemma GetImage_frames:
  assumes "GetImage i b k field w = (r, w')"
  shows "hot w' = hot w \<and> s3 w' = s3 w"
proof (cases "HasUnsafeObjectKey k")
  case True
  then show ?thesis using assms by (simp add: GetImage_def)
next
  case False
  obtain resize width height where sz: "read_size (ih_env i) field k = (resize, width, height)" by (metis surj_pair)
  obtain ex w1 where e: "BucketExists (ih_minio i) b w = (ex, w1)" by (metis surj_pair)
  note fr = exists_frames [OF e]
  show ?thesis
  proof (cases "ex = Inr True")
    case True
    obtain got w2 where o: "openObject i b k w1 = (got, w2)" by (metis surj_pair)
    note fr2 = openObject_frames [OF o]
    show ?thesis
    proof (cases got)
      case (Inl err)
      then show ?thesis using assms False sz e True o fr fr2 by (simp add: GetImage_def)
    next
      case (Inr found)
      obtain body n where "found = (body, n)" by (metis surj_pair)
      then show ?thesis using assms False sz e True o fr fr2 Inr
        by (auto simp: GetImage_def Let_def dest: send_resized_frames split: if_splits)
    qed
  next
    case neq: False
    then show ?thesis using assms False sz e fr by (auto simp: GetImage_def split: sum.splits bool.splits)
  qed
qed

end

lemma GetImage_streams:
  assumes "GetImage i b k field w = (SendStream h body n, w')"
  obtains w1 w2 where "BucketExists (ih_minio i) b w = (Inr True, w1)" "openObject i b k w1 = (Inr (body, n), w2)"
    "\<not> HasUnsafeObjectKey k"
  using assms
  by (force simp: GetImage_def send_stream_def send_resized_def not_found_def Let_def
      split: if_splits prod.splits sum.splits bool.splits)

text \<open>What a streamed answer holds: the non-empty local object, or the archived one.\<close>

lemma GetImage_content:
  assumes "image_service i a s3 hot" and "GetImage i b k field w = (SendStream h body n, w')"
  shows "\<not> HasUnsafeObjectKey k \<and>
    (\<exists>c. streams body c \<and>
       (hot w b k = Some c \<and> c \<noteq> [] \<and> n = int (length c) \<or>
        cold_of a s3 w b k = Some c \<and>
        (n = int (length c) \<or>
         n = 0 \<and> (\<exists>w2. sdk_GetObject (a_aws a) (fst (resolve a b k)) (snd (resolve a b k))
           (snd (mc_GetObject (ih_minio i) b k (snd (BucketExists (ih_minio i) b w)))) = (Inr (body, None), w2)))))"
proof -
  obtain w1 w2 where s: "BucketExists (ih_minio i) b w = (Inr True, w1)" "openObject i b k w1 = (Inr (body, n), w2)"
      "\<not> HasUnsafeObjectKey k"
    using GetImage_streams [OF assms(2)] by blast
  have w1: "hot w1 = hot w" "s3 w1 = s3 w" using image_service.exists_frames [OF assms(1) s(1)] by blast+
  have "cold_of a s3 w1 = cold_of a s3 w" using w1(2) by (simp add: cold_of_def fun_eq_iff)
  with image_service.openObject_content [OF assms(1) s(2)] w1(1) s(3) show ?thesis unfolding s(1) snd_conv by metis
qed


text \<open>
  What a browser makes of a declared type, independently of the code: \<open>ct\<close> declares the type \<open>t\<close> when it is
  a spelling of it in any case, with white space around it and parameters behind it.  The types
  it would run a script from are HTML and XML; an SVG image only when the policy does not sandbox it.
\<close>

definition declares :: "string \<Rightarrow> string \<Rightarrow> bool" where
  "declares ct t \<longleftrightarrow>
     (\<exists>before spelling behind parameters. ct = before @ spelling @ behind @ parameters \<and> map lower_byte spelling = t \<and>
        set before \<subseteq> http_space \<and> set behind \<subseteq> http_space \<and> (\<forall>p q. parameters = p # q \<longrightarrow> p = CHR '';''))"

definition active_types :: "string list" where
  "active_types = [''text/html'', ''text/xml'', ''application/xml'', ''application/xhtml+xml'']"

definition harmless :: "headers \<Rightarrow> bool" where
  "harmless h \<longleftrightarrow>
     (\<forall>ct. h ''Content-Type'' = Some ct \<longrightarrow>
        (\<forall>t\<in>set active_types. \<not> declares ct t) \<and>
        (declares ct ''image/svg+xml'' \<longrightarrow>
           h ''Content-Security-Policy'' = Some ''default-src 'none'; style-src 'unsafe-inline'; sandbox''))"

text \<open>The code's reading of a type agrees with the browser's on every printable ASCII type.\<close>

lemma declares_media_type:
  assumes "declares ct t" and "t \<noteq> ''''" and "list_all (\<lambda>c. printable c \<and> c \<noteq> CHR '';'') t"
  shows "media_type ct = t"
proof -
  from assms(1) obtain before s behind params where d: "ct = before @ s @ behind @ params" "map lower_byte s = t"
      "set before \<subseteq> http_space" "set behind \<subseteq> http_space" "\<forall>p q. params = p # q \<longrightarrow> p = CHR '';''"
    unfolding declares_def by blast
  have l: "lower_byte (CHR '';'') = CHR '';''" by code_simp
  have t: "printable (lower_byte c) \<and> lower_byte c \<noteq> CHR '';''" if "c \<in> set s" for c
    using that assms(3) unfolding d(2) [symmetric] by (simp add: list_all_iff)
  have semi: "\<forall>c\<in>set (before @ s @ behind). c \<noteq> CHR '';''"
    using t l d(3,4) by (force simp: http_space_def)
  have "takeWhile (\<lambda>c. c \<noteq> CHR '';'') ((before @ s @ behind) @ params) = before @ s @ behind"
    using semi d(5) by (cases params) (simp_all add: takeWhile_append2)
  then have "takeWhile (\<lambda>c. c \<noteq> CHR '';'') ct = before @ s @ behind" unfolding d(1) by simp
  moreover obtain c s' where s: "s = c # s'" using d(2) assms(2) by (cases s) auto
  have "TrimSpace (before @ s @ behind) = s"
    by (rule TrimSpace_around [OF d(3,4) s]) (use t s printable_lower in auto)
  moreover have "ToLower s = map lower_byte s"
    using t printable_lower printable_ascii by (intro ToLower_ascii) blast+
  ultimately show ?thesis using d(2) by (simp add: media_type_def)
qed

lemma declares_types:
  "t \<in> set active_types \<Longrightarrow> declares ct t \<Longrightarrow> media_type ct \<in> set executable_types"
  "declares ct ''image/svg+xml'' \<Longrightarrow> media_type ct = ''image/svg+xml''"
proof -
  have "list_all (\<lambda>t. t \<noteq> '''' \<and> list_all (\<lambda>c. printable c \<and> c \<noteq> CHR '';'') t) (''image/svg+xml'' # active_types)"
    "list_all (\<lambda>t. t \<in> set executable_types) active_types" by code_simp+
  then show "t \<in> set active_types \<Longrightarrow> declares ct t \<Longrightarrow> media_type ct \<in> set executable_types"
    "declares ct ''image/svg+xml'' \<Longrightarrow> media_type ct = ''image/svg+xml''"
    using declares_media_type [of ct t] declares_media_type [of ct "''image/svg+xml''"] by (auto simp: list_all_iff)
qed

lemma inert_types:
  "media_type (inertContentType s) \<notin> set executable_types"
  "media_type (inertContentType s) = ''image/svg+xml'' \<Longrightarrow> media_type s = ''image/svg+xml''"
proof -
  have "media_type ''text/plain; charset=utf-8'' \<notin> set executable_types"
    "media_type ''text/plain; charset=utf-8'' \<noteq> ''image/svg+xml''" by code_simp+
  then show "media_type (inertContentType s) \<notin> set executable_types"
    "media_type (inertContentType s) = ''image/svg+xml'' \<Longrightarrow> media_type s = ''image/svg+xml''"
    by (auto simp: inertContentType_def split: if_splits)
qed

text \<open>\<open>http.DetectContentType\<close> knows no SVG: it never answers that type.\<close>

definition sniffs_no_svg :: "('m, 'w) image_handler \<Rightarrow> bool" where
  "sniffs_no_svg i \<longleftrightarrow> (\<forall>content. media_type (ih_detect i content) \<noteq> ''image/svg+xml'')"

lemma harmless_inert: "sniffs_no_svg i \<Longrightarrow> harmless (h(''Content-Type'' \<mapsto> inertContentType (ih_detect i content)))"
  using inert_types [of "ih_detect i content"] declares_types
  by (auto simp: harmless_def sniffs_no_svg_def)

lemma harmless_sent:
  assumes "sniffs_no_svg i" and "svg \<Longrightarrow> h ''Content-Security-Policy'' = Some svg_policy"
  shows "harmless (h(''Content-Type'' \<mapsto> contentTypeFor i svg content))"
proof (cases svg)
  case True
  have "media_type ''image/svg+xml'' \<notin> set executable_types" by code_simp
  then show ?thesis using True assms(2) declares_types(1) by (auto simp: harmless_def contentTypeFor_def svg_policy_def)
next
  case False
  then show ?thesis using harmless_inert [OF assms(1)] by (simp add: contentTypeFor_def)
qed

fun reply_headers :: "'d reply \<Rightarrow> headers" where
  "reply_headers (Json h r) = h"
| "reply_headers (SendFile h f) = h"
| "reply_headers (Send h b) = h"
| "reply_headers (SendStream h body n) = h"

lemma harmless_untyped: "h ''Content-Type'' = None \<Longrightarrow> harmless h"
  by (simp add: harmless_def)

lemma harmless_empty [simp]: "harmless (\<lambda>_. None)"
  by (simp add: harmless_def)

lemma send_resized_headers:
  assumes "send_resized i svg h c width height w = (r, w')" and "sniffs_no_svg i"
    and "svg \<Longrightarrow> h ''Content-Security-Policy'' = Some svg_policy" and "h ''Content-Type'' = None"
  shows "harmless (reply_headers r) \<and> reply_headers r ''Content-Security-Policy'' = h ''Content-Security-Policy''"
proof -
  have sent: "harmless (h(''Content-Type'' \<mapsto> contentTypeFor i svg c))"
    "harmless (h(''Cache-Control'' \<mapsto> ''no-store'', ''Content-Type'' \<mapsto> contentTypeFor i svg c))"
    "harmless ((set_sides a b h)(''Content-Type'' \<mapsto> contentTypeFor i svg c))" for a b
    using assms(3) by (auto intro!: harmless_sent [OF assms(2)] simp: set_sides_def)
  show ?thesis using assms(1) sent harmless_untyped [of h] assms(4)
    by (auto simp: send_resized_def not_found_def set_sides_def Let_def split: if_splits prod.splits bool.splits option.splits)
qed

lemma send_stream_headers:
  assumes "sniffs_no_svg i" and "svg \<Longrightarrow> h ''Content-Security-Policy'' = Some svg_policy" and "h ''Content-Type'' = None"
  shows "harmless (reply_headers (send_stream i svg h body n)) \<and>
     reply_headers (send_stream i svg h body n) ''Content-Security-Policy'' = h ''Content-Security-Policy''"
  using harmless_sent [OF assms(1), of svg h] assms(2) harmless_untyped [of h] assms(3)
  by (simp add: send_stream_def not_found_def Let_def)

lemma GetImage_headers:
  assumes "GetImage i b k field w = (r, w')" and "sniffs_no_svg i"
  shows "harmless (reply_headers r) \<and>
         (HasSuffix (ToLower k) ''.svg'' \<longrightarrow> (\<forall>f. r \<noteq> SendFile Map.empty f) \<longrightarrow>
            reply_headers r ''Content-Security-Policy'' = Some svg_policy)"
proof -
  let ?svg = "HasSuffix (ToLower k) ''.svg''"
  let ?h = "if ?svg then [''Content-Security-Policy'' \<mapsto> svg_policy] else Map.empty"
  have h: "?svg \<Longrightarrow> ?h ''Content-Security-Policy'' = Some svg_policy" "?h ''Content-Type'' = None" by simp_all
  consider "r = not_found Map.empty"
    | c width height w2 where "send_resized i ?svg ?h c width height w2 = (r, w')"
    | body n where "r = send_stream i ?svg ?h body n"
  proof (cases "HasUnsafeObjectKey k")
    case True
    then show ?thesis using assms(1) that(1) by (simp add: GetImage_def)
  next
    case safe: False
    obtain resize width height where sz: "read_size (ih_env i) field k = (resize, width, height)" by (metis surj_pair)
    obtain ex w1 where e: "BucketExists (ih_minio i) b w = (ex, w1)" by (metis surj_pair)
    obtain got w2 where o: "openObject i b k w1 = (got, w2)" by (metis surj_pair)
    show ?thesis
    proof (cases "ex = Inr True \<and> \<not> isl got")
      case True
      then obtain body n where g: "ex = Inr True" "got = Inr (body, n)" by (cases got) auto
      show ?thesis using assms(1) safe sz e o that(2) [of "rd_data body" width height w2] that(3) [of body n]
        by (cases resize) (simp_all add: GetImage_def Let_def g)
    next
      case False
      then show ?thesis using assms(1) safe sz e o that(1)
        by (cases ex; cases got) (auto simp: GetImage_def split: bool.splits)
    qed
  qed
  then show ?thesis
  proof cases
    case 1
    then show ?thesis by (simp add: not_found_def harmless_untyped)
  next
    case 2
    show ?thesis using send_resized_headers [OF 2 assms(2) h] h(1) by simp
  next
    case 3
    have "harmless (reply_headers r) \<and> reply_headers r ''Content-Security-Policy'' = ?h ''Content-Security-Policy''"
      unfolding 3 by (rule send_stream_headers [OF assms(2)]) (use h in simp_all)
    then show ?thesis using h(1) by simp
  qed
qed

lemma ResizeImage_headers: "sniffs_no_svg i \<Longrightarrow> harmless (reply_headers (fst (ResizeImage i p ident form)))"
proof -
  assume sniffer: "sniffs_no_svg i"
  obtain resize width height where g: "GetWidthAndHeight (ih_env i) (\<lambda>_. fm_Value form) FormsType = (resize, width, height)"
    by (metis surj_pair)
  show ?thesis
  proof (cases "fm_File form")
    case None
    then show ?thesis by (simp add: ResizeImage_def g)
  next
    case hdr: (Some header)
    show ?thesis
    proof (cases "fh_Open header")
      case (Inl err)
      then show ?thesis by (simp add: ResizeImage_def g hdr)
    next
      case (Inr buffer)
      let ?req = "\<lparr> ip_File = rd_data (sf_Body buffer), ip_Width = width, ip_Height = height,
        ip_ContentType = fh_ContentType header, ip_Filename = fh_Filename header, ip_Result = None \<rparr>"
      obtain refused p1 where s: "Submit (resize_job i ident) p = (refused, p1)" by (metis surj_pair)
      obtain err calls req where run: "runJob (resize_job i ident) (pl_maxRetries p1) ?req = (err, calls, req)" by (metis surj_pair)
      show ?thesis
        by (cases "rd_fail (sf_Body buffer)"; cases "ValidateFileContent (ih_env i) (rd_data (sf_Body buffer))"; cases refused; cases err)
          (simp_all add: ResizeImage_def g hdr Inr s run Let_def harmless_inert [OF sniffer])
    qed
  qed
qed

text \<open>
  Property C9.  No stored or echoed byte is served as something a browser would run.  Whatever else the
  sniffer makes of the content, no answer of the read and resize endpoints declares an HTML or XML
  type, in any spelling; an answer that declares an SVG image carries the policy that sandboxes it,
  given that the sniffer itself never says SVG, as the one of the standard library never does; and
  every answer about an \<open>.svg\<close> name that has content carries that policy.
\<close>

lemma nothing_executable_is_served:
  assumes "sniffs_no_svg i" and "sniffs_no_svg j"
  shows "(GetImage i b k field w = (r, w') \<longrightarrow>
      harmless (reply_headers r) \<and>
      (HasSuffix (ToLower k) ''.svg'' \<longrightarrow> (\<forall>f. r \<noteq> SendFile Map.empty f) \<longrightarrow>
         reply_headers r ''Content-Security-Policy'' = Some ''default-src 'none'; style-src 'unsafe-inline'; sandbox'')) \<and>
   (ResizeImage j p ident form = (r', p') \<longrightarrow> harmless (reply_headers r'))"
  using GetImage_headers [of i b k field w r w'] ResizeImage_headers [of j p ident form] assms by (auto simp: svg_policy_def)

section \<open>Deletes\<close>

lemma resolve_scoped:
  "rq_Principal c = Some p \<Longrightarrow> pr_Scoped p \<Longrightarrow> fst (resolveBucket c requested) = Inr b \<Longrightarrow> b = pr_Bucket p"
  by (auto simp: resolveBucket_def PrincipalFrom_def Let_def split: if_splits)

context image_service
begin

lemma delete_frames: "AwsDeleteObjects (ih_aws i) b ks w = (d, w') \<Longrightarrow>
    hot w' = hot w \<and> ((b', k') \<notin> {b} \<times> set ks \<longrightarrow> s3 w' b' k' = s3 w b' k')"
  using delete_frame [of b ks w d w' b' k'] aws by (simp add: AwsDeleteObjects_def)

lemma delete_one_frames:
  assumes "delete_one i b awsDelete f w = (res, w')" and "(b', k') \<noteq> (b, f)"
  shows "hot w' b' k' = hot w b' k' \<and> s3 w' b' k' = s3 w b' k'"
proof -
  obtain u w1 where u: "RemoveObject (ih_minio i) b f w = (u, w1)" by (metis surj_pair)
  have "hot w1 b' k' = hot w b' k' \<and> s3 w1 b' k' = s3 w b' k'" using remove_frames [OF u, of b' k'] assms(2) by simp
  then show ?thesis
    using assms u delete_frames [of b "[f]" w1 _ w' b' k'] by (auto simp: delete_one_def split: option.splits if_splits prod.splits)
qed

lemma delete_all_frames:
  "delete_all i b awsDelete files w = (res, w') \<Longrightarrow> (b', k') \<notin> {b} \<times> set files \<Longrightarrow>
   hot w' b' k' = hot w b' k' \<and> s3 w' b' k' = s3 w b' k'"
proof (induction files arbitrary: w res)
  case (Cons f files)
  obtain x w1 where x: "delete_one i b awsDelete f w = (x, w1)" by (metis surj_pair)
  obtain xs where xs: "delete_all i b awsDelete files w1 = (xs, w')"
    using Cons.prems(1) x by (auto split: prod.splits)
  show ?case using delete_one_frames [OF x, of b' k'] Cons.IH [OF xs] Cons.prems(2) by auto
qed simp

lemma DeleteImage_frames:
  assumes "DeleteImage i c requested awsParam k w = (r, w')"
    and "\<And>b. fst (resolveBucket c requested) = Inr b \<Longrightarrow> (b', k') \<noteq> (b, k)"
  shows "hot w' b' k' = hot w b' k' \<and> s3 w' b' k' = s3 w b' k'"
proof (cases "fst (resolveBucket c requested)")
  case (Inl e)
  then show ?thesis using assms(1) by (simp add: DeleteImage_def)
next
  case (Inr b)
  note ne = assms(2) [OF Inr]
  obtain ex w1 where e: "BucketExists (ih_minio i) b w = (ex, w1)" by (metis surj_pair)
  obtain ax w2 where x: "(if awsParam = ''true'' then AwsBucketExists (ih_aws i) b w1 else (True, w1)) = (ax, w2)"
    by (metis surj_pair)
  obtain u w3 where u: "RemoveObject (ih_minio i) b k w2 = (u, w3)" by (metis surj_pair)
  have w1: "hot w1 = hot w \<and> s3 w1 = s3 w" using exists_frames [OF e] .
  have w2: "hot w2 = hot w \<and> s3 w2 = s3 w" using x w1 by (auto dest!: aws_exists_frames split: if_splits)
  have w3: "hot w3 b' k' = hot w b' k' \<and> s3 w3 b' k' = s3 w b' k'" using remove_frames [OF u, of b' k'] ne w2 by simp
  have w4: "hot w4 b' k' = hot w b' k' \<and> s3 w4 b' k' = s3 w b' k'"
    if "(if awsParam = ''true'' then AwsDeleteObjects (ih_aws i) b [k] w3 else (None, w3)) = (d, w4)" for d w4
    using that w3 ne delete_frames [of b "[k]" w3 d w4 b' k'] by (auto split: if_splits)
  have "w' \<in> {w, w1, w2, w3} \<or> (\<exists>d. (if awsParam = ''true'' then AwsDeleteObjects (ih_aws i) b [k] w3 else (None, w3)) = (d, w'))"
    using assms(1) Inr e x u unfolding DeleteImage_def
    by (auto simp: Let_def split: if_splits prod.splits sum.splits bool.splits option.splits)
  then show ?thesis using w1 w2 w3 w4 by auto
qed

lemma BatchDelete_frames:
  assumes "BatchDelete i validateStruct c body w = (r, w')"
    and "\<And>req b. body = Some req \<Longrightarrow> fst (resolveBucket c (bd_Bucket req)) = Inr b \<Longrightarrow> (b', k') \<notin> {b} \<times> set (bd_Files req)"
  shows "hot w' b' k' = hot w b' k' \<and> s3 w' b' k' = s3 w b' k'"
proof -
  consider "w' = w" | req b ex w1 ax w2 where
    "body = Some req" "fst (resolveBucket c (bd_Bucket req)) = Inr b" "BucketExists (ih_minio i) b w = (ex, w1)"
    "(if bd_AWSDelete req then AwsBucketExists (ih_aws i) b w1 else (True, w1)) = (ax, w2)"
    "w' = w1 \<or> w' = w2 \<or> (\<exists>results. delete_all i b (bd_AWSDelete req) (bd_Files req) w2 = (results, w'))"
    using assms(1) unfolding BatchDelete_def
    by (auto split: if_splits prod.splits sum.splits bool.splits option.splits)
  then show ?thesis
  proof cases
    case (2 req b ex w1 ax w2)
    have w1: "hot w1 = hot w \<and> s3 w1 = s3 w" using exists_frames [OF 2(3)] .
    have w2: "hot w2 = hot w \<and> s3 w2 = s3 w" using 2(4) w1 by (auto dest!: aws_exists_frames split: if_splits)
    show ?thesis using 2(5) w1 w2 delete_all_frames [OF _ assms(2) [OF 2(1,2)]] by auto
  qed simp
qed

end

text \<open>
  Property C4.  A bucket-scoped token deletes in its own bucket only: whatever bucket, key and file list the
  two delete endpoints are sent, no object of another bucket changes, neither in MinIO nor in S3.
\<close>

lemma scoped_deletes_confined:
  assumes "image_service i a s3 hot" and "rq_Principal c = Some p" and "pr_Scoped p" and "b' \<noteq> pr_Bucket p"
    and "DeleteImage i c requested awsParam k w = (r, w') \<or> (\<exists>r. BatchDelete i validateStruct c body w = (r, w'))"
  shows "hot w' b' k' = hot w b' k' \<and> s3 w' b' k' = s3 w b' k'"
  using assms(5)
proof
  assume d: "DeleteImage i c requested awsParam k w = (r, w')"
  show ?thesis using image_service.DeleteImage_frames [OF assms(1) d, of b' k'] resolve_scoped [OF assms(2,3)] assms(4) by auto
next
  assume "\<exists>r. BatchDelete i validateStruct c body w = (r, w')"
  then obtain r where d: "BatchDelete i validateStruct c body w = (r, w')" by blast
  show ?thesis using image_service.BatchDelete_frames [OF assms(1) d, of b' k'] resolve_scoped [OF assms(2,3)] assms(4) by auto
qed

text \<open>
  Property C40.  A delete never reaches the archive of a deployment with one \<open>ARCHIVE_BUCKET\<close>.  Unless the
  local bucket has the very name of that one, every archived copy is still there after a delete,
  whatever the flag \<open>aws_delete\<close> says, because S3 is asked to delete the key from a bucket of the local
  name; and what the read endpoint streams afterwards under a name that is gone from the local
  store is the copy that was archived before the delete.
\<close>

lemma deletes_leave_the_archive:
  assumes "image_service i a s3 hot" and "a_bucket a \<noteq> ''''" and "b \<noteq> a_bucket a"
    and "fst (resolveBucket c requested) = Inr b"
    and "DeleteImage i c requested awsParam k w = (r, w') \<or>
      (\<exists>r req. BatchDelete i validateStruct c (Some req) w = (r, w') \<and> bd_Bucket req = requested)"
  shows "cold_of a s3 w' b' k' = cold_of a s3 w b' k' \<and>
    (hot w' b' k' = None \<longrightarrow> GetImage i b' k' field w' = (SendStream h body n, w'') \<longrightarrow>
       (\<exists>content. cold_of a s3 w b' k' = Some content \<and> streams body content))"
proof -
  have "s3 w' (a_bucket a) key = s3 w (a_bucket a) key" for key
    using assms(5)
  proof
    assume d: "DeleteImage i c requested awsParam k w = (r, w')"
    show ?thesis using image_service.DeleteImage_frames [OF assms(1) d, of "a_bucket a" key] assms(3,4) by auto
  next
    assume "\<exists>r req. BatchDelete i validateStruct c (Some req) w = (r, w') \<and> bd_Bucket req = requested"
    then obtain r req where d: "BatchDelete i validateStruct c (Some req) w = (r, w')" "bd_Bucket req = requested" by blast
    have "hot w' (a_bucket a) key = hot w (a_bucket a) key \<and> s3 w' (a_bucket a) key = s3 w (a_bucket a) key"
      by (rule image_service.BatchDelete_frames [OF assms(1) d(1)]) (use assms(3,4) d(2) in auto)
    then show ?thesis by simp
  qed
  then have same: "cold_of a s3 w' b' k' = cold_of a s3 w b' k'" using assms(2) by (simp add: cold_of_def resolve_def)
  show ?thesis
  proof (intro conjI impI)
    show "cold_of a s3 w' b' k' = cold_of a s3 w b' k'" by (rule same)
    assume gone: "hot w' b' k' = None" and g: "GetImage i b' k' field w' = (SendStream h body n, w'')"
    show "\<exists>content. cold_of a s3 w b' k' = Some content \<and> streams body content"
      using GetImage_content [OF assms(1) g] gone same by auto
  qed
qed

section \<open>Uploads\<close>

text \<open>
  A payload that stands for \<open>c\<close>: the file still holds it, and the reader delivers it, or has been read to
  its end and cannot be rewound.
\<close>

definition payload_of :: "payload \<Rightarrow> bytes \<Rightarrow> bool" where
  "payload_of p c \<longleftrightarrow> py_Size p = int (length c) \<and> sf_Body (py_File p) = whole c \<and> rd_data (py_Body p) \<in> {c, []}"

text \<open>So the bytes it stands for are the ones that are stored.\<close>

lemma payload_of_stored:
  "payload_of p c \<Longrightarrow> py_Size p \<le> int (length (rd_data (py_Body p))) \<Longrightarrow> take (nat (py_Size p)) (rd_data (py_Body p)) = c"
  by (auto simp: payload_of_def)

context image_service
begin

lemma replace_file_holds:
  assumes "replace_file i content f h p w = ((h', p'), w')" and "payload_of p old"
  shows "hot w' = hot w \<and> s3 w' = s3 w \<and> (payload_of p' old \<or> payload_of p' content)"
proof -
  obtain tmp w1 where t: "CreateFile (ih_temp i) content w = (tmp, w1)" by (metis surj_pair)
  show ?thesis
  proof (cases tmp)
    case (Inl err)
    then show ?thesis using assms t temp_frame [OF t] by (auto simp: replace_file_def)
  next
    case (Inr f)
    then show ?thesis using assms t temp_frame [OF t] temp_ok [of content w f w1]
      by (auto simp: replace_file_def payload_of_def)
  qed
qed

end

text \<open>What the client asked to have stored instead of the posted bytes.\<close>

definition requested_content :: "('m, 'w) image_handler \<Rightarrow> form \<Rightarrow> file_header \<Rightarrow> bytes \<Rightarrow> bytes" where
  "requested_content i form hdr content =
     (case GetWidthAndHeight (ih_env i) (\<lambda>_. fm_Value form) FormsType of
        (resize, width, height) \<Rightarrow>
          (if fm_Value form ''optimize'' = ''true'' \<and> IsImageFile (fh_Filename hdr) then
             (let opts = DefaultOptimizeOptions (ih_env i) in
              fst (maybeOptimize i content
                     (if resize then opts\<lparr>oo_TargetWidth := width, oo_TargetHeight := height\<rparr> else opts)))
           else
             (case validateImageContent i (fh_Filename hdr) content of
                Inl err \<Rightarrow> content
              | Inr (ow, oh) \<Rightarrow>
                  (if resize \<and> 0 < ow \<and> 0 < oh
                   then (case RatioWidthHeight (ih_conv i) ow oh width height of
                           (width, height) \<Rightarrow> slice (ImagickResize (ih_magick i) (ih_conv i) content width height))
                   else content))))"

lemma map_prod_InrD: "map_prod Inr id x = (Inr y, w) \<Longrightarrow> x = (y, w)"
  by (cases x) auto

context image_service
begin

lemma read_payload_holds:
  assumes "read_payload i form hdr buffer w = (Inr (h, p), w')"
    and "sf_Body buffer = whole posted" and "rd_data (sf_Rest buffer) = []"
  shows "hot w' = hot w \<and> s3 w' = s3 w \<and> ValidateFileContent (ih_env i) posted = None \<and>
    (\<exists>sides. validateImageContent i (fh_Filename hdr) posted = Inr sides) \<and>
    (payload_of p posted \<or> payload_of p (requested_content i form hdr posted))"
proof -
  have valid: "ValidateFileContent (ih_env i) posted = None"
    using assms(1,2) by (auto simp: read_payload_def split: option.splits)
  obtain ow oh where sides: "validateImageContent i (fh_Filename hdr) posted = Inr (ow, oh)"
    using assms(1,2) valid by (auto simp: read_payload_def split: sum.splits)
  obtain resize width height where g: "GetWidthAndHeight (ih_env i) (\<lambda>_. fm_Value form) FormsType = (resize, width, height)"
    by (metis surj_pair)
  let ?p = "\<lparr> py_File = buffer, py_Body = rewound buffer, py_Size = int (length posted), py_Type = ih_detect i posted \<rparr>"
  let ?c = "requested_content i form hdr posted"
  have old: "payload_of ?p posted"
    using assms(2,3) by (simp add: payload_of_def rewound_def split: option.splits)
  have "(p = ?p \<and> w' = w) \<or> (\<exists>f h0. replace_file i ?c f h0 ?p w = ((h, p), w'))"
  proof (cases "fm_Value form ''optimize'' = ''true'' \<and> IsImageFile (fh_Filename hdr)")
    case True
    let ?opts = "if resize then (DefaultOptimizeOptions (ih_env i))\<lparr>oo_TargetWidth := width, oo_TargetHeight := height\<rparr>
      else DefaultOptimizeOptions (ih_env i)"
    obtain new ow' oh' where m: "maybeOptimize i posted ?opts = (new, ow', oh')" by (metis surj_pair)
    have rc: "?c = new" using True g m by (simp add: requested_content_def Let_def)
    have r: "map_prod Inr id (replace_file i new (if 0 < ow' \<and> 0 < oh' then set_sides ow' oh' else id)
        (if 0 < ow \<and> 0 < oh then set_sides ow oh Map.empty else Map.empty) ?p w) =
        (Inr (h, p) :: upload_data http_response + headers \<times> payload, w')"
      using assms(1,2) valid sides g True m by (simp add: read_payload_def Let_def split del: if_split)
    show ?thesis unfolding rc by (intro disjI2 exI) (rule map_prod_InrD [OF r])
  next
    case False
    then show ?thesis using assms(1,2) valid sides g
      by (auto simp: read_payload_def requested_content_def Let_def split: prod.splits if_splits dest!: map_prod_InrD)
  qed
  then show ?thesis using valid sides old replace_file_holds [OF _ old] by blast
qed

lemma put_and_archive:
  assumes "PutObject (ih_minio i) b k rd n ct w = (Inr m, w1)" and "0 \<le> n"
    and "rewindAndArchive i b k f w1 = (note, w')" and "slashless b"
  shows "n \<le> int (length (rd_data rd)) \<and> hot w' b k = Some (take (nat n) (rd_data rd)) \<and>
    (\<forall>c. note = ArchiveUploaded \<longrightarrow> sf_Body f = whole c \<longrightarrow> cold_of a s3 w' b k = Some c) \<and>
    (\<forall>b1 k1. (b1, k1) \<noteq> (b, k) \<longrightarrow> hot w' b1 k1 = hot w b1 k1 \<and>
       (slashless b1 \<longrightarrow> cold_of a s3 w' b1 k1 = cold_of a s3 w b1 k1))"
proof -
  note st = put_stores [OF assms(1,2)]
  have cold1: "cold_of a s3 w1 = cold_of a s3 w" using put_frames [OF assms(1)] cold_cong by blast
  have "w' = w1 \<and> note \<noteq> ArchiveUploaded \<or>
      (\<exists>u. ar_Put (archive_iface a) b k (sf_Body f) w1 = (u, w') \<and> (note = ArchiveUploaded \<longrightarrow> u = None))"
    using assms(3) archive by (auto simp: rewindAndArchive_def archiveObject_def split: if_splits option.splits prod.splits)
  then show ?thesis
  proof (elim disjE exE conjE)
    assume "w' = w1" "note \<noteq> ArchiveUploaded"
    then show ?thesis using st cold1 put_frames [OF assms(1)] by auto
  next
    fix u assume u: "ar_Put (archive_iface a) b k (sf_Body f) w1 = (u, w')" "note = ArchiveUploaded \<longrightarrow> u = None"
    have fr: "hot w' = hot w1" using archive_frames [OF u(1) assms(4,4)] by blast
    have fr': "cold_of a s3 w' b1 k1 = cold_of a s3 w1 b1 k1" if "(b1, k1) \<noteq> (b, k)" "slashless b1" for b1 k1
      using archive_frames [OF u(1) assms(4) that(2), of k1] that(1) by blast
    have "cold_of a s3 w' b k = Some c" if "note = ArchiveUploaded" "sf_Body f = whole c" for c
      using u that archive_stores by auto
    then show ?thesis using st cold1 put_frames [OF assms(1)] fr fr' by auto
  qed
qed

lemma store_payload_stores:
  assumes "store_payload i b k nm h p w = (Json h' (Response 201 True msg (Some (Uploaded n note nm' k' link))), w')"
    and "0 \<le> py_Size p" and "slashless b"
  shows "k' = k \<and> n = py_Size p \<and> link = object_link (ih_env i) b k \<and>
    n \<le> int (length (rd_data (py_Body p))) \<and> hot w' b k = Some (take (nat n) (rd_data (py_Body p))) \<and>
    (\<forall>c. note = ArchiveUploaded \<longrightarrow> sf_Body (py_File p) = whole c \<longrightarrow> cold_of a s3 w' b k = Some c) \<and>
    (\<forall>b1 k1. (b1, k1) \<noteq> (b, k) \<longrightarrow> hot w' b1 k1 = hot w b1 k1 \<and>
       (slashless b1 \<longrightarrow> cold_of a s3 w' b1 k1 = cold_of a s3 w b1 k1))"
proof -
  obtain res w1 where put: "PutObject (ih_minio i) b k (py_Body p) (py_Size p) (py_Type p) w = (res, w1)" by (metis surj_pair)
  obtain note' w2 where arch: "rewindAndArchive i b k (py_File p) w1 = (note', w2)" by (metis surj_pair)
  show ?thesis
  proof (cases res)
    case (Inl err)
    then show ?thesis using assms put by (simp add: store_payload_def Response_def)
  next
    case (Inr m)
    have out: "note = note'" "w' = w2" "k' = k" "n = py_Size p" "link = object_link (ih_env i) b k"
      using assms put arch Inr by (auto simp: store_payload_def Response_def)
    show ?thesis using put_and_archive [OF put [unfolded Inr] assms(2) arch assms(3)] out by simp
  qed
qed

end

lemma refusals [simp]:
  "Response 400 f m d \<noteq> Response 201 g m' x" "forbidden \<noteq> Response 201 g m' x"
  "invalid_file e \<noteq> Response 201 g m' y" "invalid_image \<noteq> Response 201 g m' y"
  by (simp_all add: Response_def forbidden_def invalid_file_def invalid_image_def)

lemmas refusals_sym [simp] = refusals [symmetric]

lemma upload_stages:
  assumes "UploadImage i c form w = (Json h (Response 201 True msg (Some (Uploaded n note nm k link))), w')"
    and "fm_File form = Some hdr" and "fh_Open hdr = Inr buffer"
  obtains b w1 w2 w3 name h' p where "fst (resolveBucket c (fm_Value form ''bucket'')) = Inr b" "b \<noteq> ''''"
    "ensure_bucket i b w = (None :: upload_data http_response option, w1)" "ValidateFile (ih_env i) (fh_Size hdr) (fh_Filename hdr) = None"
    "ih_uuid i w1 = (name, w2)" "read_payload i form hdr buffer w2 = (Inr (h', p), w3)"
    "store_payload i b (object_name (fm_Value form ''path'') (name @ ''.'' @ SanitizeObjectName (last (split_on (CHR ''.'') (fh_Filename hdr)))))
       (name @ ''.'' @ SanitizeObjectName (last (split_on (CHR ''.'') (fh_Filename hdr)))) h' p w3 =
     (Json h (Response 201 True msg (Some (Uploaded n note nm k link))), w')"
proof -
  obtain b where b: "fst (resolveBucket c (fm_Value form ''bucket'')) = Inr b"
    using assms(1,2) by (cases "fst (resolveBucket c (fm_Value form ''bucket''))") (auto simp: UploadImage_def)
  have b': "b \<noteq> ''''" using assms(1,2) b by (auto simp: UploadImage_def)
  obtain refused w1 where e: "ensure_bucket i b w = (refused :: upload_data http_response option, w1)" by (metis surj_pair)
  have none: "refused = None"
  proof (cases refused)
    case (Some answer)
    then have "answer = Response 201 True msg (Some (Uploaded n note nm k link))" using assms(1,2) b b' e by (simp add: UploadImage_def)
    moreover have "hr_Status answer = 400" using e Some
      by (auto simp: ensure_bucket_def split: prod.splits sum.splits bool.splits option.splits)
    ultimately show ?thesis by simp
  qed simp
  have v: "ValidateFile (ih_env i) (fh_Size hdr) (fh_Filename hdr) = None"
    using assms(1,2) b b' e none by (auto simp: UploadImage_def split: option.splits)
  obtain name w2 where u: "ih_uuid i w1 = (name, w2)" by (metis surj_pair)
  obtain res w3 where r: "read_payload i form hdr buffer w2 = (res, w3)" by (metis surj_pair)
  have len: "\<not> length (split_on (CHR ''.'') (fh_Filename hdr)) < 2"
    using assms b b' e none v by (auto simp: UploadImage_def Let_def)
  show ?thesis
  proof (cases res)
    case (Inl answer)
    then have "answer = Response 201 True msg (Some (Uploaded n note nm k link))"
      using assms b b' e none v u r len by (simp add: UploadImage_def Let_def)
    moreover have "answer = invalid_image \<or> (\<exists>e. answer = invalid_file e)" using r Inl
      by (auto simp: read_payload_def Let_def map_prod_def split: if_splits option.splits sum.splits prod.splits)
    ultimately show ?thesis by auto
  next
    case (Inr hp)
    obtain h' p where "hp = (h', p)" by (metis surj_pair)
    then show ?thesis using that [OF b b' _ v u] e none r Inr assms len b b' v u by (simp add: UploadImage_def Let_def)
  qed
qed

text \<open>
  Property C3.  An upload that answers 201 is stored, and its name and declared size were allowed.  When
  the posted file could be read to its end, its bytes passed the content and image checks, and the
  caller's own bucket holds, under the key of the answer, exactly them or the optimized or resized
  version the form asked for; the announced size is the length of what is stored, and if the
  answer says the archive has it too, the archive holds the same bytes, not an empty object.
  When reading broke off, no check saw the content, and what is stored is what reading on
  delivered, up to the declared size.  In both cases no other object of either tier has changed.
  (Declared sizes are not negative, and a file read to its end has nothing left to read.)
\<close>

lemma upload_stores_both_tiers:
  assumes "image_service i a s3 hot"
    and "UploadImage i c form w = (Json h (Response 201 True msg (Some (Uploaded n note nm k link))), w')"
    and "fm_File form = Some hdr" and "fh_Open hdr = Inr buffer" and "0 \<le> fh_Size hdr"
    and "rd_fail (sf_Body buffer) = None \<longrightarrow> rd_data (sf_Rest buffer) = []"
    and "fst (resolveBucket c (fm_Value form ''bucket'')) = Inr b" and "slashless b"
  shows "ValidateFile (ih_env i) (fh_Size hdr) (fh_Filename hdr) = None \<and>
      (if rd_fail (sf_Body buffer) = None then
         ValidateFileContent (ih_env i) (rd_data (sf_Body buffer)) = None \<and>
         (\<exists>sides. validateImageContent i (fh_Filename hdr) (rd_data (sf_Body buffer)) = Inr sides) \<and>
         (\<exists>content \<in> {rd_data (sf_Body buffer), requested_content i form hdr (rd_data (sf_Body buffer))}.
            hot w' b k = Some content \<and> n = int (length content) \<and>
            (note = ArchiveUploaded \<longrightarrow> cold_of a s3 w' b k = Some content))
       else n = fh_Size hdr \<and> hot w' b k = Some (take (nat n) (rd_data (sf_Rest buffer)))) \<and>
      (\<forall>b1 k1. (b1, k1) \<noteq> (b, k) \<longrightarrow> hot w' b1 k1 = hot w b1 k1 \<and>
         (slashless b1 \<longrightarrow> cold_of a s3 w' b1 k1 = cold_of a s3 w b1 k1))"
proof -
  from upload_stages [OF assms(2-4)] obtain w1 w2 w3 name h' p key nm' where
    e: "ensure_bucket i b w = (None :: upload_data http_response option, w1)" and
    v: "ValidateFile (ih_env i) (fh_Size hdr) (fh_Filename hdr) = None" and u: "ih_uuid i w1 = (name, w2)" and
    r: "read_payload i form hdr buffer w2 = (Inr (h', p), w3)" and
    st: "store_payload i b key nm' h' p w3 = (Json h (Response 201 True msg (Some (Uploaded n note nm k link))), w')"
    using assms(7) by (metis Inr_inject)
  have same: "hot w2 = hot w" "cold_of a s3 w2 = cold_of a s3 w"
    using image_service.uuid_frame [OF assms(1) u] image_service.ensure_frames [OF assms(1) e] by (simp_all add: cold_of_def fun_eq_iff)
  show ?thesis
  proof (cases "rd_fail (sf_Body buffer)")
    case None
    let ?posted = "rd_data (sf_Body buffer)"
    have body: "sf_Body buffer = whole ?posted" using None by (simp add: reader.equality)
    note held = image_service.read_payload_holds [OF assms(1) r body assms(6) [rule_format, OF None]]
    then have "\<exists>content\<in>{?posted, requested_content i form hdr ?posted}. payload_of p content" by simp
    then obtain content where content: "content \<in> {?posted, requested_content i form hdr ?posted}" "payload_of p content"
      by (rule bexE)
    have size: "0 \<le> py_Size p" "sf_Body (py_File p) = whole content" "py_Size p = int (length content)"
      using content(2) by (simp_all add: payload_of_def)
    note stored = image_service.store_payload_stores [OF assms(1) st size(1) assms(8)]
    have new: "hot w' b k = Some content \<and> n = int (length content) \<and> (note = ArchiveUploaded \<longrightarrow> cold_of a s3 w' b k = Some content)"
      using stored payload_of_stored [OF content(2)] size by metis
    have "hot w3 = hot w" "cold_of a s3 w3 = cold_of a s3 w" using held same by (simp_all add: cold_of_def fun_eq_iff)
    then have frame: "\<forall>b1 k1. (b1, k1) \<noteq> (b, k) \<longrightarrow> hot w' b1 k1 = hot w b1 k1 \<and>
        (slashless b1 \<longrightarrow> cold_of a s3 w' b1 k1 = cold_of a s3 w b1 k1)" using stored by simp
    have checked: "ValidateFileContent (ih_env i) ?posted = None" "\<exists>sides. validateImageContent i (fh_Filename hdr) ?posted = Inr sides"
      using held by blast+
    show ?thesis unfolding if_P [OF None] using v checked new content(1) frame by blast
  next
    case (Some err)
    then have p: "w3 = w2" "py_Body p = sf_Rest buffer" "py_Size p = fh_Size hdr" using r by (auto simp: read_payload_def)
    then have "0 \<le> py_Size p" using assms(5) by simp
    from image_service.store_payload_stores [OF assms(1) st this assms(8)]
    have stored: "n = fh_Size hdr \<and> hot w' b k = Some (take (nat n) (rd_data (sf_Rest buffer)))"
      and frame: "\<forall>b1 k1. (b1, k1) \<noteq> (b, k) \<longrightarrow> hot w' b1 k1 = hot w b1 k1 \<and>
        (slashless b1 \<longrightarrow> cold_of a s3 w' b1 k1 = cold_of a s3 w b1 k1)"
      unfolding p same by blast+
    have broken: "rd_fail (sf_Body buffer) \<noteq> None" using Some by simp
    show ?thesis unfolding if_not_P [OF broken] using v stored frame by blast
  qed
qed

lemma photo_upload:
  "case fst (UploadImage mem_images photos_request photo_form tier_world) of
     Json h r \<Rightarrow> r = Response 201 True ''success''
       (Some (Uploaded 5 ArchiveUploaded ''u.PNG'' ''p/u.PNG'' ''http://localhost:9090/photos/p/u.PNG''))
   | _ \<Rightarrow> False"
  by code_simp

lemma upload_stores_both_tiers_witness:
  "\<exists>h w' content. UploadImage mem_images photos_request photo_form tier_world =
      (Json h (Response 201 True ''success''
         (Some (Uploaded 5 ArchiveUploaded ''u.PNG'' ''p/u.PNG'' ''http://localhost:9090/photos/p/u.PNG''))), w') \<and>
     m_hot w' ''photos'' ''p/u.PNG'' = Some content \<and> length content = 5 \<and>
     cold_of mem_archive m_s3 w' ''photos'' ''p/u.PNG'' = Some content"
proof -
  obtain r w' where u: "UploadImage mem_images photos_request photo_form tier_world = (r, w')" by (metis surj_pair)
  with photo_upload obtain h where r: "r = Json h (Response 201 True ''success''
      (Some (Uploaded 5 ArchiveUploaded ''u.PNG'' ''p/u.PNG'' ''http://localhost:9090/photos/p/u.PNG'')))"
    by (cases r) auto
  have b: "fst (resolveBucket photos_request (fm_Value photo_form ''bucket'')) = Inr ''photos''" by code_simp
  have f: "fm_File photo_form = Some \<lparr> fh_Filename = ''a.PNG'', fh_Size = 5, fh_ContentType = '''', fh_Open = Inr (memory_file png) \<rparr>"
    by (simp add: photo_form_def)
  show ?thesis
    using upload_stores_both_tiers [OF mem_images.image_service_axioms u [unfolded r] f _ _ _ b, of "memory_file png"] u r
    by (auto simp: memory_file_def slashless_def)
qed

definition archived_only :: mem where
  "archived_only = tier_world\<lparr>m_hot := (\<lambda>_ _. None)\<rparr>"

lemma archived_photo_read:
  "case (fst (GetImage mem_images ''photos'' ''b.png'' (\<lambda>_ _. '''') archived_only) :: unit reply) of
     SendStream h body n \<Rightarrow> body = whole [3] \<and> n = 1 \<and> h ''Content-Type'' = Some ''text/plain; charset=utf-8''
   | _ \<Rightarrow> False"
  by code_simp


lemma mem_sniffer: "sniffs_no_svg mem_images"
proof -
  have "media_type ''text/html; charset=utf-8'' \<noteq> ''image/svg+xml''" by code_simp
  then show ?thesis by (simp add: sniffs_no_svg_def mem_images_def)
qed

lemma nothing_executable_is_served_witness:
  "\<exists>h w'. GetImage mem_images ''photos'' ''b.png'' (\<lambda>_ _. '''') archived_only = (SendStream h (whole [3]) 1 :: unit reply, w') \<and>
     harmless h \<and> h ''Content-Type'' = Some ''text/plain; charset=utf-8''"
proof -
  obtain r w' where g: "GetImage mem_images ''photos'' ''b.png'' (\<lambda>_ _. '''') archived_only = (r :: unit reply, w')" by (metis surj_pair)
  with archived_photo_read obtain h where r: "r = SendStream h (whole [3]) 1" "h ''Content-Type'' = Some ''text/plain; charset=utf-8''"
    by (cases r) auto
  show ?thesis
    using nothing_executable_is_served [OF mem_sniffer mem_sniffer, THEN conjunct1, THEN mp, OF g] g r by auto
qed

lemma scoped_deletes_confined_witness:
  "\<exists>r w'. DeleteImage mem_images photos_request ''photos'' ''true'' ''a.png'' tier_world = (r, w') \<and>
     (\<forall>b' k'. b' \<noteq> ''photos'' \<longrightarrow> m_hot w' b' k' = m_hot tier_world b' k' \<and> m_s3 w' b' k' = m_s3 tier_world b' k')"
proof -
  obtain r w' where d: "DeleteImage mem_images photos_request ''photos'' ''true'' ''a.png'' tier_world = (r, w')" by (metis surj_pair)
  have "m_hot w' b' k' = m_hot tier_world b' k' \<and> m_s3 w' b' k' = m_s3 tier_world b' k'" if "b' \<noteq> ''photos''" for b' k'
    using scoped_deletes_confined [OF mem_images.image_service_axioms, of photos_request "\<lparr> pr_Scoped = True, pr_Bucket = ''photos'' \<rparr>"
        b' "''photos''" "''true''" "''a.png''" tier_world r w'] d that
    by (simp add: photos_request_def)
  with d show ?thesis by blast
qed

lemma deleted_photo_read:
  "case (fst (GetImage mem_images ''photos'' ''b.png'' (\<lambda>_ _. '''')
      (snd (DeleteImage mem_images photos_request ''photos'' ''true'' ''b.png'' tier_world))) :: unit reply) of
     SendStream h body n \<Rightarrow> body = whole [3] \<and> n = 1
   | _ \<Rightarrow> False"
  by code_simp

lemma deletes_leave_the_archive_witness:
  "\<exists>r w' h w''. DeleteImage mem_images photos_request ''photos'' ''true'' ''b.png'' tier_world = (r, w') \<and>
     m_hot w' ''photos'' ''b.png'' = None \<and> cold_of mem_archive m_s3 w' ''photos'' ''b.png'' = Some [3] \<and>
     GetImage mem_images ''photos'' ''b.png'' (\<lambda>_ _. '''') w' = (SendStream h (whole [3]) 1 :: unit reply, w'') \<and>
     (\<exists>content. cold_of mem_archive m_s3 tier_world ''photos'' ''b.png'' = Some content \<and> streams (whole [3]) content)"
proof -
  obtain r w' where d: "DeleteImage mem_images photos_request ''photos'' ''true'' ''b.png'' tier_world = (r, w')" by (metis surj_pair)
  obtain reply w'' where g: "GetImage mem_images ''photos'' ''b.png'' (\<lambda>_ _. '''') w' = (reply :: unit reply, w'')" by (metis surj_pair)
  have "case reply of SendStream h body n \<Rightarrow> body = whole [3] \<and> n = 1 | _ \<Rightarrow> False"
    using deleted_photo_read unfolding d snd_conv g fst_conv .
  then obtain h where r: "reply = SendStream h (whole [3]) 1" by (cases reply) auto
  have "m_hot (snd (DeleteImage mem_images photos_request ''photos'' ''true'' ''b.png'' tier_world)) ''photos'' ''b.png'' = None"
    and b: "fst (resolveBucket photos_request ''photos'') = Inr ''photos''"
    and c: "cold_of mem_archive m_s3 tier_world ''photos'' ''b.png'' = Some [3]"
    by code_simp+
  with deletes_leave_the_archive [OF mem_images.image_service_axioms _ _ b disjI1 [OF d], of "''photos''" "''b.png''"
      "\<lambda>_ _. ''''" h "whole [3]" 1 w''] d g r show ?thesis by auto
qed

section \<open>Keys and links\<close>

lemma split_on_join: "split_on c (p @ c # q) = split_on c p @ split_on c q"
proof (induction p)
  case (Cons x p)
  then show ?case by (cases "split_on c p") auto
qed simp

text \<open>
  A stored object can be out of reach for good.  Uploading accepts a path with a \<open>..\<close> segment
  (sanitizing leaves it alone), but the key made from it is refused by the read and by the delete
  endpoint: both answer without asking either store.
\<close>

lemma dotdot_uploads_unreachable:
  assumes "path \<noteq> ''''" and "''..'' \<in> set (split_on (CHR ''/'') (SanitizeObjectName (TrimSet {CHR ''/''} path)))"
    and "k = object_name path imageName"
  shows "GetImage i b k field w = (not_found Map.empty, w) \<and>
    (\<exists>h answer. DeleteImage i c b' awsParam k w = (Json h answer, w) \<and> hr_Status answer \<in> {400, 403})"
proof -
  have "''..'' \<in> set (split_on (CHR ''/'') k)" using assms by (simp add: object_name_def split_on_join)
  then have "HasUnsafeObjectKey k" by (simp add: HasUnsafeObjectKey_def)
  then show ?thesis by (auto simp: GetImage_def DeleteImage_def Let_def forbidden_def split: sum.split)
qed

definition dotdot_form :: form where
  "dotdot_form = photo_form\<lparr>fm_Value := (\<lambda>name. if name = ''path'' then ''a/../b'' else '''')\<rparr>"

lemma dotdot_uploads_unreachable_witness:
  "(case fst (UploadImage mem_images photos_request dotdot_form tier_world) of
      Json h r \<Rightarrow> r = Response 201 True ''success''
        (Some (Uploaded 5 ArchiveUploaded ''u.PNG'' ''a/../b/u.PNG'' ''http://localhost:9090/photos/a/../b/u.PNG''))
    | _ \<Rightarrow> False) \<and>
   GetImage mem_images ''photos'' ''a/../b/u.PNG'' (\<lambda>_ _. '''') tier_world = (not_found Map.empty :: unit reply, tier_world)"
proof
  have p: "''..'' \<in> set (split_on (CHR ''/'') (SanitizeObjectName (TrimSet {CHR ''/''} ''a/../b'')))"
    and k: "''a/../b/u.PNG'' = object_name ''a/../b'' ''u.PNG''"
    by code_simp+
  show "GetImage mem_images ''photos'' ''a/../b/u.PNG'' (\<lambda>_ _. '''') tier_world = (not_found Map.empty :: unit reply, tier_world)"
    by (rule dotdot_uploads_unreachable [OF _ p k, THEN conjunct1]) simp
qed code_simp

text \<open>
  The link an upload answers with is a file reference the archive endpoint understands: it
  leads back to the key under which the object is stored, as long as the URL parser splits the link where
  the handler joined it and the key is one the read endpoint serves.
\<close>

lemma upload_link_roundtrip:
  assumes "ul_Parse lib (object_link env b k) = Some u" and "u_Path u = ''/'' @ b @ ''/'' @ k"
    and "ul_Parse lib (GetEnvOrDefault env ''APP_URL'' ''http://localhost:9090'') = Some app"
    and "ul_EqualFold lib (u_Host u) (u_Host app)"
    and "HasPrefix (object_link env b k) ''http://'' \<or> HasPrefix (object_link env b k) ''https://''"
    and "TrimSpace (object_link env b k) = object_link env b k"
    and "\<not> HasPrefix k ''/''" and "\<not> HasUnsafeObjectKey k"
  shows "normalizeObjectKey lib env (object_link env b k) b = Inr k"
proof -
  have "keyFromURL lib env (object_link env b k) b = Inr k"
    using assms(1-4) TrimPrefix_append [of "''/''" "b @ ''/'' @ k"] TrimPrefix_append [of "b @ ''/''" k]
    by (simp add: keyFromURL_def Let_def HasPrefix_iff)
  moreover have "object_link env b k \<noteq> ''''" by (simp add: object_link_def)
  moreover have "k \<noteq> ''''" using assms(8) by (auto simp: HasUnsafeObjectKey_def TrimSpace_def trim_left_def trim_right_def)
  moreover have "TrimPrefix k ''/'' = k" using assms(7) by (simp add: TrimPrefix_def)
  ultimately show ?thesis using assms(5,6,8) by (simp add: normalizeObjectKey_def Let_def)
qed

text \<open>A parser for the links of the default deployment.\<close>

definition link_lib :: url_lib where
  "link_lib =
     \<lparr> ul_Parse = (\<lambda>s. if HasPrefix s ''http://localhost:9090''
          then Some \<lparr> u_Scheme = ''http'', u_Host = ''localhost:9090'', u_Hostname = ''localhost'', u_Path = drop 21 s \<rparr>
          else None),
       ul_EqualFold = (\<lambda>a b. ToLower a = ToLower b) \<rparr>"

lemma upload_link_roundtrip_witness:
  "normalizeObjectKey link_lib (\<lambda>_. '''') ''http://localhost:9090/photos/p/u.PNG'' ''photos'' = Inr ''p/u.PNG''"
proof -
  have l: "object_link (\<lambda>_. '''') ''photos'' ''p/u.PNG'' = ''http://localhost:9090/photos/p/u.PNG''" by code_simp
  have app: "GetEnvOrDefault (\<lambda>_. '''') ''APP_URL'' ''http://localhost:9090'' = ''http://localhost:9090''" by code_simp
  let ?u = "\<lparr> u_Scheme = ''http'', u_Host = ''localhost:9090'', u_Hostname = ''localhost'', u_Path = ''/photos/p/u.PNG'' \<rparr>"
  have 1: "ul_Parse link_lib ''http://localhost:9090/photos/p/u.PNG'' = Some ?u"
    and 2: "ul_Parse link_lib ''http://localhost:9090'' = Some (?u\<lparr>u_Path := ''''\<rparr>)"
    by code_simp+
  have 3: "HasPrefix ''http://localhost:9090/photos/p/u.PNG'' ''http://''"
    "TrimSpace ''http://localhost:9090/photos/p/u.PNG'' = ''http://localhost:9090/photos/p/u.PNG''"
    "\<not> HasPrefix ''p/u.PNG'' ''/''" "\<not> HasUnsafeObjectKey ''p/u.PNG''"
    by code_simp+
  show ?thesis
    using upload_link_roundtrip [of link_lib "\<lambda>_. ''''" "''photos''" "''p/u.PNG''" ?u "?u\<lparr>u_Path := ''''\<rparr>"]
    unfolding l app using 1 2 3 by (simp add: link_lib_def)
qed

section \<open>Decode slots\<close>

definition decoding :: "phase list \<Rightarrow> nat" where
  "decoding ps = length (filter (\<lambda>p. p = Decoding) ps)"

fun phase_work :: "phase \<Rightarrow> nat" where
  "phase_work Arrived = 3"
| "phase_work WaitingForSlot = 2"
| "phase_work Decoding = 1"
| "phase_work Served = 0"
| "phase_work GaveUp = 0"

definition slot_work :: "phase list \<Rightarrow> nat" where
  "slot_work ps = sum_list (map phase_work ps)"

lemma slot_work_update: "k < length ps \<Longrightarrow> slot_work (ps[k := x]) + phase_work (ps ! k) = slot_work ps + phase_work x"
proof (induction ps arbitrary: k)
  case (Cons a ps)
  then show ?case by (cases k) (auto simp: slot_work_def add.commute add.left_commute)
qed simp

lemma decoding_update:
  "k < length ps \<Longrightarrow> decoding (ps[k := x]) + of_bool (ps ! k = Decoding) = decoding ps + of_bool (x = Decoding)"
proof (induction ps arbitrary: k)
  case (Cons a ps)
  then show ?case by (cases k) (auto simp: decoding_def)
qed simp

lemma slot_step_bounded:
  "slot_step cap ps ps' \<Longrightarrow> decoding ps \<le> cap \<Longrightarrow> decoding ps' \<le> cap"
proof (induction rule: slot_step.induct)
  case (enter k ps)
  then show ?case using decoding_update [of k ps WaitingForSlot] by simp
next
  case (acquire k ps)
  then show ?case using decoding_update [of k ps Decoding] by (simp add: decoding_def)
next
  case (time_out k ps)
  then show ?case using decoding_update [of k ps GaveUp] by simp
next
  case (release k ps)
  then show ?case using decoding_update [of k ps Served] by simp
qed

lemma slot_step_work: "slot_step cap ps ps' \<Longrightarrow> slot_work ps' < slot_work ps \<and> length ps' = length ps"
proof (induction rule: slot_step.induct)
  case (enter k ps)
  then show ?case using slot_work_update [of k ps WaitingForSlot] by simp
next
  case (acquire k ps)
  then show ?case using slot_work_update [of k ps Decoding] by simp
next
  case (time_out k ps)
  then show ?case using slot_work_update [of k ps GaveUp] by simp
next
  case (release k ps)
  then show ?case using slot_work_update [of k ps Served] by simp
qed

text \<open>A request that is not answered yet can move, and without a time-out once no slot is taken.\<close>

lemma slot_step_enabled:
  assumes "k < length ps" and "ps ! k \<notin> {Served, GaveUp}" and "0 < cap"
  shows "\<exists>ps'. slot_step cap ps ps'"
  using assms slot_step.enter [of k ps cap] slot_step.time_out [of k ps cap] slot_step.release [of k ps cap]
  by (cases "ps ! k") auto

text \<open>
  Property C31.  However the reads interleave, no more images are decoded at once than
  \<open>RESIZE_MAX_CONCURRENT\<close> allows, any setting below 1 counting as 1; and no run gets stuck or goes on for
  ever: each step makes progress, and as long as a request has no answer some step is possible.
\<close>

lemma decodes_are_bounded:
  assumes "(slot_step (nat (resize_slots env)))\<^sup>*\<^sup>* (replicate n Arrived) ps"
  shows "int (decoding ps) \<le> resize_slots env \<and> 1 \<le> resize_slots env \<and> length ps = n \<and>
    (\<forall>k < n. ps ! k \<notin> {Served, GaveUp} \<longrightarrow> (\<exists>ps'. slot_step (nat (resize_slots env)) ps ps')) \<and>
    (\<forall>ps'. slot_step (nat (resize_slots env)) ps ps' \<longrightarrow> slot_work ps' < slot_work ps)"
proof -
  have one: "1 \<le> resize_slots env" by (simp add: resize_slots_def Let_def)
  have "decoding ps \<le> nat (resize_slots env) \<and> length ps = n"
    using assms
  proof induction
    case base
    show ?case by (simp add: decoding_def)
  next
    case (step ps ps')
    then show ?case using slot_step_bounded slot_step_work by metis
  qed
  then show ?thesis using one slot_step_enabled [of _ ps "nat (resize_slots env)"] slot_step_work by auto
qed

lemma decodes_are_bounded_witness:
  "(slot_step 4)\<^sup>*\<^sup>* (replicate 2 Arrived) [Decoding, Arrived] \<and>
   int (decoding [Decoding, Arrived]) \<le> resize_slots (\<lambda>_. '''')"
proof -
  have s: "resize_slots (\<lambda>_. '''') = 4" by code_simp
  have "slot_step 4 [Arrived, Arrived] [WaitingForSlot, Arrived]" "slot_step 4 [WaitingForSlot, Arrived] [Decoding, Arrived]"
    using slot_step.enter [of 0 "[Arrived, Arrived]" 4] slot_step.acquire [of 0 "[WaitingForSlot, Arrived]" 4] by simp_all
  then have r: "(slot_step 4)\<^sup>*\<^sup>* (replicate 2 Arrived) [Decoding, Arrived]"
    by (simp add: numeral_2_eq_2 rtranclp.rtrancl_into_rtrancl)
  then show ?thesis using decodes_are_bounded [of "\<lambda>_. ''''" 2 "[Decoding, Arrived]"] by (simp add: s)
qed

section \<open>Fetched and batched uploads\<close>

definition odd_file :: file_header where
  "odd_file = \<lparr> fh_Filename = ''a.pdf'', fh_Size = 4, fh_ContentType = ''application/pdf'',
     fh_Open = Inr (memory_file [0xFF, 0xFE, 0x00, 0x01]) \<rparr>"

text \<open>
  The content gate of \<open>/upload\<close> is missing on \<open>/batch/upload\<close>: a file of an allowed extension
  whose bytes match no signature and are no text is refused by the one and stored by the other.
\<close>

lemma batch_skips_content_check:
  "(case fst (UploadImage mem_images photos_request (photo_form\<lparr>fm_File := Some odd_file\<rparr>) tier_world) of
      Json h r \<Rightarrow> hr_Status r = 400 \<and> hr_Data r = Some (Code INVALID_FILE_CONTENT)
    | _ \<Rightarrow> False) \<and>
   (case BatchUpload mem_images photos_request
           (Some \<lparr> bf_bucket = [], bf_path = [], bf_optimize = [], bf_files = [odd_file] \<rparr>) tier_world of
      (Json h r, w) \<Rightarrow>
        hr_Status r = 200 \<and> map_option (map ur_error) (hr_Data r) = Some [None] \<and>
        m_hot w ''photos'' ''u_a.pdf'' = Some [0xFF, 0xFE, 0x00, 0x01]
    | _ \<Rightarrow> False)"
  by code_simp

context image_service
begin

lemma store_fetched_stores:
  assumes "store_fetched i req b content w = (Json h (Response 201 True msg (Some (Uploaded n note nm k link))), w')"
    and "slashless b" and "\<not> uq_Optimize req"
  shows "hot w' b k = Some content \<and> (note = ArchiveUploaded \<longrightarrow> cold_of a s3 w' b k = Some content) \<and>
    (\<forall>b1 k1. (b1, k1) \<noteq> (b, k) \<longrightarrow> hot w' b1 k1 = hot w b1 k1 \<and>
       (slashless b1 \<longrightarrow> cold_of a s3 w' b1 k1 = cold_of a s3 w b1 k1))"
proof -
  obtain ext where ext: "fetched_extension (ih_detect i content) (uq_URL req) = Some ext"
    using assms(1,3) by (cases "fetched_extension (ih_detect i content) (uq_URL req)") (simp_all add: store_fetched_def)
  obtain sides where v: "validateImageContent i (''f.'' @ ext) content = Inr sides"
    using assms(1,3) ext by (cases "validateImageContent i (''f.'' @ ext) content") (simp_all add: store_fetched_def)
  obtain name w1 where u: "ih_uuid i w = (name, w1)" by (metis surj_pair)
  let ?k = "object_name (uq_Path req) (name @ ''.'' @ SanitizeObjectName ext)"
  obtain res w2 where put: "PutObject (ih_minio i) b ?k (whole content) (int (length content)) (ih_detect i content) w1 = (res, w2)"
    by (metis surj_pair)
  obtain note' w3 where arch: "rewindAndArchive i b ?k (memory_file content) w2 = (note', w3)" by (metis surj_pair)
  show ?thesis
  proof (cases res)
    case (Inl err)
    then show ?thesis using assms(1,3) ext v u put by (simp add: store_fetched_def Let_def Response_def)
  next
    case (Inr m)
    have out: "note = note'" "w' = w3" "k = ?k"
      using assms(1,3) ext v u put arch Inr by (simp_all add: store_fetched_def Let_def Response_def)
    have "hot w1 = hot w \<and> cold_of a s3 w1 = cold_of a s3 w" using uuid_frame [OF u] cold_cong by blast
    then show ?thesis using put_and_archive [OF put [unfolded Inr] _ arch assms(2)] out by (simp add: memory_file_def)
  qed
qed

end

text \<open>A network that leaves the stores alone does so over a whole fetch.\<close>

definition quiet_network :: "'w network \<Rightarrow> ('w \<Rightarrow> 's) \<Rightarrow> bool" where
  "quiet_network net I \<longleftrightarrow> (\<forall>u w. I (snd (net_Dial net u w)) = I w \<and> I (snd (net_Answer net u w)) = I w)"

lemma fetch_quiet:
  assumes "quiet_network net I"
  shows "fetch allow split parse net u via w = (res, dialled, n, w') \<Longrightarrow> I w' = I w"
proof (induction "3 - via" arbitrary: u via w dialled rule: less_induct)
  case less
  obtain target w1 where d: "net_Dial net u w = (target, w1)" by (metis surj_pair)
  obtain an w2 where a: "net_Answer net u w1 = (an, w2)" by (metis surj_pair)
  have I: "I w1 = I w" "I w2 = I w" using assms d a unfolding quiet_network_def by (metis snd_conv)+
  let ?control = "case target of None \<Rightarrow> None | Some address \<Rightarrow> dial_control allow split parse address"
  show ?case
  proof (cases "?control = None \<and> (\<exists>u'. an = Redirect u' \<and> CheckRedirect u' (Suc via) = None)")
    case True
    then obtain u' where u': "?control = None" "an = Redirect u'" "CheckRedirect u' (Suc via) = None" by blast
    obtain x y z v where f: "fetch allow split parse net u' (Suc via) w2 = (x, y, z, v)" by (metis surj_pair)
    have "via < 3" using u'(3) by (auto simp: CheckRedirect_def split: if_splits)
    moreover have "x = res" "v = w'" "z = n" using less.prems d a u' f by (subst (asm) fetch.simps, simp add: Let_def)+
    ultimately show ?thesis using less.hyps [of "Suc via" u' w2 y] f I by auto
  next
    case False
    then have "w' \<in> {w1, w2}" using less.prems d a
      by (subst (asm) fetch.simps) (auto simp: Let_def split: http_answer.splits option.splits)
    then show ?thesis using I by auto
  qed
qed

lemma url_upload_stages:
  assumes "UploadWithUrl i lib ft validateStruct c (Some req) w = (Json h (Response 201 True msg (Some (Uploaded n note nm k link))), w')"
  obtains b w1 u answer dialled m w2 content where "fst (resolveBucket c (uq_Bucket req)) = Inr b"
    "ValidateUploadURL (ih_env i) (ul_Parse lib) (ft_ParseIP ft) (uq_URL req) = None"
    "ensure_bucket i b w = (None :: upload_data http_response option, w1)" "ul_Parse lib (uq_URL req) = Some u"
    "fetch (allowPrivateTargets (ih_env i)) (ft_SplitHost ft) (ft_ParseIP ft) (ft_net ft) u 0 w1 = (Inr answer, dialled, m, w2)"
    "read_limited (max_file_size (ih_env i)) answer = Inr content"
    "store_fetched i req b content w2 = (Json h (Response 201 True msg (Some (Uploaded n note nm k link))), w')"
proof -
  obtain b where b: "fst (resolveBucket c (uq_Bucket req)) = Inr b"
    using assms by (cases "fst (resolveBucket c (uq_Bucket req))") (auto simp: UploadWithUrl_def split: option.splits)
  have v: "ValidateUploadURL (ih_env i) (ul_Parse lib) (ft_ParseIP ft) (uq_URL req) = None"
    using assms b by (auto simp: UploadWithUrl_def split: option.splits if_splits)
  obtain refused w1 where e: "ensure_bucket i b w = (refused :: upload_data http_response option, w1)" by (metis surj_pair)
  have none: "refused = None"
  proof (cases refused)
    case (Some answer)
    then have "answer = Response 201 True msg (Some (Uploaded n note nm k link))"
      using assms b v e by (auto simp: UploadWithUrl_def split: option.splits if_splits)
    moreover have "hr_Status answer = 400" using e Some
      by (auto simp: ensure_bucket_def split: prod.splits sum.splits bool.splits option.splits)
    ultimately show ?thesis by simp
  qed simp
  obtain u where u: "ul_Parse lib (uq_URL req) = Some u"
    using assms b v e none by (auto simp: UploadWithUrl_def split: option.splits if_splits)
  obtain res dialled m w2 where f: "fetch (allowPrivateTargets (ih_env i)) (ft_SplitHost ft) (ft_ParseIP ft) (ft_net ft) u 0 w1 = (res, dialled, m, w2)"
    by (metis surj_pair)
  obtain answer where answer: "res = Inr answer"
    using assms b v e none u f by (cases res) (auto simp: UploadWithUrl_def split: option.splits if_splits)
  obtain content where r: "read_limited (max_file_size (ih_env i)) answer = Inr content"
    using assms b v e none u f answer
    by (cases "read_limited (max_file_size (ih_env i)) answer") (auto simp: UploadWithUrl_def split: option.splits if_splits)
  show ?thesis
    using that [OF b v _ u _ r] e none f answer assms b v u r
    by (auto simp: UploadWithUrl_def split: option.splits if_splits)
qed

text \<open>
  An upload by URL stores what the server sent, up to \<open>MAX_FILE_SIZE\<close>: everything behind the limit
  is cut off without an error, and the cut object is stored and archived as a success.  The content came
  over at most two redirects from addresses that passed the range check, and no other object has changed.
\<close>

lemma url_upload_truncates:
  assumes "image_service i a s3 hot"
    and "quiet_network (ft_net ft) (\<lambda>w. (hot w, s3 w))"
    and "UploadWithUrl i lib ft validateStruct c (Some req) w = (Json h (Response 201 True msg (Some (Uploaded n note nm k link))), w')"
    and "fst (resolveBucket c (uq_Bucket req)) = Inr b" and "slashless b" and "\<not> uq_Optimize req"
  shows "\<exists>u w1 answer dialled m w2.
      fetch (allowPrivateTargets (ih_env i)) (ft_SplitHost ft) (ft_ParseIP ft) (ft_net ft) u 0 w1 = (Inr answer, dialled, m, w2) \<and>
      m \<le> 3 \<and> (\<forall>x\<in>set dialled. dial_control (allowPrivateTargets (ih_env i)) (ft_SplitHost ft) (ft_ParseIP ft) x = None) \<and>
      hot w' b k = Some (take (nat (max_file_size (ih_env i))) (rd_data answer)) \<and>
      (note = ArchiveUploaded \<longrightarrow> cold_of a s3 w' b k = hot w' b k) \<and>
      (\<forall>b1 k1. (b1, k1) \<noteq> (b, k) \<longrightarrow> hot w' b1 k1 = hot w b1 k1 \<and>
         (slashless b1 \<longrightarrow> cold_of a s3 w' b1 k1 = cold_of a s3 w b1 k1))"
proof -
  from url_upload_stages [OF assms(3)] assms(4) obtain w1 u answer dialled m w2 content where
    e: "ensure_bucket i b w = (None :: upload_data http_response option, w1)" and
    f: "fetch (allowPrivateTargets (ih_env i)) (ft_SplitHost ft) (ft_ParseIP ft) (ft_net ft) u 0 w1 = (Inr answer, dialled, m, w2)" and
    r: "read_limited (max_file_size (ih_env i)) answer = Inr content" and
    s: "store_fetched i req b content w2 = (Json h (Response 201 True msg (Some (Uploaded n note nm k link))), w')"
    by (metis Inr_inject)
  have content: "content = take (nat (max_file_size (ih_env i))) (rd_data answer)"
    using r by (auto simp: read_limited_def split: if_splits option.splits)
  have "(hot w2, s3 w2) = (hot w1, s3 w1)" using fetch_quiet [where I = "\<lambda>w. (hot w, s3 w)", OF assms(2) f] .
  then have "hot w2 = hot w \<and> cold_of a s3 w2 = cold_of a s3 w"
    using image_service.ensure_frames [OF assms(1) e] by (simp add: cold_of_def fun_eq_iff)
  with image_service.store_fetched_stores [OF assms(1) s assms(5,6)] fetch_bounds [OF f] f content show ?thesis
    by (intro exI [of _ u] exI [of _ w1] exI [of _ answer] exI [of _ dialled] exI [of _ m] exI [of _ w2]) auto
qed

text \<open>The same services with a file limit of three bytes, and a site that sends five.\<close>

definition small_images :: "((nat \<times> nat), mem) image_handler" where
  "small_images = mem_images\<lparr>ih_env := (\<lambda>_. '''')(''MAX_FILE_SIZE'' := ''3'')\<rparr>"

definition site :: "mem fetcher" where
  "site =
     \<lparr> ft_SplitHost = Some, ft_ParseIP = (\<lambda>s. if s = ''public'' then Some [93, 184, 216, 34] else None),
       ft_net = \<lparr> net_Dial = (\<lambda>u w. (Some ''public'', w)), net_Answer = (\<lambda>u w. (Body (whole [104, 101, 108, 108, 111]), w)) \<rparr> \<rparr>"

definition site_request :: UploadUrlRequest where
  "site_request = \<lparr> uq_Path = '''', uq_Bucket = '''', uq_URL = ''http://x/a.txt'', uq_Optimize = False \<rparr>"

definition site_lib :: url_lib where
  "site_lib = \<lparr> ul_Parse = (\<lambda>s. Some trap_url), ul_EqualFold = (\<lambda>a b. a = b) \<rparr>"

lemma small_images_service: "image_service small_images mem_archive m_s3 m_hot"
  using mem_images.image_service_axioms
  by (simp add: small_images_def image_service_def image_service_axioms_def)

lemma site_fetch:
  "fetch False (ft_SplitHost site) (ft_ParseIP site) (ft_net site) u 0 w =
     (Inr (whole [104, 101, 108, 108, 111]), [''public''], 1, w)"
proof -
  have "dial_control False (ft_SplitHost site) (ft_ParseIP site) ''public'' = None" by code_simp
  moreover have "ft_net site = \<lparr> net_Dial = (\<lambda>u w. (Some ''public'', w)),
      net_Answer = (\<lambda>u w. (Body (whole [104, 101, 108, 108, 111]), w)) \<rparr>" by (simp add: site_def)
  ultimately show ?thesis by (subst fetch.simps) simp
qed

lemma site_upload:
  "case fst (UploadWithUrl small_images site_lib site (\<lambda>_. None) photos_request (Some site_request) tier_world) of
     Json h r \<Rightarrow> r = Response 201 True ''success''
       (Some (Uploaded 3 ArchiveUploaded ''u.txt'' ''u.txt'' ''http://localhost:9090/photos/u.txt''))
   | _ \<Rightarrow> False"
proof -
  have steps: "fst (resolveBucket photos_request (uq_Bucket site_request)) = Inr ''photos''"
    "ValidateUploadURL (ih_env small_images) (ul_Parse site_lib) (ft_ParseIP site) (uq_URL site_request) = None"
    "allowPrivateTargets (ih_env small_images) = False"
    "read_limited (max_file_size (ih_env small_images)) (whole [104, 101, 108, 108, 111]) = Inr [104, 101, 108]"
    by code_simp+
  have e: "ensure_bucket small_images ''photos'' tier_world = (None :: upload_data http_response option, tier_world)"
    by (simp add: ensure_bucket_def small_images_def mem_client_def tier_world_def)
  have st: "case fst (store_fetched small_images site_request ''photos'' [104, 101, 108] tier_world) of
     Json h r \<Rightarrow> r = Response 201 True ''success''
       (Some (Uploaded 3 ArchiveUploaded ''u.txt'' ''u.txt'' ''http://localhost:9090/photos/u.txt''))
   | _ \<Rightarrow> False"
    by code_simp
  have parse: "ul_Parse site_lib (uq_URL site_request) = Some trap_url" by (simp add: site_lib_def)
  have "''photos'' \<noteq> ''''" by simp
  then have eq: "UploadWithUrl small_images site_lib site (\<lambda>_. None) photos_request (Some site_request) tier_world =
      store_fetched small_images site_request ''photos'' [104, 101, 108] tier_world"
    by (simp only: UploadWithUrl_def steps e parse site_fetch option.case sum.case prod.case if_False)
  show ?thesis unfolding eq by (rule st)
qed

lemma url_upload_truncates_witness:
  "\<exists>h w'. UploadWithUrl small_images site_lib site (\<lambda>_. None) photos_request (Some site_request) tier_world =
      (Json h (Response 201 True ''success''
         (Some (Uploaded 3 ArchiveUploaded ''u.txt'' ''u.txt'' ''http://localhost:9090/photos/u.txt''))), w') \<and>
     (\<exists>c. m_hot w' ''photos'' ''u.txt'' = Some c \<and> length c \<le> 3 \<and>
        cold_of mem_archive m_s3 w' ''photos'' ''u.txt'' = Some c)"
proof -
  obtain r w' where u: "UploadWithUrl small_images site_lib site (\<lambda>_. None) photos_request (Some site_request) tier_world = (r, w')"
    by (metis surj_pair)
  with site_upload obtain h where r: "r = Json h (Response 201 True ''success''
      (Some (Uploaded 3 ArchiveUploaded ''u.txt'' ''u.txt'' ''http://localhost:9090/photos/u.txt'')))"
    by (cases r) auto
  have b: "fst (resolveBucket photos_request (uq_Bucket site_request)) = Inr ''photos''"
    and limit: "max_file_size (ih_env small_images) = 3"
    by code_simp+
  have quiet: "quiet_network (ft_net site) (\<lambda>w. (m_hot w, m_s3 w))" by (simp add: quiet_network_def site_def)
  have s: "slashless ''photos''" "\<not> uq_Optimize site_request" by (simp_all add: slashless_def site_request_def)
  obtain answer :: reader where t: "m_hot w' ''photos'' ''u.txt'' = Some (take (nat (max_file_size (ih_env small_images))) (rd_data answer))"
      "ArchiveUploaded = ArchiveUploaded \<longrightarrow> cold_of mem_archive m_s3 w' ''photos'' ''u.txt'' = m_hot w' ''photos'' ''u.txt''"
    using url_upload_truncates [OF small_images_service quiet u [unfolded r] b s] by (elim exE conjE) (rule that)
  have "length (take (nat (max_file_size (ih_env small_images))) (rd_data answer)) \<le> 3" unfolding limit by simp
  then show ?thesis using u [unfolded r] t(1) t(2) [THEN mp, OF refl] by (intro exI conjI) simp_all
qed

end
