(* ===== verification/Glacier.thy ===== *)
theory Glacier
  imports Image_Handler
begin

text \<open>
  The Glacier part of \<open>service/aws.go\<close> and the operator endpoints of \<open>handler/aws.go\<close>: retrieval jobs, the
  confinement of local download paths, and the asynchronous downloads with the status table they keep.
  The Glacier SDK and the file system are parameters.
\<close>

section \<open>The Glacier calls\<close>

record job_description =
  jd_JobId :: "string option"
  jd_JobDescription :: "string option"
  jd_Action :: string
  jd_StatusCode :: string
  jd_StatusMessage :: "string option"
  jd_Completed :: bool
  jd_CreationDate :: "string option"
  jd_CompletionDate :: "string option"
  jd_ArchiveSizeInBytes :: "int option"

record initiated =
  in_JobId :: "string option"
  in_Location :: "string option"

record job_parameters =
  jp_Type :: string
  jp_ArchiveId :: "string option"
  jp_Tier :: "string option"
  jp_Description :: string
  jp_Format :: "string option"

text \<open>Pointers that the code compares with nil, and bodies, are options.\<close>

record 'w glacier_sdk =
  gl_ListVaults :: "'w \<Rightarrow> string list option \<times> 'w"
  gl_UploadArchive :: "string \<Rightarrow> bytes \<Rightarrow> 'w \<Rightarrow> string result \<times> 'w"
  gl_InitiateJob :: "string \<Rightarrow> job_parameters \<Rightarrow> 'w \<Rightarrow> initiated option result \<times> 'w"
  gl_ListJobs :: "string \<Rightarrow> 'w \<Rightarrow> string list result \<times> 'w"
  gl_GetJobOutput :: "string \<Rightarrow> string \<Rightarrow> 'w \<Rightarrow> reader option option result \<times> 'w"
  gl_DescribeJob :: "string \<Rightarrow> string \<Rightarrow> 'w \<Rightarrow> job_description option result \<times> 'w"

record 'w filesystem =
  fs_MkdirAll :: "string \<Rightarrow> 'w \<Rightarrow> gerror option \<times> 'w"
  fs_Create :: "string \<Rightarrow> 'w \<Rightarrow> gerror option \<times> 'w"
  fs_Copy :: "string \<Rightarrow> reader \<Rightarrow> 'w \<Rightarrow> gerror option \<times> 'w"

definition GlacierVaultList :: "'w glacier_sdk \<Rightarrow> 'w \<Rightarrow> string list option \<times> 'w" where
  "GlacierVaultList gl w = gl_ListVaults gl w"

definition GlacierUploadArchive :: "'w glacier_sdk \<Rightarrow> string \<Rightarrow> bytes \<Rightarrow> 'w \<Rightarrow> string result \<times> 'w" where
  "GlacierUploadArchive gl vaultName fileBuffer w = gl_UploadArchive gl vaultName fileBuffer w"

definition GlacierInitiateRetrieval ::
  "'w glacier_sdk \<Rightarrow> string \<Rightarrow> string \<Rightarrow> string \<Rightarrow> 'w \<Rightarrow> initiated option result \<times> 'w" where
  "GlacierInitiateRetrieval gl vaultName archiveId retrievalType w =
     (let retrievalType = (if retrievalType = '''' then ''Standard'' else retrievalType) in
      gl_InitiateJob gl vaultName
        \<lparr> jp_Type = ''archive-retrieval'', jp_ArchiveId = Some archiveId, jp_Tier = Some retrievalType,
          jp_Description = ''Archive retrieval for '' @ archiveId, jp_Format = None \<rparr> w)"

definition GlacierListJobs :: "'w glacier_sdk \<Rightarrow> string \<Rightarrow> 'w \<Rightarrow> string list result \<times> 'w" where
  "GlacierListJobs gl vaultName w = gl_ListJobs gl vaultName w"

definition GlacierGetJobOutput :: "'w glacier_sdk \<Rightarrow> string \<Rightarrow> string \<Rightarrow> 'w \<Rightarrow> reader option option result \<times> 'w" where
  "GlacierGetJobOutput gl vaultName jobId w = gl_GetJobOutput gl vaultName jobId w"

definition GlacierDescribeJob :: "'w glacier_sdk \<Rightarrow> string \<Rightarrow> string \<Rightarrow> 'w \<Rightarrow> job_description option result \<times> 'w" where
  "GlacierDescribeJob gl vaultName jobId w = gl_DescribeJob gl vaultName jobId w"

definition GlacierInventoryRetrieval :: "'w glacier_sdk \<Rightarrow> string \<Rightarrow> 'w \<Rightarrow> initiated option result \<times> 'w" where
  "GlacierInventoryRetrieval gl vaultName w =
     gl_InitiateJob gl vaultName
       \<lparr> jp_Type = ''inventory-retrieval'', jp_ArchiveId = None, jp_Tier = None,
         jp_Description = ''Inventory retrieval for vault '' @ vaultName, jp_Format = Some ''JSON'' \<rparr> w"

text \<open>
  The SDK never reports success without a result and its body; the code relies on it, and would
  end the process with a nil dereference.  Here that is an error value of its own.
\<close>

definition nil_dereference :: gerror where
  "nil_dereference = RuntimePanic ''invalid memory address or nil pointer dereference''"

text \<open>Despite its name the first one uploads to S3: both clients are made from the AWS configuration.\<close>

definition GlacierDownloadToMinio ::
  "'w glacier_sdk \<Rightarrow> 'w s3_sdk \<Rightarrow> string \<Rightarrow> string \<Rightarrow> string \<Rightarrow> string \<Rightarrow> 'w \<Rightarrow> gerror option \<times> 'w" where
  "GlacierDownloadToMinio gl aws vaultName jobId targetBucket targetPath w =
     (case gl_GetJobOutput gl vaultName jobId w of
        (Inl err, w) \<Rightarrow> (Some (Wrapf ''failed to get job output'' err), w)
      | (Inr (Some (Some body)), w) \<Rightarrow> sdk_Upload aws targetBucket targetPath body w
      | (Inr _, w) \<Rightarrow> (Some nil_dereference, w))"

definition GlacierDownloadToLocal ::
  "'w glacier_sdk \<Rightarrow> 'w filesystem \<Rightarrow> string \<Rightarrow> string \<Rightarrow> string \<Rightarrow> 'w \<Rightarrow> gerror option \<times> 'w" where
  "GlacierDownloadToLocal gl fs vaultName jobId localPath w =
     (case gl_GetJobOutput gl vaultName jobId w of
        (Inl err, w) \<Rightarrow> (Some (Wrapf ''failed to get job output'' err), w)
      | (Inr (Some (Some body)), w) \<Rightarrow>
          (case fs_Create fs localPath w of
             (Some err, w) \<Rightarrow> (Some (Wrapf ''failed to create local file'' err), w)
           | (None, w) \<Rightarrow>
               (case fs_Copy fs localPath body w of
                  (Some err, w) \<Rightarrow> (Some (Wrapf ''failed to write to local file'' err), w)
                | (None, w) \<Rightarrow> (None, w)))
      | (Inr _, w) \<Rightarrow> (Some nil_dereference, w))"

section \<open>Local paths\<close>

text \<open>
  \<open>filepath.Clean\<close> of a rooted path: empty and \<open>.\<close> elements go, \<open>..\<close> takes the element before it along,
  and at the root it is dropped.  \<open>before\<close> holds the elements so far, the last one first.
\<close>

fun clean_elements :: "string list \<Rightarrow> string list \<Rightarrow> string list" where
  "clean_elements before [] = rev before"
| "clean_elements before (e # es) =
     (if e = '''' \<or> e = ''.'' then clean_elements before es
      else if e = ''..'' then clean_elements (tl before) es
      else clean_elements (e # before) es)"

fun joined :: "string list \<Rightarrow> string" where
  "joined [] = []"
| "joined (e # es) = CHR ''/'' # e @ joined es"

definition rooted :: "string list \<Rightarrow> string" where
  "rooted es = (if es = [] then ''/'' else joined es)"

definition Clean :: "string \<Rightarrow> string" where
  "Clean path = rooted (clean_elements [] (split_on (CHR ''/'') path))"

definition glacierDownloadBase :: string where
  "glacierDownloadBase = ''/tmp/glacier_downloads''"

text \<open>\<open>filepath.Join(base, p)\<close> of a rooted base is \<open>Clean (base @ ''/'' @ p)\<close>.\<close>

definition resolveLocalDownloadPath :: "string \<Rightarrow> string \<Rightarrow> string option" where
  "resolveLocalDownloadPath base target =
     (if target = '''' \<or> HasPrefix target ''/'' then None
      else
        (let p = Clean (base @ ''/'' @ Clean (''/'' @ target)) in
         if p \<noteq> base \<and> \<not> HasPrefix p (base @ ''/'') then None else Some p))"

section \<open>The table of downloads\<close>

record DownloadJob =
  dj_ID :: string
  dj_VaultName :: string
  dj_JobID :: string
  dj_TargetBucket :: string
  dj_TargetPath :: string
  dj_Status :: string
  dj_Error :: string
  dj_StartTime :: int
  dj_EndTime :: "int option"
  dj_DownloadType :: string

type_synonym download_table = "string \<rightharpoonup> DownloadJob"

definition prune :: "int \<Rightarrow> download_table \<Rightarrow> download_table" where
  "prune cutoff jobs =
     (\<lambda>k. case jobs k of
        None \<Rightarrow> None
      | Some j \<Rightarrow> (case dj_EndTime j of
                     None \<Rightarrow> Some j
                   | Some endTime \<Rightarrow> if endTime < cutoff then None else Some j))"

text \<open>
  The task holds a pointer to its job and writes through it; with ids never issued twice that is an
  update of the entry, as long as the entry is in the table.
\<close>

definition update_job :: "string \<Rightarrow> (DownloadJob \<Rightarrow> DownloadJob) \<Rightarrow> download_table \<Rightarrow> download_table" where
  "update_job ident f jobs = jobs(ident := map_option f (jobs ident))"

definition start_attempt :: "DownloadJob \<Rightarrow> DownloadJob" where
  "start_attempt j = j\<lparr>dj_Status := ''processing''\<rparr>"

definition end_attempt :: "(gerror \<Rightarrow> string) \<Rightarrow> int \<Rightarrow> gerror option \<Rightarrow> DownloadJob \<Rightarrow> DownloadJob" where
  "end_attempt text now err j =
     (case err of
        Some e \<Rightarrow> j\<lparr>dj_EndTime := Some now, dj_Status := ''failed'', dj_Error := text e\<rparr>
      | None \<Rightarrow> j\<lparr>dj_EndTime := Some now, dj_Status := ''completed''\<rparr>)"

section \<open>A local path stays below its base\<close>

definition plain_element :: "string \<Rightarrow> bool" where
  "plain_element e \<longleftrightarrow> e \<notin> {'''', ''.'', ''..''} \<and> CHR ''/'' \<notin> set e"

lemma clean_elements_plain:
  "list_all plain_element before \<Longrightarrow> \<forall>e\<in>set es. CHR ''/'' \<notin> set e \<Longrightarrow> list_all plain_element (clean_elements before es)"
proof (induction before es rule: clean_elements.induct)
  case (2 before e es)
  then show ?case by (cases before) (auto simp: plain_element_def)
qed (simp add: list_all_iff)

lemma clean_elements_append:
  "list_all plain_element es \<Longrightarrow> clean_elements before (es @ fs) = clean_elements (rev es @ before) fs"
  by (induction es arbitrary: before) (auto simp: plain_element_def)

lemma clean_elements_plain_id: "list_all plain_element es \<Longrightarrow> clean_elements before es = rev before @ es"
  using clean_elements_append [of es before "[]"] by simp

lemma joined_append [simp]: "joined (es @ fs) = joined es @ joined fs"
  by (induction es) auto

lemma split_slashes: "list_all plain_element es \<Longrightarrow> split_on (CHR ''/'') (joined es) = '''' # es"
proof (induction es rule: rev_induct)
  case (snoc e es)
  then show ?case by (simp add: split_on_join plain_element_def split_on_single)
qed simp

lemma Clean_under:
  assumes "list_all plain_element bs" and "bs \<noteq> []"
  shows "Clean (rooted bs @ ''/'' @ Clean (''/'' @ target)) =
    rooted bs @ joined (clean_elements [] (split_on (CHR ''/'') target))"
proof -
  define es where "es = clean_elements [] (split_on (CHR ''/'') target)"
  have es: "list_all plain_element es" unfolding es_def by (rule clean_elements_plain) (auto dest: split_on_no_sep)
  have "split_on (CHR ''/'') (''/'' @ target) = '''' # split_on (CHR ''/'') target" by simp
  then have c: "Clean (''/'' @ target) = rooted es" by (simp add: Clean_def es_def)
  have split: "split_on (CHR ''/'') (rooted bs @ ''/'' @ rooted es) = '''' # bs @ split_on (CHR ''/'') (rooted es)"
    using split_slashes [OF assms(1)] assms(2) by (simp add: split_on_join rooted_def)
  have "clean_elements (rev bs) (split_on (CHR ''/'') (rooted es)) = bs @ es"
    using split_slashes [OF es] clean_elements_plain_id [OF es, of "rev bs"] by (cases "es = []") (auto simp: rooted_def)
  then have "clean_elements [] (split_on (CHR ''/'') (rooted bs @ ''/'' @ rooted es)) = bs @ es"
    unfolding split using clean_elements_append [OF assms(1)] by simp
  then show ?thesis using assms(2) unfolding c Clean_def by (simp add: rooted_def es_def [symmetric])
qed

lemma base_rooted: "glacierDownloadBase = rooted [''tmp'', ''glacier_downloads'']" "list_all plain_element [''tmp'', ''glacier_downloads'']"
  by (simp_all add: glacierDownloadBase_def rooted_def plain_element_def)

text \<open>
  Property C21.  A download target cannot leave its directory.  Every relative, non-empty target is
  accepted, whatever \<open>..\<close> it holds, and is mapped to the base directory followed by plain path
  elements: no empty one, no \<open>.\<close>, no \<open>..\<close> and no slash inside one; a target made of plain elements is kept as it is.
\<close>

lemma download_path_confined:
  "resolveLocalDownloadPath glacierDownloadBase target =
     (if target = '''' \<or> HasPrefix target ''/'' then None
      else Some (glacierDownloadBase @ joined (clean_elements [] (split_on (CHR ''/'') target)))) \<and>
   list_all plain_element (clean_elements [] (split_on (CHR ''/'') target)) \<and>
   (list_all plain_element (split_on (CHR ''/'') target) \<longrightarrow>
      clean_elements [] (split_on (CHR ''/'') target) = split_on (CHR ''/'') target)"
proof -
  let ?es = "clean_elements [] (split_on (CHR ''/'') target)"
  have "HasPrefix (glacierDownloadBase @ joined ?es) (glacierDownloadBase @ ''/'') \<or> ?es = []"
    by (cases ?es) (auto simp: HasPrefix_iff)
  then have "resolveLocalDownloadPath glacierDownloadBase target =
    (if target = '''' \<or> HasPrefix target ''/'' then None else Some (glacierDownloadBase @ joined ?es))"
    using Clean_under [OF base_rooted(2), of target] by (auto simp: resolveLocalDownloadPath_def base_rooted(1) [symmetric])
  moreover have "list_all plain_element ?es" by (rule clean_elements_plain) (auto dest: split_on_no_sep)
  ultimately show ?thesis using clean_elements_plain_id [of "split_on (CHR ''/'') target" "[]"] by simp
qed

lemma download_path_confined_witness:
  "resolveLocalDownloadPath glacierDownloadBase ''../a/../../app//.env'' = Some ''/tmp/glacier_downloads/app/.env'' \<and>
   list_all plain_element [''app'', ''.env''] \<and>
   clean_elements [] (split_on (CHR ''/'') ''app/.env'') = split_on (CHR ''/'') ''app/.env''"
proof -
  have "clean_elements [] (split_on (CHR ''/'') ''../a/../../app//.env'') = [''app'', ''.env'']"
    "glacierDownloadBase @ joined [''app'', ''.env''] = ''/tmp/glacier_downloads/app/.env''"
    "HasPrefix ''../a/../../app//.env'' ''/'' = False" "list_all plain_element (split_on (CHR ''/'') ''app/.env'')"
    by code_simp+
  then show ?thesis
    using download_path_confined [of "''../a/../../app//.env''"] download_path_confined [of "''app/.env''"] by simp
qed

section \<open>The endpoints\<close>

text \<open>What the handler reaches: the clients, the file system, the text of an error, the clock and \<open>uuid.New\<close>.\<close>

record 'w aws_handler =
  ah_gl :: "'w glacier_sdk"
  ah_aws :: "'w s3_sdk"
  ah_fs :: "'w filesystem"
  ah_text :: "gerror \<Rightarrow> string"
  ah_now :: "'w \<Rightarrow> int"
  ah_uuid :: "'w \<Rightarrow> string \<times> 'w"

datatype aws_data =
    BucketNames "string list"
  | Vaults "string list option"
  | RetrievalStarted string string string string
  | JobNames "string list"
  | NotCompleted string string
  | JobReport string "string option" string string string bool string "string option" "int option"
  | DownloadQueued string string
  | DownloadStatus DownloadJob

text \<open>\<open>aws.ToString\<close>: a nil pointer reads as the empty string.\<close>

definition ToString :: "string option \<Rightarrow> string" where
  "ToString p = (case p of None \<Rightarrow> '''' | Some s \<Rightarrow> s)"

definition getEstimatedTime :: "string \<Rightarrow> string" where
  "getEstimatedTime retrievalType =
     (if retrievalType = ''Expedited'' then ''1-5 minutes''
      else if retrievalType = ''Standard'' then ''3-5 hours''
      else if retrievalType = ''Bulk'' then ''5-12 hours''
      else ''3-5 hours'')"

abbreviation json :: "nat \<Rightarrow> bool \<Rightarrow> string \<Rightarrow> 'd option \<Rightarrow> 'd reply" where
  "json code success message data \<equiv> Json Map.empty (Response code success message data)"

definition BucketExists_endpoint :: "'w aws_handler \<Rightarrow> string \<Rightarrow> 'w \<Rightarrow> aws_data reply \<times> 'w" where
  "BucketExists_endpoint h bucketName w =
     (case AwsBucketExists (ah_aws h) bucketName w of
        (False, w) \<Rightarrow> (json 404 False ''bucket not found'' None, w)
      | (True, w) \<Rightarrow> (json 200 True ''bucket exists'' None, w))"

definition BucketList_endpoint :: "'w aws_handler \<Rightarrow> 'w \<Rightarrow> aws_data reply \<times> 'w" where
  "BucketList_endpoint h w =
     (case AwsListBuckets (ah_aws h) w of
        ((buckets, Some err), w) \<Rightarrow> (json 200 False (ah_text h err) (Some (BucketNames buckets)), w)
      | ((buckets, None), w) \<Rightarrow> (json 200 True ''buckets listed'' (Some (BucketNames buckets)), w))"

definition VaultList_endpoint :: "'w aws_handler \<Rightarrow> 'w \<Rightarrow> aws_data reply \<times> 'w" where
  "VaultList_endpoint h w =
     (case GlacierVaultList (ah_gl h) w of (vaults, w) \<Rightarrow> (json 200 True ''glacier vault list'' (Some (Vaults vaults)), w))"

definition InitiateRetrieval_endpoint ::
  "'w aws_handler \<Rightarrow> string \<Rightarrow> string \<Rightarrow> string \<Rightarrow> 'w \<Rightarrow> aws_data reply \<times> 'w" where
  "InitiateRetrieval_endpoint h vaultName archiveId typeParam w =
     (let retrievalType = (if typeParam = '''' then ''Standard'' else typeParam) in
      if vaultName = '''' \<or> archiveId = '''' then (json 400 False ''vault name and archive ID are required'' None, w)
      else
        (case GlacierInitiateRetrieval (ah_gl h) vaultName archiveId retrievalType w of
           (Inl err, w) \<Rightarrow> (json 500 False (ah_text h err) None, w)
         | (Inr None, w) \<Rightarrow> (json 500 False ''empty retrieval result'' None, w)
         | (Inr (Some result), w) \<Rightarrow>
             (json 200 True ''retrieval job initiated''
                (Some (RetrievalStarted (ToString (in_JobId result)) (ToString (in_Location result)) retrievalType
                         (getEstimatedTime retrievalType))), w)))"

definition ListJobs_endpoint :: "'w aws_handler \<Rightarrow> string \<Rightarrow> 'w \<Rightarrow> aws_data reply \<times> 'w" where
  "ListJobs_endpoint h vaultName w =
     (if vaultName = '''' then (json 400 False ''vault name is required'' None, w)
      else
        (case GlacierListJobs (ah_gl h) vaultName w of
           (Inl err, w) \<Rightarrow> (json 500 False (ah_text h err) None, w)
         | (Inr jobs, w) \<Rightarrow> (json 200 True ''jobs listed'' (Some (JobNames jobs)), w)))"

text \<open>When the copy to the client breaks, the JSON error replaces the body; the two headers stay.\<close>

definition DownloadArchive_endpoint :: "'w aws_handler \<Rightarrow> string \<Rightarrow> string \<Rightarrow> 'w \<Rightarrow> aws_data reply \<times> 'w" where
  "DownloadArchive_endpoint h vaultName jobId w =
     (if vaultName = '''' \<or> jobId = '''' then (json 400 False ''vault name and job ID are required'' None, w)
      else
        (case GlacierDescribeJob (ah_gl h) vaultName jobId w of
           (Inl err, w) \<Rightarrow> (json 500 False (ah_text h err) None, w)
         | (Inr None, w) \<Rightarrow> (json 500 False ''empty job status'' None, w)
         | (Inr (Some jobStatus), w) \<Rightarrow>
             (if \<not> jd_Completed jobStatus
              then (json 202 False ''job not completed yet''
                      (Some (NotCompleted (jd_StatusCode jobStatus) (ToString (jd_StatusMessage jobStatus)))), w)
              else
                (case GlacierGetJobOutput (ah_gl h) vaultName jobId w of
                   (Inl err, w) \<Rightarrow> (json 500 False (ah_text h err) None, w)
                 | (Inr (Some (Some body)), w) \<Rightarrow>
                     (let hd = [''Content-Type'' \<mapsto> ''application/octet-stream'',
                                ''Content-Disposition'' \<mapsto> ''attachment; filename=archive_'' @ jobId]
                      in (case rd_fail body of
                            Some err \<Rightarrow> (Json hd (Response 500 False ''failed to stream file'' None), w)
                          | None \<Rightarrow> (Send hd (rd_data body), w)))
                 | (Inr _, w) \<Rightarrow> (json 500 False ''empty job output'' None, w)))))"

definition JobStatus_endpoint :: "'w aws_handler \<Rightarrow> string \<Rightarrow> string \<Rightarrow> 'w \<Rightarrow> aws_data reply \<times> 'w" where
  "JobStatus_endpoint h vaultName jobId w =
     (if vaultName = '''' \<or> jobId = '''' then (json 400 False ''vault name and job ID are required'' None, w)
      else
        (case GlacierDescribeJob (ah_gl h) vaultName jobId w of
           (Inl err, w) \<Rightarrow> (json 500 False (ah_text h err) None, w)
         | (Inr None, w) \<Rightarrow> (json 500 False ''empty job status'' None, w)
         | (Inr (Some r), w) \<Rightarrow>
             (json 200 True ''job status''
                (Some (JobReport (ToString (jd_JobId r)) (jd_JobDescription r) (jd_Action r) (jd_StatusCode r)
                         (ToString (jd_StatusMessage r)) (jd_Completed r) (ToString (jd_CreationDate r))
                         (jd_CompletionDate r) (jd_ArchiveSizeInBytes r))), w)))"

definition InventoryRetrieval_endpoint :: "'w aws_handler \<Rightarrow> string \<Rightarrow> 'w \<Rightarrow> aws_data reply \<times> 'w" where
  "InventoryRetrieval_endpoint h vaultName w =
     (if vaultName = '''' then (json 400 False ''vault name is required'' None, w)
      else
        (case GlacierInventoryRetrieval (ah_gl h) vaultName w of
           (Inl err, w) \<Rightarrow> (json 500 False (ah_text h err) None, w)
         | (Inr None, w) \<Rightarrow> (json 500 False ''empty inventory result'' None, w)
         | (Inr (Some result), w) \<Rightarrow>
             (json 200 True ''inventory retrieval job initiated''
                (Some (RetrievalStarted (ToString (in_JobId result)) (ToString (in_Location result)) ''inventory'' ''3-5 hours'')), w)))"

section \<open>Asynchronous downloads\<close>

record download_request =
  dq_TargetBucket :: string
  dq_TargetPath :: string
  dq_Type :: string

text \<open>\<open>filepath.Dir\<close> of a rooted path.\<close>

definition Dir :: "string \<Rightarrow> string" where
  "Dir path = Clean (rev (dropWhile (\<lambda>c. c \<noteq> CHR ''/'') (rev path)))"

definition run_download ::
  "'w aws_handler \<Rightarrow> string \<Rightarrow> string \<Rightarrow> download_request \<Rightarrow> string \<Rightarrow> 'w \<Rightarrow> gerror option \<times> 'w" where
  "run_download h vaultName jobId req localPath w =
     (if dq_Type req = ''minio''
      then GlacierDownloadToMinio (ah_gl h) (ah_aws h) vaultName jobId (dq_TargetBucket req) (dq_TargetPath req) w
      else
        (case fs_MkdirAll (ah_fs h) (Dir localPath) w of
           (Some mkErr, w) \<Rightarrow> (Some mkErr, w)
         | (None, w) \<Rightarrow> GlacierDownloadToLocal (ah_gl h) (ah_fs h) vaultName jobId localPath w))"

text \<open>One attempt: the world of the task is the outside world and the table of downloads.\<close>

definition download_task ::
  "'w aws_handler \<Rightarrow> string \<Rightarrow> string \<Rightarrow> string \<Rightarrow> download_request \<Rightarrow> string \<Rightarrow> ('w \<times> download_table) task" where
  "download_task h ident vaultName jobId req localPath =
     (\<lambda>(w, jobs).
        (case run_download h vaultName jobId req localPath w of
           (err, w) \<Rightarrow>
             (err, (w, update_job ident (end_attempt (ah_text h) (ah_now h w) err) (update_job ident start_attempt jobs)))))"

definition hour :: int where
  "hour = 3600 * 1000000000"

definition new_download :: "string \<Rightarrow> string \<Rightarrow> string \<Rightarrow> download_request \<Rightarrow> int \<Rightarrow> DownloadJob" where
  "new_download ident vaultName jobId req now =
     \<lparr> dj_ID = ident, dj_VaultName = vaultName, dj_JobID = jobId, dj_TargetBucket = dq_TargetBucket req,
       dj_TargetPath = dq_TargetPath req, dj_Status = ''pending'', dj_Error = '''', dj_StartTime = now,
       dj_EndTime = None, dj_DownloadType = dq_Type req \<rparr>"

definition register :: "int \<Rightarrow> string \<Rightarrow> DownloadJob \<Rightarrow> download_table \<Rightarrow> download_table" where
  "register now ident j jobs = (prune (now - hour) jobs)(ident \<mapsto> j)"

text \<open>\<open>NewAwsHandler\<close> sets the number of workers itself.\<close>

definition aws_pool :: "env \<Rightarrow> 'w \<Rightarrow> ('w \<times> download_table) pool option" where
  "aws_pool env w =
     (let workerConfig = (DefaultPoolConfig env)\<lparr>pc_Workers := 3\<rparr>
      in map_option (StartPool workerConfig) (NewPool workerConfig (w, Map.empty)))"

text \<open>The checks in front of a download: a refusal, or the local path (empty for \<open>minio\<close>).\<close>

definition check_download :: "string \<Rightarrow> string \<Rightarrow> download_request option \<Rightarrow> string + download_request \<times> string" where
  "check_download vaultName jobId body =
     (case body of
        None \<Rightarrow> Inl ''invalid request body''
      | Some req \<Rightarrow>
          (if vaultName = '''' \<or> jobId = '''' \<or> dq_TargetPath req = ''''
           then Inl ''vault name, job ID, and target path are required''
           else if dq_Type req \<noteq> ''minio'' \<and> dq_Type req \<noteq> ''local'' then Inl (''type must be 'minio' or 'local'' @ [CHR 0x27])
           else if dq_Type req = ''minio'' \<and> dq_TargetBucket req = ''''
           then Inl ''target bucket is required for MinIO downloads''
           else if dq_Type req = ''local''
           then (case resolveLocalDownloadPath glacierDownloadBase (dq_TargetPath req) of
                   None \<Rightarrow> Inl ''invalid target path''
                 | Some resolved \<Rightarrow> Inr (req, resolved))
           else Inr (req, '''')))"

definition InitiateAsyncDownload_endpoint ::
  "'w aws_handler \<Rightarrow> string \<Rightarrow> string \<Rightarrow> download_request option \<Rightarrow> ('w \<times> download_table) pool
     \<Rightarrow> aws_data reply \<times> ('w \<times> download_table) pool" where
  "InitiateAsyncDownload_endpoint h vaultName jobId body p =
     (case check_download vaultName jobId body of
        Inl message \<Rightarrow> (json 400 False message None, p)
      | Inr (req, localPath) \<Rightarrow>
          (case pl_world p of
             (w, jobs) \<Rightarrow>
               (case GlacierDescribeJob (ah_gl h) vaultName jobId w of
                  (Inl err, w) \<Rightarrow> (json 500 False (ah_text h err) None, p\<lparr>pl_world := (w, jobs)\<rparr>)
                | (Inr None, w) \<Rightarrow> (json 500 False ''empty job status'' None, p\<lparr>pl_world := (w, jobs)\<rparr>)
                | (Inr (Some jobStatus), w) \<Rightarrow>
                    (if \<not> jd_Completed jobStatus
                     then (json 400 False ''glacier retrieval job not completed yet''
                             (Some (NotCompleted (jd_StatusCode jobStatus) '''')), p\<lparr>pl_world := (w, jobs)\<rparr>)
                     else
                       (case ah_uuid h w of
                          (ident, w) \<Rightarrow>
                            (let downloadJob = new_download ident vaultName jobId req (ah_now h w);
                                 p = p\<lparr>pl_world := (w, register (ah_now h w) ident downloadJob jobs)\<rparr>;
                                 workerJob = \<lparr> jb_ID = ident, jb_Task = download_task h ident vaultName jobId req localPath \<rparr>
                             in case Submit workerJob p of
                                  (Some err, p) \<Rightarrow> (json 503 False ''download queue is full'' None, p)
                                | (None, p) \<Rightarrow>
                                    (json 202 True ''async download job started'' (Some (DownloadQueued ident ''pending'')), p)))))))"

definition CheckDownloadStatus_endpoint :: "string \<Rightarrow> ('w \<times> download_table) pool \<Rightarrow> aws_data reply" where
  "CheckDownloadStatus_endpoint ident p =
     (if ident = '''' then json 400 False ''download job ID is required'' None
      else (case snd (pl_world p) ident of
              None \<Rightarrow> json 404 False ''download job not found'' None
            | Some snapshot \<Rightarrow> json 200 True ''download job status'' (Some (DownloadStatus snapshot))))"

section \<open>The life of a download\<close>

text \<open>
  Every issued download has a phase: refused by the pool, queued, running or about to run its n-th
  retry, or done.  The steps are the critical sections of the handler and of the task, in any order
  of the downloads; \<open>register\<close> prunes the table each time.
\<close>

datatype download_phase = Refused | Queued | Running nat | Retrying nat | Done

record downloads =
  dn_table :: download_table
  dn_phase :: "string \<rightharpoonup> download_phase"

inductive download_step :: "(gerror \<Rightarrow> string) \<Rightarrow> int \<Rightarrow> downloads \<Rightarrow> downloads \<Rightarrow> bool" for say maxRetries where
  accept: "dn_phase d ident = None \<Longrightarrow>
    download_step say maxRetries d
      \<lparr> dn_table = register now ident (new_download ident vault job req now) (dn_table d),
        dn_phase = (dn_phase d)(ident \<mapsto> Queued) \<rparr>"
| refuse: "dn_phase d ident = None \<Longrightarrow>
    download_step say maxRetries d
      \<lparr> dn_table = register now ident (new_download ident vault job req now) (dn_table d),
        dn_phase = (dn_phase d)(ident \<mapsto> Refused) \<rparr>"
| attempt: "dn_phase d ident = Some ph \<Longrightarrow> (ph, n) \<in> {(Queued, 0)} \<union> {(Retrying (Suc m), Suc m) | m. True} \<Longrightarrow> int n \<le> maxRetries \<Longrightarrow>
    download_step say maxRetries d
      \<lparr> dn_table = update_job ident start_attempt (dn_table d), dn_phase = (dn_phase d)(ident \<mapsto> Running n) \<rparr>"
| settle: "dn_phase d ident = Some (Running n) \<Longrightarrow>
    download_step say maxRetries d
      \<lparr> dn_table = update_job ident (end_attempt say now err) (dn_table d),
        dn_phase = (dn_phase d)(ident \<mapsto> (if err = None \<or> maxRetries \<le> int n then Done else Retrying (Suc n))) \<rparr>"

text \<open>What a status says about the phase.\<close>

fun phase_status :: "download_phase \<Rightarrow> DownloadJob \<Rightarrow> bool" where
  "phase_status Refused j \<longleftrightarrow> dj_Status j = ''pending'' \<and> dj_EndTime j = None"
| "phase_status Queued j \<longleftrightarrow> dj_Status j = ''pending'' \<and> dj_EndTime j = None"
| "phase_status (Running n) j \<longleftrightarrow> dj_Status j = ''processing'' \<and> (dj_EndTime j = None \<longleftrightarrow> n = 0)"
| "phase_status (Retrying n) j \<longleftrightarrow> 0 < n \<and> dj_Status j = ''failed'' \<and> dj_EndTime j \<noteq> None"
| "phase_status Done j \<longleftrightarrow> dj_Status j \<in> {''completed'', ''failed''} \<and> dj_EndTime j \<noteq> None"

fun unfinished :: "download_phase \<Rightarrow> bool" where
  "unfinished Refused \<longleftrightarrow> True"
| "unfinished Queued \<longleftrightarrow> True"
| "unfinished (Running n) \<longleftrightarrow> n = 0"
| "unfinished (Retrying n) \<longleftrightarrow> False"
| "unfinished Done \<longleftrightarrow> False"

definition downloads_inv :: "downloads \<Rightarrow> bool" where
  "downloads_inv d \<longleftrightarrow>
     (\<forall>ident j. dn_table d ident = Some j \<longrightarrow> (\<exists>ph. dn_phase d ident = Some ph \<and> phase_status ph j)) \<and>
     (\<forall>ident ph. dn_phase d ident = Some ph \<longrightarrow> unfinished ph \<longrightarrow> dn_table d ident \<noteq> None)"

definition no_downloads :: downloads where
  "no_downloads = \<lparr> dn_table = Map.empty, dn_phase = Map.empty \<rparr>"

lemma register_Some:
  "register now ident j jobs k = Some x \<Longrightarrow> k = ident \<and> x = j \<or> k \<noteq> ident \<and> jobs k = Some x"
  by (auto simp: register_def prune_def split: if_splits option.splits)

lemma register_keeps:
  "jobs k = Some x \<Longrightarrow> dj_EndTime x = None \<Longrightarrow> k \<noteq> ident \<Longrightarrow> register now ident j jobs k = Some x"
  by (simp add: register_def prune_def)

lemma register_same [simp]: "register now ident j jobs ident = Some j"
  by (simp add: register_def)

lemma unfinished_open: "unfinished ph \<Longrightarrow> phase_status ph j \<Longrightarrow> dj_EndTime j = None"
  by (cases ph) auto

lemma downloads_inv_status:
  "downloads_inv d \<Longrightarrow> dn_table d k = Some j \<Longrightarrow> dn_phase d k = Some ph \<Longrightarrow> phase_status ph j"
  unfolding downloads_inv_def by fastforce

lemma downloads_inv_issued: "downloads_inv d \<Longrightarrow> dn_table d k = Some j \<Longrightarrow> \<exists>ph. dn_phase d k = Some ph \<and> phase_status ph j"
  unfolding downloads_inv_def by blast

lemma downloads_inv_visible: "downloads_inv d \<Longrightarrow> dn_phase d k = Some ph \<Longrightarrow> unfinished ph \<Longrightarrow> \<exists>j. dn_table d k = Some j"
  unfolding downloads_inv_def by blast

lemma downloads_inv_register:
  assumes "downloads_inv d" and "dn_phase d ident = None" and "phase_status ph (new_download ident v jb req now)" and "unfinished ph"
  shows "downloads_inv \<lparr> dn_table = register now ident (new_download ident v jb req now) (dn_table d),
    dn_phase = (dn_phase d)(ident \<mapsto> ph) \<rparr>"
  unfolding downloads_inv_def
proof (intro conjI allI impI; simp only: downloads.simps)
  fix k j assume "register now ident (new_download ident v jb req now) (dn_table d) k = Some j"
  then show "\<exists>p. ((dn_phase d)(ident \<mapsto> ph)) k = Some p \<and> phase_status p j"
    using assms(1,3) by (auto dest!: register_Some simp: downloads_inv_def)
next
  fix k p assume k: "((dn_phase d)(ident \<mapsto> ph)) k = Some p" "unfinished p"
  show "register now ident (new_download ident v jb req now) (dn_table d) k \<noteq> None"
  proof (cases "k = ident")
    case False
    then have p: "dn_phase d k = Some p" using k(1) by simp
    obtain j where j: "dn_table d k = Some j" using downloads_inv_visible [OF assms(1) p k(2)] by blast
    show ?thesis using register_keeps [of "dn_table d" k j ident] j unfinished_open [OF k(2) downloads_inv_status [OF assms(1) j p]] False
      by simp
  qed simp
qed

lemma downloads_inv_update:
  assumes "downloads_inv d" and "dn_phase d ident = Some ph"
    and "\<And>j. phase_status ph j \<Longrightarrow> phase_status ph' (f j)" and "unfinished ph' \<longrightarrow> unfinished ph"
  shows "downloads_inv \<lparr> dn_table = update_job ident f (dn_table d), dn_phase = (dn_phase d)(ident \<mapsto> ph') \<rparr>"
  unfolding downloads_inv_def
proof (intro conjI allI impI; simp only: downloads.simps)
  fix k j assume "update_job ident f (dn_table d) k = Some j"
  then show "\<exists>p. ((dn_phase d)(ident \<mapsto> ph')) k = Some p \<and> phase_status p j"
    using downloads_inv_issued [OF assms(1)] downloads_inv_status [OF assms(1) _ assms(2)] assms(3)
    by (auto simp: update_job_def split: if_splits)
next
  fix k p assume "((dn_phase d)(ident \<mapsto> ph')) k = Some p" "unfinished p"
  then show "update_job ident f (dn_table d) k \<noteq> None"
    using downloads_inv_visible [OF assms(1)] assms(2,4) by (auto simp: update_job_def split: if_splits)
qed

lemma download_step_inv: "download_step say maxRetries d d' \<Longrightarrow> downloads_inv d \<Longrightarrow> downloads_inv d'"
proof (induction rule: download_step.induct)
  case (accept d ident now vault job req)
  then show ?case by (intro downloads_inv_register) (simp_all add: new_download_def)
next
  case (refuse d ident now vault job req)
  then show ?case by (intro downloads_inv_register) (simp_all add: new_download_def)
next
  case (attempt d ident ph n)
  show ?case
    by (rule downloads_inv_update [OF attempt.prems attempt.hyps(1)]) (use attempt.hyps(2) in \<open>auto simp: start_attempt_def\<close>)
next
  case (settle d ident n now err)
  show ?case
    by (rule downloads_inv_update [OF settle.prems settle.hyps]) (auto simp: end_attempt_def split: option.splits)
qed

lemma downloads_reach_inv: "(download_step say maxRetries)\<^sup>*\<^sup>* no_downloads d \<Longrightarrow> downloads_inv d"
proof (induction rule: rtranclp_induct)
  case base
  show ?case by (simp add: downloads_inv_def no_downloads_def)
next
  case (step d d')
  then show ?case using download_step_inv by blast
qed

text \<open>A refused download is left alone by every step.\<close>

lemma refused_step:
  assumes "download_step say maxRetries d d'" and "downloads_inv d" and "dn_phase d k = Some Refused"
  shows "dn_table d' k = dn_table d k \<and> dn_phase d' k = Some Refused"
proof -
  obtain j where j: "dn_table d k = Some j" using downloads_inv_visible [OF assms(2,3)] by auto
  have e: "dj_EndTime j = None" using downloads_inv_status [OF assms(2) j assms(3)] by simp
  show ?thesis
    using assms(1)
  proof cases
    case (accept ident now v job req)
    then show ?thesis using assms(3) register_keeps [of "dn_table d" k j ident] j e by auto
  next
    case (refuse ident now v job req)
    then show ?thesis using assms(3) register_keeps [of "dn_table d" k j ident] j e by auto
  next
    case (attempt ident ph n)
    then show ?thesis using assms(3) by (auto simp: update_job_def)
  next
    case (settle ident n now err)
    then show ?thesis using assms(3) by (auto simp: update_job_def)
  qed
qed

lemma refused_steps:
  assumes "(download_step say maxRetries)\<^sup>*\<^sup>* d d'" and "downloads_inv d" and "dn_phase d k = Some Refused"
  shows "dn_table d' k = dn_table d k \<and> dn_phase d' k = Some Refused \<and> downloads_inv d'"
  using assms(1)
proof induction
  case base
  show ?case using assms(2,3) by simp
next
  case (step d' d'')
  then show ?case using refused_step [OF step.hyps(2)] download_step_inv [OF step.hyps(2)] by simp
qed

lemma run_task_steps:
  assumes "run_task (download_task h ident v jb req lp) maxRetries (int n) err0 calls (w, jobs) = (err, calls', (w', jobs'))"
    and "int n \<le> maxRetries"
  shows "(download_step (ah_text h) maxRetries)\<^sup>*\<^sup>*
    \<lparr> dn_table = jobs, dn_phase = ph(ident \<mapsto> (if n = 0 then Queued else Retrying n)) \<rparr>
    \<lparr> dn_table = jobs', dn_phase = ph(ident \<mapsto> Done) \<rparr>"
  using assms
proof (induction "nat (maxRetries - int n)" arbitrary: n err0 calls w jobs rule: less_induct)
  case less
  let ?start = "\<lparr> dn_table = jobs, dn_phase = ph(ident \<mapsto> (if n = 0 then Queued else Retrying n)) \<rparr>"
  obtain e w1 where run: "run_download h v jb req lp w = (e, w1)" by (metis surj_pair)
  let ?jobs = "update_job ident (end_attempt (ah_text h) (ah_now h w1) e) (update_job ident start_attempt jobs)"
  have task: "download_task h ident v jb req lp (w, jobs) = (e, (w1, ?jobs))" by (simp add: download_task_def run)
  let ?mid = "\<lparr> dn_table = update_job ident start_attempt jobs, dn_phase = ph(ident \<mapsto> Running n) \<rparr>"
  let ?next = "if e = None \<or> maxRetries \<le> int n then Done else Retrying (Suc n)"
  have "download_step (ah_text h) maxRetries ?start ?mid"
    using download_step.attempt [of ?start ident "if n = 0 then Queued else Retrying n" n maxRetries "ah_text h"] less.prems(2)
    by (cases n) auto
  moreover have "download_step (ah_text h) maxRetries ?mid \<lparr> dn_table = ?jobs, dn_phase = ph(ident \<mapsto> ?next) \<rparr>"
    using download_step.settle [of ?mid ident n "ah_text h" maxRetries "ah_now h w1" e] by simp
  ultimately have two: "(download_step (ah_text h) maxRetries)\<^sup>*\<^sup>* ?start \<lparr> dn_table = ?jobs, dn_phase = ph(ident \<mapsto> ?next) \<rparr>"
    by (simp add: converse_rtranclp_into_rtranclp)
  show ?case
  proof (cases "e = None \<or> maxRetries \<le> int n")
    case True
    have "jobs' = ?jobs"
      using less.prems True task by (subst (asm) run_task.simps) (auto simp: run_task.simps split: option.splits)
    then show ?thesis using two True by simp
  next
    case False
    then obtain x where x: "e = Some x" by auto
    have "run_task (download_task h ident v jb req lp) maxRetries (int (Suc n)) (Some x) (Suc calls) (w1, ?jobs) = (err, calls', (w', jobs'))"
      using less.prems task x by (subst (asm) run_task.simps) (simp add: add.commute)
    from less.hyps [OF _ this] False have "(download_step (ah_text h) maxRetries)\<^sup>*\<^sup>*
        \<lparr> dn_table = ?jobs, dn_phase = ph(ident \<mapsto> Retrying (Suc n)) \<rparr> \<lparr> dn_table = jobs', dn_phase = ph(ident \<mapsto> Done) \<rparr>"
      by simp
    then show ?thesis using two False by simp
  qed
qed

lemma run_task_result:
  assumes "run_task (download_task h ident v jb req lp) maxRetries (int n) err0 calls (w, jobs) = (err, calls', (w', jobs'))"
    and "int n \<le> maxRetries" and "jobs ident = Some j"
  shows "\<exists>j'. jobs' ident = Some j' \<and> dj_EndTime j' \<noteq> None \<and> calls < calls' \<and>
    (case err of
       Some e \<Rightarrow> dj_Status j' = ''failed'' \<and> dj_Error j' = ah_text h e
     | None \<Rightarrow> dj_Status j' = ''completed'' \<and>
         (if calls' = Suc calls then dj_Error j' = dj_Error j else (\<exists>e. dj_Error j' = ah_text h e)))"
  using assms
proof (induction "nat (maxRetries - int n)" arbitrary: n err0 calls w jobs j rule: less_induct)
  case less
  obtain e w1 where run: "run_download h v jb req lp w = (e, w1)" by (metis surj_pair)
  let ?jobs = "update_job ident (end_attempt (ah_text h) (ah_now h w1) e) (update_job ident start_attempt jobs)"
  let ?j = "end_attempt (ah_text h) (ah_now h w1) e (start_attempt j)"
  have task: "download_task h ident v jb req lp (w, jobs) = (e, (w1, ?jobs))" by (simp add: download_task_def run)
  have j: "?jobs ident = Some ?j" using less.prems(3) by (simp add: update_job_def)
  show ?case
  proof (cases "e = None \<or> maxRetries \<le> int n")
    case True
    then have "jobs' = ?jobs \<and> err = e \<and> calls' = Suc calls"
      using less.prems task by (subst (asm) run_task.simps) (auto simp: run_task.simps split: option.splits)
    then show ?thesis using j by (auto simp: end_attempt_def start_attempt_def split: option.splits)
  next
    case False
    then obtain x where x: "e = Some x" by auto
    have "run_task (download_task h ident v jb req lp) maxRetries (int (Suc n)) (Some x) (Suc calls) (w1, ?jobs) = (err, calls', (w', jobs'))"
      using less.prems task x by (subst (asm) run_task.simps) (simp add: add.commute)
    from less.hyps [OF _ this _ j] False obtain j' where
      "jobs' ident = Some j'" "dj_EndTime j' \<noteq> None" "Suc calls < calls'"
      "case err of Some e \<Rightarrow> dj_Status j' = ''failed'' \<and> dj_Error j' = ah_text h e
        | None \<Rightarrow> dj_Status j' = ''completed'' \<and>
           (if calls' = Suc (Suc calls) then dj_Error j' = dj_Error ?j else (\<exists>e. dj_Error j' = ah_text h e))"
      by auto
    moreover have "dj_Error ?j = ah_text h x" using x by (simp add: end_attempt_def)
    ultimately show ?thesis by (auto split: option.splits if_splits)
  qed
qed

section \<open>Properties of downloads\<close>

text \<open>
  Property C12.  Every entry a status request can see is well-formed and tells where its download is.  Its
  status is one of the four documented ones; \<open>pending\<close> means that no attempt has started, \<open>completed\<close> that
  the task is over for good, and an end time is set exactly when an attempt has ended.  A download whose
  first attempt has not ended is never missing from the table.
\<close>

lemma download_status_lifecycle:
  assumes "(download_step say maxRetries)\<^sup>*\<^sup>* no_downloads d"
  shows "(\<forall>ident j. dn_table d ident = Some j \<longrightarrow>
      dj_Status j \<in> {''pending'', ''processing'', ''completed'', ''failed''} \<and>
      (\<exists>ph. dn_phase d ident = Some ph \<and>
        (dj_Status j = ''pending'' \<longleftrightarrow> ph = Queued \<or> ph = Refused) \<and> (dj_Status j = ''completed'' \<longrightarrow> ph = Done) \<and>
        (dj_EndTime j = None \<longleftrightarrow> unfinished ph))) \<and>
    (\<forall>ident ph. dn_phase d ident = Some ph \<longrightarrow> unfinished ph \<longrightarrow> dn_table d ident \<noteq> None)"
proof (intro conjI allI impI)
  note inv = downloads_reach_inv [OF assms]
  fix ident j assume j: "dn_table d ident = Some j"
  then obtain ph where ph: "dn_phase d ident = Some ph" "phase_status ph j" using downloads_inv_issued [OF inv] by blast
  show "dj_Status j \<in> {''pending'', ''processing'', ''completed'', ''failed''}" using ph(2) by (cases ph) auto
  show "\<exists>ph. dn_phase d ident = Some ph \<and> (dj_Status j = ''pending'' \<longleftrightarrow> ph = Queued \<or> ph = Refused) \<and>
      (dj_Status j = ''completed'' \<longrightarrow> ph = Done) \<and> (dj_EndTime j = None \<longleftrightarrow> unfinished ph)"
    using ph by (intro exI [of _ ph]) (cases ph; auto)
next
  fix ident ph assume "dn_phase d ident = Some ph" "unfinished ph"
  then show "dn_table d ident \<noteq> None" using downloads_inv_visible [OF downloads_reach_inv [OF assms]] by blast
qed

definition plain_request :: download_request where
  "plain_request = \<lparr> dq_TargetBucket = ''b'', dq_TargetPath = ''k'', dq_Type = ''minio'' \<rparr>"

definition one_queued :: downloads where
  "one_queued = \<lparr> dn_table = [''d'' \<mapsto> new_download ''d'' ''v'' ''j'' plain_request 5], dn_phase = [''d'' \<mapsto> Queued] \<rparr>"

definition one_refused :: downloads where
  "one_refused = one_queued\<lparr>dn_phase := [''d'' \<mapsto> Refused]\<rparr>"

lemma first_download:
  "download_step say maxRetries no_downloads one_queued" "download_step say maxRetries no_downloads one_refused"
  using download_step.accept [of no_downloads "''d''" say maxRetries 5 "''v''" "''j''" plain_request]
    download_step.refuse [of no_downloads "''d''" say maxRetries 5 "''v''" "''j''" plain_request]
  by (simp_all add: no_downloads_def one_queued_def one_refused_def register_def prune_def cong: if_cong)

lemma download_status_lifecycle_witness:
  "(download_step (\<lambda>_. ''error'') 3)\<^sup>*\<^sup>* no_downloads one_queued \<and>
   (\<exists>j. dn_table one_queued ''d'' = Some j \<and> dj_Status j = ''pending'' \<and> dj_EndTime j = None)"
proof -
  have r: "(download_step (\<lambda>_. ''error'') 3)\<^sup>*\<^sup>* no_downloads one_queued" using first_download(1) by blast
  have "dn_phase one_queued ''d'' = Some Queued" by (simp add: one_queued_def)
  with download_status_lifecycle [OF r] r show ?thesis by fastforce
qed

text \<open>
  When the queue is full, the caller is told so, but the entry already made stays \<open>pending\<close> for
  ever: no later step of any download changes or prunes it, so each refused request grows the table.
\<close>

lemma refused_download_stays_pending:
  assumes "(download_step say maxRetries)\<^sup>*\<^sup>* no_downloads d" and "dn_phase d ident = Some Refused"
    and "(download_step say maxRetries)\<^sup>*\<^sup>* d d'"
  shows "dn_table d' ident = dn_table d ident \<and>
    (\<exists>j. dn_table d' ident = Some j \<and> dj_Status j = ''pending'' \<and> dj_EndTime j = None)"
proof -
  note inv = downloads_reach_inv [OF assms(1)]
  obtain j where "dn_table d ident = Some j" using downloads_inv_visible [OF inv assms(2)] by auto
  then show ?thesis using refused_steps [OF assms(3) inv assms(2)] downloads_inv_status [OF inv _ assms(2)] by auto
qed

lemma refused_download_stays_pending_witness:
  "\<exists>j. dn_table one_refused ''d'' = Some j \<and> dj_Status j = ''pending'' \<and> dj_EndTime j = None"
proof -
  have r: "(download_step (\<lambda>_. ''error'') 3)\<^sup>*\<^sup>* no_downloads one_refused" using first_download(2) by blast
  have "dn_phase one_refused ''d'' = Some Refused" by (simp add: one_refused_def one_queued_def)
  from refused_download_stays_pending [OF r this rtranclp.rtrancl_refl] show ?thesis by simp
qed

text \<open>A Glacier whose output fails on the first request; the world counts the requests.\<close>

definition flaky_glacier :: "nat glacier_sdk" where
  "flaky_glacier =
     \<lparr> gl_ListVaults = (\<lambda>w. (Some [], w)), gl_UploadArchive = (\<lambda>_ _ w. (Inr '''', w)),
       gl_InitiateJob = (\<lambda>_ _ w. (Inr None, w)), gl_ListJobs = (\<lambda>_ w. (Inr [], w)),
       gl_GetJobOutput = (\<lambda>_ _ w. (if w = 0 then Inl (ErrorString ''throttled'') else Inr (Some (Some (whole [1, 2]))), Suc w)),
       gl_DescribeJob = (\<lambda>_ _ w. (Inr (Some
         \<lparr> jd_JobId = Some ''j'', jd_JobDescription = None, jd_Action = ''ArchiveRetrieval'', jd_StatusCode = ''Succeeded'',
           jd_StatusMessage = None, jd_Completed = True, jd_CreationDate = None, jd_CompletionDate = None,
           jd_ArchiveSizeInBytes = None \<rparr>), w)) \<rparr>"

definition flaky_s3 :: "nat s3_sdk" where
  "flaky_s3 =
     \<lparr> sdk_Upload = (\<lambda>_ _ _ w. (None, w)), sdk_HeadObject = (\<lambda>_ _ w. (Inr None, w)), sdk_HeadBucket = (\<lambda>_ w. (None, w)),
       sdk_Pages = (\<lambda>_ _ w. ([], w)), sdk_GetObject = (\<lambda>_ _ w. (Inr (whole [], None), w)),
       sdk_ListBuckets = (\<lambda>w. (Inr [], w)), sdk_DeleteObjects = (\<lambda>_ _ w. (None, w)) \<rparr>"

definition flaky_handler :: "nat aws_handler" where
  "flaky_handler =
     \<lparr> ah_gl = flaky_glacier, ah_aws = flaky_s3,
       ah_fs = \<lparr> fs_MkdirAll = (\<lambda>_ w. (None, w)), fs_Create = (\<lambda>_ w. (None, w)), fs_Copy = (\<lambda>_ _ w. (None, w)) \<rparr>,
       ah_text = (\<lambda>_. ''download failed''), ah_now = (\<lambda>w. 10 + int w), ah_uuid = (\<lambda>w. (''d'', w)) \<rparr>"

definition flaky_job :: "(nat \<times> download_table) job" where
  "flaky_job = \<lparr> jb_ID = ''d'', jb_Task = download_task flaky_handler ''d'' ''v'' ''j'' plain_request '''' \<rparr>"

definition flaky_table :: download_table where
  "flaky_table = register 5 ''d'' (new_download ''d'' ''v'' ''j'' plain_request 5) Map.empty"

definition flaky_result :: download_table where
  "flaky_result =
     update_job ''d'' (end_attempt (ah_text flaky_handler) 12 None) (update_job ''d'' start_attempt
       (update_job ''d'' (end_attempt (ah_text flaky_handler) 11 (Some (Wrapf ''failed to get job output'' (ErrorString ''throttled''))))
         (update_job ''d'' start_attempt flaky_table)))"

lemma flaky_run: "runJob flaky_job 3 (0, flaky_table) = (None, 2, (2, flaky_result))"
  by (simp add: runJob_def run_task.simps flaky_job_def download_task_def run_download_def plain_request_def
      GlacierDownloadToMinio_def flaky_handler_def flaky_glacier_def flaky_s3_def flaky_result_def)



text \<open>
  After its run a download is \<open>completed\<close> exactly when its last attempt succeeded, and \<open>failed\<close>
  with the error of the last attempt otherwise.  A download that succeeded on a retry is reported as
  completed together with the error of an earlier attempt, which nothing clears.
\<close>

lemma download_outcome:
  assumes "runJob \<lparr> jb_ID = ident, jb_Task = download_task h ident v jb req lp \<rparr> maxRetries (w, register now ident j jobs) = (err, calls, (w', jobs'))"
    and "0 \<le> maxRetries"
  shows "\<exists>j'. jobs' ident = Some j' \<and> dj_EndTime j' \<noteq> None \<and> 0 < calls \<and>
    (case err of
       Some e \<Rightarrow> dj_Status j' = ''failed'' \<and> dj_Error j' = ah_text h e
     | None \<Rightarrow> dj_Status j' = ''completed'' \<and>
         (if calls = 1 then dj_Error j' = dj_Error j else (\<exists>e. dj_Error j' = ah_text h e)))"
proof -
  have "run_task (download_task h ident v jb req lp) maxRetries (int 0) None 0 (w, register now ident j jobs) = (err, calls, (w', jobs'))"
    using assms(1) by (simp add: runJob_def)
  from run_task_result [OF this _ register_same] assms(2) show ?thesis unfolding One_nat_def by fastforce
qed

lemma download_outcome_witness:
  "\<exists>j'. flaky_result ''d'' = Some j' \<and> dj_Status j' = ''completed'' \<and> dj_Error j' = ''download failed''"
  using download_outcome [OF flaky_run [unfolded flaky_job_def flaky_table_def]] by (auto simp: flaky_handler_def)

text \<open>
  Property C23.  A request for a download changes the table by a step of its own: \<open>accept\<close>, when the answer is 202
  and the task is queued under the new id, or \<open>refuse\<close>, when it is 503; every other answer leaves the
  table and the queue as they were.
\<close>

lemma download_requests_refine_steps:
  assumes "InitiateAsyncDownload_endpoint h vault job body p = (r, p')"
    and "\<forall>w. ph (fst (ah_uuid h w)) = None"
  shows "(\<exists>code message data. r = json code False message data \<and> code \<in> {400, 500} \<and>
        snd (pl_world p') = snd (pl_world p) \<and> pl_queue p' = pl_queue p) \<or>
    (\<exists>ident req lp. r = json 202 True ''async download job started'' (Some (DownloadQueued ident ''pending'')) \<and>
        check_download vault job body = Inr (req, lp) \<and>
        download_step say maxRetries \<lparr> dn_table = snd (pl_world p), dn_phase = ph \<rparr>
          \<lparr> dn_table = snd (pl_world p'), dn_phase = ph(ident \<mapsto> Queued) \<rparr> \<and>
        pl_queue p' = pl_queue p @ [\<lparr> jb_ID = ident, jb_Task = download_task h ident vault job req lp \<rparr>]) \<or>
    (\<exists>ident. r = json 503 False ''download queue is full'' None \<and> pl_queue p' = pl_queue p \<and>
        download_step say maxRetries \<lparr> dn_table = snd (pl_world p), dn_phase = ph \<rparr>
          \<lparr> dn_table = snd (pl_world p'), dn_phase = ph(ident \<mapsto> Refused) \<rparr>)"
proof (cases "check_download vault job body")
  case (Inl message)
  then show ?thesis using assms(1) by (auto simp: InitiateAsyncDownload_endpoint_def Response_def)
next
  case (Inr a)
  then obtain req lp where c: "check_download vault job body = Inr (req, lp)" by (cases a) auto
  obtain w jobs where w: "pl_world p = (w, jobs)" by fastforce
  obtain reply w1 where g: "GlacierDescribeJob (ah_gl h) vault job w = (reply, w1)" by fastforce
  obtain ident w2 where u: "ah_uuid h w1 = (ident, w2)" by fastforce
  have fresh: "ph ident = None" using assms(2) u by (metis fst_conv)
  note steps =
    download_step.accept [of "\<lparr> dn_table = jobs, dn_phase = ph \<rparr>" ident say maxRetries "ah_now h w2" vault job req, simplified]
    download_step.refuse [of "\<lparr> dn_table = jobs, dn_phase = ph \<rparr>" ident say maxRetries "ah_now h w2" vault job req, simplified]
  show ?thesis
    using assms(1) fresh steps
    by (auto simp: InitiateAsyncDownload_endpoint_def c w g u Submit_def Let_def Response_def
        split: sum.splits option.splits if_splits)
qed

definition small_pool :: "nat \<Rightarrow> (nat \<times> download_table) pool" where
  "small_pool n = \<lparr> pl_queue = [], pl_capacity = n, pl_workers = [], pl_cancelled = False,
     pl_stop = Not_Called, pl_maxRetries = 3, pl_submitting = {#}, pl_accepted = [], pl_started = [], pl_done = [], pl_world = (0, Map.empty) \<rparr>"

definition small_table :: download_table where
  "small_table = register 10 ''d'' (new_download ''d'' ''v'' ''j'' plain_request 10) Map.empty"

lemma small_pool_world: "pl_world (small_pool n) = (0, Map.empty)"
  by (simp add: small_pool_def)

lemma small_requests:
  "InitiateAsyncDownload_endpoint flaky_handler ''v'' ''j'' (Some plain_request) (small_pool 0) =
    (json 503 False ''download queue is full'' None, (small_pool 0)\<lparr>pl_world := (0, small_table)\<rparr>)"
  "fst (InitiateAsyncDownload_endpoint flaky_handler ''v'' ''j'' (Some plain_request) (small_pool 2)) =
    json 202 True ''async download job started'' (Some (DownloadQueued ''d'' ''pending''))"
  "snd (pl_world (snd (InitiateAsyncDownload_endpoint flaky_handler ''v'' ''j'' (Some plain_request) (small_pool 2)))) = small_table"
  by (simp_all add: InitiateAsyncDownload_endpoint_def check_download_def plain_request_def small_pool_def small_table_def
      flaky_handler_def flaky_glacier_def GlacierDescribeJob_def Submit_def room_def Let_def)

lemma download_requests_refine_steps_witness:
  "(\<exists>ident. download_step (\<lambda>_. ''error'') 3 no_downloads \<lparr> dn_table = small_table, dn_phase = [ident \<mapsto> Refused] \<rparr>) \<and>
   download_step (\<lambda>_. ''error'') 3 no_downloads \<lparr> dn_table = small_table, dn_phase = [''d'' \<mapsto> Queued] \<rparr>"
  using download_requests_refine_steps [OF small_requests(1), of Map.empty "\<lambda>_. ''error''" 3]
    download_requests_refine_steps
      [of flaky_handler "''v''" "''j''" "Some plain_request" "small_pool 2" _ _ Map.empty "\<lambda>_. ''error''" 3, OF prod.collapse [symmetric]]
  by (auto simp: small_requests no_downloads_def Response_def small_pool_world)

text \<open>
  An entry can disappear while its download runs: the end time of a failed attempt stays set during the
  next one, and once it is an hour old the next request prunes the entry, after which a status request
  answers that there is no such download.
\<close>

lemma retried_download_can_vanish:
  "\<exists>d. (download_step say 3)\<^sup>*\<^sup>* no_downloads d \<and> dn_phase d ''d'' = Some (Running 1) \<and> dn_table d ''d'' = None \<and>
    CheckDownloadStatus_endpoint ''d'' (p\<lparr>pl_world := (w, dn_table d)\<rparr>) = json 404 False ''download job not found'' None"
proof -
  let ?s = "download_step say 3"
  let ?d2 = "\<lparr> dn_table = update_job ''d'' start_attempt (dn_table one_queued), dn_phase = (dn_phase one_queued)(''d'' \<mapsto> Running 0) \<rparr>"
  let ?d3 = "\<lparr> dn_table = update_job ''d'' (end_attempt say 9 (Some (ErrorString ''x''))) (dn_table ?d2), dn_phase = (dn_phase ?d2)(''d'' \<mapsto> Retrying 1) \<rparr>"
  let ?d4 = "\<lparr> dn_table = update_job ''d'' start_attempt (dn_table ?d3), dn_phase = (dn_phase ?d3)(''d'' \<mapsto> Running 1) \<rparr>"
  let ?d5 = "\<lparr> dn_table = register (hour + 10) ''e'' (new_download ''e'' ''v'' ''j'' plain_request (hour + 10)) (dn_table ?d4),
      dn_phase = (dn_phase ?d4)(''e'' \<mapsto> Queued) \<rparr>"
  have "?s one_queued ?d2" using download_step.attempt [of one_queued "''d''" Queued 0 3 say] by (simp add: one_queued_def)
  moreover have "?s ?d2 ?d3" using download_step.settle [of ?d2 "''d''" 0 say 3 9 "Some (ErrorString ''x'')"] by simp
  moreover have "?s ?d3 ?d4" using download_step.attempt [of ?d3 "''d''" "Retrying 1" 1 3 say] by simp
  moreover have "?s ?d4 ?d5" using download_step.accept [of ?d4 "''e''" say 3 "hour + 10" "''v''" "''j''" plain_request]
    by (simp add: one_queued_def)
  ultimately have "?s\<^sup>*\<^sup>* no_downloads ?d5" using first_download(1) [of say 3]
    by (meson converse_rtranclp_into_rtranclp rtranclp.rtrancl_refl)
  moreover have "dn_table ?d5 ''d'' = None"
    by (simp add: register_def prune_def update_job_def one_queued_def new_download_def start_attempt_def end_attempt_def)
  moreover have "dn_phase ?d5 ''d'' = Some (Running 1)" by simp
  ultimately show ?thesis by (intro exI [of _ ?d5]) (simp add: CheckDownloadStatus_endpoint_def)
qed

end
