(* ===== verification/Cache.thy ===== *)
theory Cache
  imports Go_Floats Env_Config
begin

text \<open>
  \<open>service/cache.go\<close>: the Redis-backed cache with its hit and miss counters, the metrics and log lines it
  emits, and the keys under which resized images are kept.  The Redis client is the parameter
  \<open>redis\<close>.  The operations are modelled one at a time; the counters are updated atomically.
\<close>

section \<open>State\<close>

text \<open>\<open>Get\<close> answers the sentinel \<open>RedisNil\<close> for a key that is not there.\<close>

record 'w redis =
  rds_Ping :: "'w \<Rightarrow> gerror option \<times> 'w"
  rds_Get :: "string \<Rightarrow> 'w \<Rightarrow> bytes result \<times> 'w"
  rds_Set :: "string \<Rightarrow> bytes \<Rightarrow> duration \<Rightarrow> 'w \<Rightarrow> gerror option \<times> 'w"
  rds_Del :: "string \<Rightarrow> 'w \<Rightarrow> gerror option \<times> 'w"
  rds_FlushAll :: "'w \<Rightarrow> gerror option \<times> 'w"
  rds_Close :: "'w \<Rightarrow> gerror option \<times> 'w"

text \<open>
  What a call leaves behind besides its answer, in order: the operation counter with its status, the
  hit ratio, bytes added to the size gauge, and an error line in the log.  Durations are left out.
\<close>

datatype cache_event =
    CacheOperations string string
  | CacheHitRatio float64
  | CacheSize nat
  | LogFailure string

record 'w redisCache =
  rc_hits :: "64 word"
  rc_misses :: "64 word"
  rc_events :: "cache_event list"
  rc_world :: 'w

definition emit :: "cache_event list \<Rightarrow> 'w redisCache \<Rightarrow> 'w redisCache" where
  "emit evs c = c\<lparr>rc_events := rc_events c @ evs\<rparr>"

section \<open>Connecting\<close>

definition cacheConnectAttempts :: nat where
  "cacheConnectAttempts = 3"

text \<open>The loop over the attempts left; the pause between two of them is left out.\<close>

fun ping_redis :: "'w redis \<Rightarrow> nat \<Rightarrow> gerror option \<Rightarrow> 'w \<Rightarrow> gerror option \<times> 'w" where
  "ping_redis r 0 err w = (err, w)"
| "ping_redis r (Suc n) err w =
     (case rds_Ping r w of
        (None, w) \<Rightarrow> (None, w)
      | (Some e, w) \<Rightarrow> ping_redis r n (Some e) w)"

text \<open>The service is nil for a URL that does not parse only; the error is independent of it.\<close>

definition NewCacheService ::
  "env \<Rightarrow> (string \<Rightarrow> gerror option) \<Rightarrow> 'w redis \<Rightarrow> 'w \<Rightarrow> 'w redisCache option \<times> gerror option" where
  "NewCacheService env ParseURL r w =
     (case ParseURL (GetEnvOrDefault env ''REDIS_URL'' ''redis://cdn-redis:6379'') of
        Some err \<Rightarrow> (None, Some (ErrorString ''failed to parse Redis URL''))
      | None \<Rightarrow>
          (case ping_redis r cacheConnectAttempts None w of
             (err, w) \<Rightarrow>
               (Some \<lparr> rc_hits = 0, rc_misses = 0, rc_events = [], rc_world = w \<rparr>,
                map_option (\<lambda>_. ErrorString ''failed to connect to Redis after 3 attempts'') err)))"

section \<open>Operations\<close>

definition hit_ratio :: "'w redisCache \<Rightarrow> float64" where
  "hit_ratio c =
     (let total = rc_hits c + rc_misses c in
      if 0 <s total then float_div (float_of_int (sint (rc_hits c))) (float_of_int (sint total)) else Fin 0)"

text \<open>The deferred part of \<open>Get\<close>, run with the final values of \<open>miss\<close> and \<open>err\<close>.\<close>

definition get_done :: "bool \<Rightarrow> gerror option \<Rightarrow> 'w redisCache \<Rightarrow> 'w redisCache" where
  "get_done miss err c =
     (let (status, c) =
        (if miss then (''miss'', c\<lparr>rc_misses := rc_misses c + 1\<rparr>)
         else if err \<noteq> None then (''error'', c)
         else (''hit'', c\<lparr>rc_hits := rc_hits c + 1\<rparr>));
          c = emit [CacheOperations ''get'' status] c;
          c = emit [CacheHitRatio (hit_ratio c)] c
      in if err \<noteq> None \<and> \<not> miss then emit [LogFailure ''get''] c else c)"

definition CacheGet :: "'w redis \<Rightarrow> string \<Rightarrow> 'w redisCache \<Rightarrow> bytes result \<times> 'w redisCache" where
  "CacheGet r key c =
     (case rds_Get r key (rc_world c) of
        (Inl err, w) \<Rightarrow>
          (let c = c\<lparr>rc_world := w\<rparr> in
           if errors_is err RedisNil then (Inl (Wrapf key ErrCacheMiss), get_done True (Some err) c)
           else (Inl err, get_done False (Some err) c))
      | (Inr val, w) \<Rightarrow>
          (let c = emit [CacheSize (length val)] (c\<lparr>rc_world := w\<rparr>) in (Inr val, get_done False None c)))"

text \<open>The deferred part the other operations share.\<close>

definition op_done :: "string \<Rightarrow> gerror option \<Rightarrow> 'w redisCache \<Rightarrow> 'w redisCache" where
  "op_done operation err c =
     (let status = (if err \<noteq> None then ''error'' else ''success'');
          c = emit [CacheOperations operation status] c
      in if err \<noteq> None then emit [LogFailure operation] c else c)"

definition CacheSet :: "'w redis \<Rightarrow> string \<Rightarrow> bytes \<Rightarrow> duration \<Rightarrow> 'w redisCache \<Rightarrow> gerror option \<times> 'w redisCache" where
  "CacheSet r key val expiration c =
     (case rds_Set r key val expiration (rc_world c) of
        (err, w) \<Rightarrow>
          (let c = c\<lparr>rc_world := w\<rparr>;
               c = (if err = None then emit [CacheSize (length val)] c else c)
           in (err, op_done ''set'' err c)))"

definition CacheDelete :: "'w redis \<Rightarrow> string \<Rightarrow> 'w redisCache \<Rightarrow> gerror option \<times> 'w redisCache" where
  "CacheDelete r key c =
     (case rds_Del r key (rc_world c) of (err, w) \<Rightarrow> (err, op_done ''delete'' err (c\<lparr>rc_world := w\<rparr>)))"

definition resize_key :: "string \<Rightarrow> string \<Rightarrow> 64 word \<Rightarrow> 64 word \<Rightarrow> string" where
  "resize_key bucket path width height =
     ''resize:'' @ bucket @ '':'' @ path @ '':'' @ decimal (unat width) @ '':'' @ decimal (unat height)"

definition GetResizedImage ::
  "'w redis \<Rightarrow> string \<Rightarrow> string \<Rightarrow> 64 word \<Rightarrow> 64 word \<Rightarrow> 'w redisCache \<Rightarrow> bytes result \<times> 'w redisCache" where
  "GetResizedImage r bucket path width height c = CacheGet r (resize_key bucket path width height) c"

definition SetResizedImage ::
  "'w redis \<Rightarrow> string \<Rightarrow> string \<Rightarrow> 64 word \<Rightarrow> 64 word \<Rightarrow> bytes \<Rightarrow> 'w redisCache \<Rightarrow> gerror option \<times> 'w redisCache" where
  "SetResizedImage r bucket path width height data c =
     CacheSet r (resize_key bucket path width height) data (24 * hour) c"

definition CacheFlushAll :: "'w redis \<Rightarrow> 'w redisCache \<Rightarrow> gerror option \<times> 'w redisCache" where
  "CacheFlushAll r c =
     (case rds_FlushAll r (rc_world c) of (err, w) \<Rightarrow> (err, op_done ''flush_all'' err (c\<lparr>rc_world := w\<rparr>)))"

definition CacheClose :: "'w redis \<Rightarrow> 'w redisCache \<Rightarrow> gerror option \<times> 'w redisCache" where
  "CacheClose r c =
     (case rds_Close r (rc_world c) of (err, w) \<Rightarrow> (err, op_done ''close'' err (c\<lparr>rc_world := w\<rparr>)))"

section \<open>Sequences of calls\<close>

datatype cache_call =
    CallGet string
  | CallSet string bytes duration
  | CallDelete string
  | CallGetResized string string "64 word" "64 word"
  | CallSetResized string string "64 word" "64 word" bytes
  | CallFlushAll
  | CallClose

fun perform :: "'w redis \<Rightarrow> cache_call \<Rightarrow> 'w redisCache \<Rightarrow> 'w redisCache" where
  "perform r (CallGet k) c = snd (CacheGet r k c)"
| "perform r (CallSet k v d) c = snd (CacheSet r k v d c)"
| "perform r (CallDelete k) c = snd (CacheDelete r k c)"
| "perform r (CallGetResized b p x y) c = snd (GetResizedImage r b p x y c)"
| "perform r (CallSetResized b p x y v) c = snd (SetResizedImage r b p x y v c)"
| "perform r CallFlushAll c = snd (CacheFlushAll r c)"
| "perform r CallClose c = snd (CacheClose r c)"

fun perform_all :: "'w redis \<Rightarrow> cache_call list \<Rightarrow> 'w redisCache \<Rightarrow> 'w redisCache" where
  "perform_all r [] c = c"
| "perform_all r (x # xs) c = perform_all r xs (perform r x c)"

section \<open>The counters and the published ratio\<close>

abbreviation hits :: "cache_event list \<Rightarrow> nat" where
  "hits evs \<equiv> count_list evs (CacheOperations ''get'' ''hit'')"

abbreviation misses :: "cache_event list \<Rightarrow> nat" where
  "misses evs \<equiv> count_list evs (CacheOperations ''get'' ''miss'')"

definition true_ratio :: "cache_event list \<Rightarrow> float64" where
  "true_ratio evs = (if hits evs + misses evs = 0 then Fin 0 else Fin (f64 (of_nat (hits evs) / of_nat (hits evs + misses evs))))"

definition ratios_true :: "cache_event list \<Rightarrow> bool" where
  "ratios_true evs \<longleftrightarrow> (\<forall>xs q ys. evs = xs @ CacheHitRatio q # ys \<longrightarrow> q = true_ratio xs)"

lemma ratios_true_Nil [simp]: "ratios_true []"
  by (simp add: ratios_true_def)

lemma ratios_true_snoc [simp]:
  "ratios_true (evs @ [e]) \<longleftrightarrow> ratios_true evs \<and> (\<forall>q. e = CacheHitRatio q \<longrightarrow> q = true_ratio evs)"
proof
  assume r: "ratios_true (evs @ [e])"
  have "q = true_ratio xs" if "evs = xs @ CacheHitRatio q # ys" for xs q ys
    using r that unfolding ratios_true_def by (metis append_Cons append_assoc)
  moreover have "q = true_ratio evs" if "e = CacheHitRatio q" for q
    using r that unfolding ratios_true_def by blast
  ultimately show "ratios_true evs \<and> (\<forall>q. e = CacheHitRatio q \<longrightarrow> q = true_ratio evs)"
    unfolding ratios_true_def by blast
next
  assume r: "ratios_true evs \<and> (\<forall>q. e = CacheHitRatio q \<longrightarrow> q = true_ratio evs)"
  have "q = true_ratio xs" if eq: "evs @ [e] = xs @ CacheHitRatio q # ys" for xs q ys
  proof (cases ys rule: rev_cases)
    case Nil
    then show ?thesis using r eq by simp
  next
    case (snoc zs z)
    then show ?thesis using r eq unfolding ratios_true_def by (metis append_Cons append_assoc append_same_eq butlast_snoc)
  qed
  then show "ratios_true (evs @ [e])" unfolding ratios_true_def by blast
qed

lemma ratios_true_two [simp]:
  "ratios_true (evs @ [d, e]) \<longleftrightarrow> ratios_true (evs @ [d]) \<and> (\<forall>q. e = CacheHitRatio q \<longrightarrow> q = true_ratio (evs @ [d]))"
  using ratios_true_snoc [of "evs @ [d]" e] by simp

lemma ratios_true_three [simp]:
  "ratios_true (evs @ [d, e, f]) \<longleftrightarrow> ratios_true (evs @ [d, e]) \<and> (\<forall>q. f = CacheHitRatio q \<longrightarrow> q = true_ratio (evs @ [d, e]))"
  using ratios_true_snoc [of "evs @ [d, e]" f] by simp

definition accounted :: "nat \<Rightarrow> 'w redisCache \<Rightarrow> bool" where
  "accounted n c \<longleftrightarrow>
     unat (rc_hits c) = hits (rc_events c) \<and> unat (rc_misses c) = misses (rc_events c) \<and>
     hits (rc_events c) + misses (rc_events c) + count_list (rc_events c) (CacheOperations ''get'' ''error'') = n \<and>
     ratios_true (rc_events c) \<and>
     (\<forall>op. count_list (rc_events c) (LogFailure op) = count_list (rc_events c) (CacheOperations op ''error''))"

lemma emit_sel [simp]:
  "rc_events (emit evs c) = rc_events c @ evs" "rc_hits (emit evs c) = rc_hits c"
  "rc_misses (emit evs c) = rc_misses c" "rc_world (emit evs c) = rc_world c"
  by (simp_all add: emit_def)

lemma accounted_world [simp]: "accounted n (c\<lparr>rc_world := w\<rparr>) = accounted n c"
  by (simp add: accounted_def)

lemma accounted_size [simp]: "accounted n (emit [CacheSize k] c) = accounted n c"
  by (simp add: accounted_def)

lemma unat_Suc: "unat (x :: 64 word) < 2 ^ 53 \<Longrightarrow> unat (x + 1) = unat x + 1"
  by (simp add: unat_word_ariths)

text \<open>Below 2^53 the published ratio is the exact quotient, rounded once.\<close>

lemma hit_ratio_true:
  assumes "unat (rc_hits c) = hits evs" and "unat (rc_misses c) = misses evs" and "hits evs + misses evs < 2 ^ 53"
  shows "hit_ratio c = true_ratio evs"
proof -
  have u: "unat (rc_hits c + rc_misses c) = hits evs + misses evs"
    using assms by (simp add: unat_word_ariths)
  have exact: "float_of_int (sint x) = Fin (of_nat (unat x))" if "unat x < 2 ^ 53" for x :: "64 word"
  proof -
    have "sint x = int (unat x)" using that by (simp add: sint_small)
    then show ?thesis using f64_nat [OF that] by (simp add: float_of_int_def)
  qed
  have "0 <s rc_hits c + rc_misses c \<longleftrightarrow> hits evs + misses evs \<noteq> 0"
    using u assms(3) by (auto simp: word_sless_alt sint_small)
  moreover have "float_of_int (sint (rc_hits c)) = Fin (of_nat (hits evs))"
    using exact [of "rc_hits c"] assms by simp
  moreover have "float_of_int (sint (rc_hits c + rc_misses c)) = Fin (of_nat (hits evs + misses evs))"
    using exact [of "rc_hits c + rc_misses c"] u assms(3) by simp
  ultimately show ?thesis by (simp add: hit_ratio_def true_ratio_def Let_def)
qed

lemma get_done_accounted:
  assumes "accounted n c" and "n < 2 ^ 53 - 1"
  shows "accounted (Suc n) (get_done miss err c)"
proof -
  have b: "unat (rc_hits c) + unat (rc_misses c) \<le> n" using assms(1) by (simp add: accounted_def)
  note word = unat_Suc [of "rc_hits c"] unat_Suc [of "rc_misses c"]
  consider "miss" | "\<not> miss" "err \<noteq> None" | "\<not> miss" "err = None" by blast
  then show ?thesis
  proof cases
    case 1
    let ?c = "emit [CacheOperations ''get'' ''miss''] (c\<lparr>rc_misses := rc_misses c + 1\<rparr>)"
    have "hit_ratio ?c = true_ratio (rc_events ?c)"
      by (rule hit_ratio_true) (use assms b word in \<open>simp_all add: accounted_def\<close>)
    then show ?thesis using 1 assms b word by (simp add: get_done_def accounted_def Let_def)
  next
    case 2
    let ?c = "emit [CacheOperations ''get'' ''error''] c"
    have "hit_ratio ?c = true_ratio (rc_events ?c)"
      by (rule hit_ratio_true) (use assms b in \<open>simp_all add: accounted_def\<close>)
    then show ?thesis using 2 assms b by (simp add: get_done_def accounted_def Let_def)
  next
    case 3
    let ?c = "emit [CacheOperations ''get'' ''hit''] (c\<lparr>rc_hits := rc_hits c + 1\<rparr>)"
    have "hit_ratio ?c = true_ratio (rc_events ?c)"
      by (rule hit_ratio_true) (use assms b word in \<open>simp_all add: accounted_def\<close>)
    then show ?thesis using 3 assms b word by (simp add: get_done_def accounted_def Let_def)
  qed
qed

lemma op_done_accounted: "accounted n c \<Longrightarrow> operation \<noteq> ''get'' \<Longrightarrow> accounted n (op_done operation err c)"
  by (auto simp: op_done_def accounted_def Let_def)

lemma CacheGet_accounted: "accounted n c \<Longrightarrow> n < 2 ^ 53 - 1 \<Longrightarrow> accounted (Suc n) (snd (CacheGet r k c))"
  by (auto simp: CacheGet_def Let_def intro!: get_done_accounted split: prod.split sum.split)

lemma CacheSet_accounted: "accounted n c \<Longrightarrow> accounted n (snd (CacheSet r k v d c))"
  by (auto simp: CacheSet_def Let_def intro!: op_done_accounted split: prod.split)

fun is_get :: "cache_call \<Rightarrow> bool" where
  "is_get (CallGet k) \<longleftrightarrow> True"
| "is_get (CallGetResized b p x y) \<longleftrightarrow> True"
| "is_get _ \<longleftrightarrow> False"

lemma perform_accounted:
  assumes "accounted n c" and "n < 2 ^ 53 - 1"
  shows "accounted (n + of_bool (is_get x)) (perform r x c)"
  using assms
  by (cases x)
    (auto simp: GetResizedImage_def SetResizedImage_def CacheDelete_def CacheFlushAll_def CacheClose_def
      intro!: CacheGet_accounted CacheSet_accounted op_done_accounted split: prod.split)

lemma perform_all_accounted:
  "accounted n c \<Longrightarrow> n + length xs < 2 ^ 53 \<Longrightarrow> accounted (n + length (filter is_get xs)) (perform_all r xs c)"
proof (induction xs arbitrary: n c)
  case (Cons x xs)
  then show ?case using perform_accounted [of n c x r] Cons.IH [of "n + of_bool (is_get x)" "perform r x c"]
    by (cases "is_get x") simp_all
qed simp

section \<open>Keys of resized images\<close>

lemma decimal_no_colon: "CHR '':'' \<notin> set (decimal n)"
  using decimal_digits [of "CHR '':''" n] by (auto simp: is_digit_def)

lemma append_sep_inject_right:
  "c \<notin> set us \<Longrightarrow> c \<notin> set vs \<Longrightarrow> xs @ c # us = ys @ c # vs \<Longrightarrow> xs = ys \<and> us = vs"
  using append_sep_inject [of c "rev us" "rev vs" "rev xs" "rev ys"]
  by (metis append.assoc append_Cons append_Nil rev.simps(2) rev_append rev_is_rev_conv set_rev)

lemma resize_key_inject:
  assumes "resize_key b p x y = resize_key b' p' x' y'" and "CHR '':'' \<notin> set b" and "CHR '':'' \<notin> set b'"
  shows "b = b' \<and> p = p' \<and> x = x' \<and> y = y'"
proof -
  have front: "b = b' \<and> p @ '':'' @ decimal (unat x) @ '':'' @ decimal (unat y) = p' @ '':'' @ decimal (unat x') @ '':'' @ decimal (unat y')"
    using assms append_sep_inject [of "CHR '':''" b b'] by (simp add: resize_key_def)
  then have "(p @ '':'' @ decimal (unat x)) @ CHR '':'' # decimal (unat y) = (p' @ '':'' @ decimal (unat x')) @ CHR '':'' # decimal (unat y')"
    by simp
  from append_sep_inject_right [OF decimal_no_colon decimal_no_colon this]
  have y: "p @ CHR '':'' # decimal (unat x) = p' @ CHR '':'' # decimal (unat x')" "decimal (unat y) = decimal (unat y')" by simp_all
  from append_sep_inject_right [OF decimal_no_colon decimal_no_colon y(1)] y(2) front
  show ?thesis by (auto dest!: decimal_inject intro: unsigned_word_eqI)
qed

section \<open>What a cache promises\<close>

text \<open>
  A key-value store whose entries may vanish at any time (they expire and are evicted) but are never
  changed by anything other than a \<open>set\<close> of their key; a failed \<open>set\<close> may or may not have been applied.
  Other clients of the same Redis are outside of this contract.
\<close>

locale key_value =
  fixes get :: "string \<Rightarrow> 'w \<Rightarrow> bytes result \<times> 'w"
    and set :: "string \<Rightarrow> bytes \<Rightarrow> duration \<Rightarrow> 'w \<Rightarrow> gerror option \<times> 'w"
    and del :: "string \<Rightarrow> 'w \<Rightarrow> gerror option \<times> 'w"
    and flush :: "'w \<Rightarrow> gerror option \<times> 'w"
    and stored :: "'w \<Rightarrow> string \<Rightarrow> bytes option"
  assumes get_found: "get k w = (Inr v, w') \<Longrightarrow> stored w k = Some v"
    and get_frame: "get k w = (x, w') \<Longrightarrow> stored w' \<subseteq>\<^sub>m stored w"
    and set_ok: "set k v d w = (None, w') \<Longrightarrow> stored w' \<subseteq>\<^sub>m (stored w)(k \<mapsto> v)"
    and set_frame: "set k v d w = (err, w') \<Longrightarrow> stored w' \<subseteq>\<^sub>m stored w \<or> stored w' \<subseteq>\<^sub>m (stored w)(k \<mapsto> v)"
    and del_frame: "del k w = (err, w') \<Longrightarrow> stored w' \<subseteq>\<^sub>m stored w"
    and flush_frame: "flush w = (err, w') \<Longrightarrow> stored w' \<subseteq>\<^sub>m stored w"
begin

text \<open>The key is absent or holds the value.\<close>

definition holds :: "string \<Rightarrow> bytes \<Rightarrow> 'w \<Rightarrow> bool" where
  "holds k v w \<longleftrightarrow> stored w k \<in> {None, Some v}"

lemma holds_shrink: "stored w' \<subseteq>\<^sub>m stored w \<Longrightarrow> holds k v w \<Longrightarrow> holds k v w'"
  unfolding holds_def map_le_def by (cases "stored w' k") (auto simp: dom_def)

lemma holds_update: "stored w' \<subseteq>\<^sub>m (stored w)(k \<mapsto> v) \<Longrightarrow> holds k v w'"
  unfolding holds_def map_le_def by (cases "stored w' k") (auto simp: dom_def)

lemma holds_other: "stored w' \<subseteq>\<^sub>m (stored w)(k' \<mapsto> v') \<Longrightarrow> k' \<noteq> k \<Longrightarrow> holds k v w \<Longrightarrow> holds k v w'"
  unfolding holds_def map_le_def by (cases "stored w' k") (auto simp: dom_def split: if_splits)

lemma holds_after_set: "set k v d w = (None, w') \<Longrightarrow> holds k v w'"
  using set_ok holds_update by blast

lemma holds_get: "get k' w = (x, w') \<Longrightarrow> holds k v w \<Longrightarrow> holds k v w'"
  using get_frame holds_shrink by blast

lemma holds_set: "set k' v' d w = (err, w') \<Longrightarrow> k' \<noteq> k \<Longrightarrow> holds k v w \<Longrightarrow> holds k v w'"
  using set_frame holds_shrink holds_other by metis

lemma holds_del: "del k' w = (err, w') \<Longrightarrow> holds k v w \<Longrightarrow> holds k v w'"
  using del_frame holds_shrink by blast

lemma holds_flush: "flush w = (err, w') \<Longrightarrow> holds k v w \<Longrightarrow> holds k v w'"
  using flush_frame holds_shrink by blast

lemma holds_read: "holds k v w \<Longrightarrow> get k w = (Inr v', w') \<Longrightarrow> v' = v"
  using get_found unfolding holds_def by fastforce

end

text \<open>On a Redis that keeps the contract the cache keeps it.\<close>

locale cache_redis =
  key_value "rds_Get r" "rds_Set r" "rds_Del r" "rds_FlushAll r" stored
  for r :: "'w redis" and stored :: "'w \<Rightarrow> string \<Rightarrow> bytes option" +
  assumes close_frame: "rds_Close r w = (err, w') \<Longrightarrow> stored w' \<subseteq>\<^sub>m stored w"
begin

lemma done_world [simp]: "rc_world (get_done miss err c) = rc_world c" "rc_world (op_done operation err c) = rc_world c"
  by (simp_all add: get_done_def op_done_def Let_def)

lemma cache_get_world: "CacheGet r k c = (x, c') \<Longrightarrow> \<exists>y. rds_Get r k (rc_world c) = (y, rc_world c') \<and> (\<forall>v. x = Inr v \<longrightarrow> y = Inr v)"
  by (auto simp: CacheGet_def Let_def split: prod.splits sum.splits if_splits)

lemma cache_set_world: "CacheSet r k v d c = (err, c') \<Longrightarrow> rds_Set r k v d (rc_world c) = (err, rc_world c')"
  by (auto simp: CacheSet_def Let_def split: prod.splits if_splits)

lemma cache_del_world: "CacheDelete r k c = (err, c') \<Longrightarrow> rds_Del r k (rc_world c) = (err, rc_world c')"
  by (auto simp: CacheDelete_def split: prod.splits)

lemma cache_flush_world: "CacheFlushAll r c = (err, c') \<Longrightarrow> rds_FlushAll r (rc_world c) = (err, rc_world c')"
  by (auto simp: CacheFlushAll_def split: prod.splits)

lemma cache_close_world: "CacheClose r c = (err, c') \<Longrightarrow> rds_Close r (rc_world c) = (err, rc_world c')"
  by (auto simp: CacheClose_def split: prod.splits)

end

sublocale cache_redis \<subseteq> cache: key_value "CacheGet r" "CacheSet r" "CacheDelete r" "CacheFlushAll r" "\<lambda>c. stored (rc_world c)"
proof
  show "CacheGet r k c = (Inr v, c') \<Longrightarrow> stored (rc_world c) k = Some v" for k c v c'
    using cache_get_world get_found by blast
  show "CacheGet r k c = (x, c') \<Longrightarrow> stored (rc_world c') \<subseteq>\<^sub>m stored (rc_world c)" for k c x c'
    using cache_get_world get_frame by blast
  show "CacheSet r k v d c = (None, c') \<Longrightarrow> stored (rc_world c') \<subseteq>\<^sub>m (stored (rc_world c))(k \<mapsto> v)" for k v d c c'
    using cache_set_world set_ok by blast
  show "CacheSet r k v d c = (err, c') \<Longrightarrow>
      stored (rc_world c') \<subseteq>\<^sub>m stored (rc_world c) \<or> stored (rc_world c') \<subseteq>\<^sub>m (stored (rc_world c))(k \<mapsto> v)" for k v d c err c'
    using cache_set_world set_frame by blast
  show "CacheDelete r k c = (err, c') \<Longrightarrow> stored (rc_world c') \<subseteq>\<^sub>m stored (rc_world c)" for k c err c'
    using cache_del_world del_frame by blast
  show "CacheFlushAll r c = (err, c') \<Longrightarrow> stored (rc_world c') \<subseteq>\<^sub>m stored (rc_world c)" for c err c'
    using cache_flush_world flush_frame by blast
qed

text \<open>The calls that write no other image under the name and size.\<close>

fun leaves_image :: "string \<Rightarrow> string \<Rightarrow> 64 word \<Rightarrow> 64 word \<Rightarrow> cache_call \<Rightarrow> bool" where
  "leaves_image b p x y (CallSet k v d) \<longleftrightarrow> k \<noteq> resize_key b p x y"
| "leaves_image b p x y (CallSetResized b' p' x' y' v) \<longleftrightarrow> CHR '':'' \<notin> set b' \<and> (b', p', x', y') \<noteq> (b, p, x, y)"
| "leaves_image b p x y _ \<longleftrightarrow> True"

context cache_redis
begin

lemma holds_after:
  assumes "cache.holds k v c"
  shows "cache.holds k v (snd (CacheGet r k' c))" and "k' \<noteq> k \<Longrightarrow> cache.holds k v (snd (CacheSet r k' v' d c))"
    and "cache.holds k v (snd (CacheDelete r k' c))" and "cache.holds k v (snd (CacheFlushAll r c))"
    and "cache.holds k v (snd (CacheClose r c))"
proof -
  show "cache.holds k v (snd (CacheGet r k' c))" using cache.holds_get [OF surjective_pairing assms] .
  show "cache.holds k v (snd (CacheSet r k' v' d c))" if "k' \<noteq> k" using cache.holds_set [OF surjective_pairing that assms] .
  show "cache.holds k v (snd (CacheDelete r k' c))" using cache.holds_del [OF surjective_pairing assms] .
  show "cache.holds k v (snd (CacheFlushAll r c))" using cache.holds_flush [OF surjective_pairing assms] .
  show "cache.holds k v (snd (CacheClose r c))"
    using cache.holds_shrink [OF close_frame [OF cache_close_world [OF surjective_pairing]] assms] .
qed

lemma perform_holds:
  assumes "leaves_image b p x y call" and "CHR '':'' \<notin> List.set b" and "cache.holds (resize_key b p x y) v c"
  shows "cache.holds (resize_key b p x y) v (perform r call c)"
proof (cases call)
  case (CallSetResized b' p' x' y' v')
  then have "resize_key b' p' x' y' \<noteq> resize_key b p x y"
    using assms(1,2) resize_key_inject [of b' p' x' y' b p x y] by auto
  then show ?thesis using CallSetResized holds_after(2) [OF assms(3)] by (simp add: SetResizedImage_def)
qed (use assms(1) holds_after [OF assms(3)] in \<open>simp_all add: GetResizedImage_def\<close>)

lemma perform_all_holds:
  "CHR '':'' \<notin> List.set b \<Longrightarrow> \<forall>call\<in>List.set calls. leaves_image b p x y call \<Longrightarrow> cache.holds (resize_key b p x y) v c \<Longrightarrow>
   cache.holds (resize_key b p x y) v (perform_all r calls c)"
  by (induction calls arbitrary: c) (simp_all add: perform_holds)

lemma set_then_get: "CacheSet r k v d c = (None, c1) \<Longrightarrow> CacheGet r k c1 = (Inr v', c2) \<Longrightarrow> v' = v"
  by (rule cache.holds_read [OF cache.holds_after_set])

lemma image_roundtrip:
  assumes "CHR '':'' \<notin> List.set b" and "\<forall>call\<in>List.set calls. leaves_image b p x y call"
    and "SetResizedImage r b p x y v c = (None, c1)"
    and "GetResizedImage r b p x y (perform_all r calls c1) = (Inr v', c2)"
  shows "v' = v"
proof -
  have "cache.holds (resize_key b p x y) v c1"
    using assms(3) by (intro cache.holds_after_set) (simp add: SetResizedImage_def)
  then have "cache.holds (resize_key b p x y) v (perform_all r calls c1)" by (rule perform_all_holds [OF assms(1,2)])
  then show ?thesis by (rule cache.holds_read) (use assms(4) in \<open>simp add: GetResizedImage_def\<close>)
qed

end

section \<open>Properties\<close>

text \<open>A Redis in memory, that never fails; its world is its contents.\<close>

definition mem_redis :: "(string \<rightharpoonup> bytes) redis" where
  "mem_redis =
     \<lparr> rds_Ping = (\<lambda>m. (None, m)),
       rds_Get = (\<lambda>k m. (case m k of None \<Rightarrow> Inl RedisNil | Some v \<Rightarrow> Inr v, m)),
       rds_Set = (\<lambda>k v d m. (None, m(k \<mapsto> v))), rds_Del = (\<lambda>k m. (None, m(k := None))),
       rds_FlushAll = (\<lambda>m. (None, Map.empty)), rds_Close = (\<lambda>m. (None, m)) \<rparr>"

interpretation mem_redis: cache_redis mem_redis "\<lambda>m. m"
  by unfold_locales (auto simp: mem_redis_def map_le_def split: option.splits)

definition new_cache :: "'w \<Rightarrow> 'w redisCache" where
  "new_cache w = \<lparr> rc_hits = 0, rc_misses = 0, rc_events = [], rc_world = w \<rparr>"

text \<open>
  Property C17.  The cache metrics tell the truth.  After any sequence of calls on a new cache the two counters
  are the numbers of hits and of misses reported, every lookup is reported exactly once as a hit, a miss
  or an error, an error counts for neither side of the ratio, each published ratio is the quotient of the
  hits and the lookups answered so far (rounded once), and one error line is logged per error reported.
\<close>

lemma cache_accounting:
  assumes "length calls < 2 ^ 53"
  shows "let c = perform_all r calls (new_cache w); evs = rc_events c in
    unat (rc_hits c) = hits evs \<and> unat (rc_misses c) = misses evs \<and>
    hits evs + misses evs + count_list evs (CacheOperations ''get'' ''error'') = length (filter is_get calls) \<and>
    (\<forall>xs q ys. evs = xs @ CacheHitRatio q # ys \<longrightarrow> q = true_ratio xs) \<and>
    (\<forall>op. count_list evs (LogFailure op) = count_list evs (CacheOperations op ''error''))"
  using perform_all_accounted [of 0 "new_cache w" calls r] assms
  by (simp add: accounted_def ratios_true_def new_cache_def Let_def)

lemma cache_accounting_witness:
  "let c = perform_all mem_redis [CallGet ''a'', CallSet ''a'' [7] 0, CallGet ''a''] (new_cache Map.empty) in
     unat (rc_hits c) = 1 \<and> unat (rc_misses c) = 1 \<and> hits (rc_events c) = 1 \<and>
     hits (rc_events c) + misses (rc_events c) + count_list (rc_events c) (CacheOperations ''get'' ''error'') = 2"
proof -
  let ?c = "perform_all mem_redis [CallGet ''a'', CallSet ''a'' [7] 0, CallGet ''a''] (new_cache Map.empty)"
  have "unat (rc_hits ?c) = 1 \<and> unat (rc_misses ?c) = 1" by code_simp
  then show ?thesis
    using cache_accounting [of "[CallGet ''a'', CallSet ''a'' [7] 0, CallGet ''a'']" mem_redis Map.empty] by (simp add: Let_def)
qed

text \<open>
  Property C11.  Resized images do not get mixed up.  An image that was stored under bucket, path and size is what a
  lookup of that bucket, path and size returns, if it returns one at all, whatever calls come in between,
  as long as none of them stores the same image again.  The keys keep images of different buckets, paths
  and sizes apart because no bucket name contains a colon, although a path may.
\<close>

lemma resized_images_kept_apart:
  assumes "cache_redis r stored"
    and "SetResizedImage r b p x y v c = (None, c1)" and "CHR '':'' \<notin> set b" and "\<forall>call\<in>set calls. leaves_image b p x y call"
    and "GetResizedImage r b p x y (perform_all r calls c1) = (Inr v', c2)"
  shows "v' = v"
  using cache_redis.image_roundtrip [OF assms(1) assms(3,4,2,5)] .

lemma resized_images_kept_apart_witness:
  "\<exists>c v'. GetResizedImage mem_redis ''b'' ''a:b.png'' 4 3
      (perform_all mem_redis [CallSetResized ''b'' ''a'' 4 3 [9], CallGet ''x''] c) = (Inr v', snd (GetResizedImage mem_redis ''b'' ''a:b.png'' 4 3
      (perform_all mem_redis [CallSetResized ''b'' ''a'' 4 3 [9], CallGet ''x''] c))) \<and> v' = [1, 2]"
proof -
  let ?c = "snd (SetResizedImage mem_redis ''b'' ''a:b.png'' 4 3 [1, 2] (new_cache Map.empty))"
  let ?g = "GetResizedImage mem_redis ''b'' ''a:b.png'' 4 3 (perform_all mem_redis [CallSetResized ''b'' ''a'' 4 3 [9], CallGet ''x''] ?c)"
  have "fst (SetResizedImage mem_redis ''b'' ''a:b.png'' 4 3 [1, 2] (new_cache Map.empty)) = None" by code_simp
  then have s: "SetResizedImage mem_redis ''b'' ''a:b.png'' 4 3 [1, 2] (new_cache Map.empty) = (None, ?c)" by (metis prod.collapse)
  have "\<not> isl (fst ?g)" by code_simp
  then obtain v' where "fst ?g = Inr v'" by (cases "fst ?g") auto
  then have g: "?g = (Inr v', snd ?g)" by (metis prod.collapse)
  have "v' = [1, 2]"
    by (rule resized_images_kept_apart [OF mem_redis.cache_redis_axioms s _ _ g]) simp_all
  with g show ?thesis by blast
qed

text \<open>A bucket with a colon in its name would share its keys with another one.\<close>

lemma colon_buckets_collide: "resize_key ''a'' ''b:c'' x y = resize_key ''a:b'' ''c'' x y"
  by (simp add: resize_key_def)

text \<open>The gauge of the cache size adds up what is written and what is read, and nothing is ever subtracted.\<close>

definition size_gauge :: "cache_event list \<Rightarrow> nat" where
  "size_gauge evs = sum_list (map (\<lambda>e. case e of CacheSize n \<Rightarrow> n | _ \<Rightarrow> 0) evs)"

lemma cache_size_counts_reads:
  "let c = perform_all mem_redis [CallSet ''a'' [1, 2, 3] 0, CallGet ''a'', CallGet ''a'', CallDelete ''a''] (new_cache Map.empty)
   in size_gauge (rc_events c) = 9 \<and> rc_world c ''a'' = None"
  by code_simp

section \<open>Connecting to Redis\<close>

text \<open>
  Whether the cache client exists depends on \<open>REDIS_URL\<close> alone.  A URL that parses yields a usable
  service even when Redis does not answer; the error is reported beside it, exactly when all three
  pings failed, and nothing is pinged for a URL that does not parse.
\<close>

lemma cache_client_survives_outage:
  "case NewCacheService env ParseURL r w of
     (None, err) \<Rightarrow> ParseURL (GetEnvOrDefault env ''REDIS_URL'' ''redis://cdn-redis:6379'') \<noteq> None \<and> err \<noteq> None
   | (Some c, err) \<Rightarrow>
       ParseURL (GetEnvOrDefault env ''REDIS_URL'' ''redis://cdn-redis:6379'') = None \<and> rc_events c = [] \<and>
       (err \<noteq> None \<longleftrightarrow> (\<forall>n<3. fst (rds_Ping r (((\<lambda>w. snd (rds_Ping r w)) ^^ n) w)) \<noteq> None))"
proof -
  have ping: "fst (ping_redis r (Suc n) err w) \<noteq> None \<longleftrightarrow> (\<forall>m<Suc n. fst (rds_Ping r (((\<lambda>w. snd (rds_Ping r w)) ^^ m) w)) \<noteq> None)"
    for n err w
  proof (induction n arbitrary: err w)
    case 0
    then show ?case by (simp split: prod.split option.split)
  next
    case (Suc n)
    obtain e w1 where p: "rds_Ping r w = (e, w1)" by fastforce
    have "(\<forall>m<Suc (Suc n). fst (rds_Ping r (((\<lambda>w. snd (rds_Ping r w)) ^^ m) w)) \<noteq> None) \<longleftrightarrow>
        e \<noteq> None \<and> (\<forall>m<Suc n. fst (rds_Ping r (((\<lambda>w. snd (rds_Ping r w)) ^^ m) w1)) \<noteq> None)"
      using p unfolding All_less_Suc2 [of "Suc n"] by (simp add: funpow_Suc_right del: funpow.simps(2))
    then show ?case using Suc.IH [of e w1] p
      by (cases e) (simp_all only: ping_redis.simps(2) [of r "Suc n"] prod.case option.case, simp_all)
  qed
  show ?thesis
    using ping [of 2 None w]
    by (auto simp: NewCacheService_def cacheConnectAttempts_def numeral_3_eq_3 numeral_2_eq_2 split: option.split prod.split)
qed

end
