(* ===== verification/Rate_Limiter.thy ===== *)
theory Rate_Limiter
  imports Access_Control Cache
begin

text \<open>
  The rate limiters of \<open>pkg/middleware\<close>: the Redis storage adapter, how the limiter is set up at boot and
  when it is left out, the in-memory variants, and the security chain.  The limiter of the web framework
  is not in the repository: what is modelled is the configuration it is given.
\<close>

section \<open>The storage adapter\<close>

definition NewRedisStorage ::
  "env \<Rightarrow> (string \<Rightarrow> gerror option) \<Rightarrow> 'w redis \<Rightarrow> 'w \<Rightarrow> 'w redisCache result \<times> 'w" where
  "NewRedisStorage env ParseURL r w =
     (case NewCacheService env ParseURL r w of
        (None, Some err) \<Rightarrow> (Inl err, w)
      | (None, None) \<Rightarrow> (Inl (RuntimePanic ''nil cache''), w)
      | (Some cache, Some err) \<Rightarrow> (Inl err, rc_world cache)
      | (Some cache, None) \<Rightarrow> (Inr cache, rc_world cache))"

definition StorageGet :: "'w redis \<Rightarrow> string \<Rightarrow> 'w redisCache \<Rightarrow> bytes option result \<times> 'w redisCache" where
  "StorageGet r key c = (RedisGet (\<lambda>k. fst (CacheGet r k c)) key, snd (CacheGet r (sanitizeKey key) c))"

definition StorageSet :: "'w redis \<Rightarrow> string \<Rightarrow> bytes \<Rightarrow> duration \<Rightarrow> 'w redisCache \<Rightarrow> gerror option \<times> 'w redisCache" where
  "StorageSet r key val expiration c = CacheSet r (sanitizeKey key) val expiration c"

definition StorageDelete :: "'w redis \<Rightarrow> string \<Rightarrow> 'w redisCache \<Rightarrow> gerror option \<times> 'w redisCache" where
  "StorageDelete r key c = CacheDelete r (sanitizeKey key) c"

definition StorageReset :: "'w redis \<Rightarrow> 'w redisCache \<Rightarrow> gerror option \<times> 'w redisCache" where
  "StorageReset r c = CacheFlushAll r c"

definition StorageClose :: "'w redisCache \<Rightarrow> gerror option \<times> 'w redisCache" where
  "StorageClose c = (None, c)"

section \<open>The limiters\<close>

abbreviation minute :: duration where
  "minute \<equiv> 60000000000"

text \<open>
  \<open>limiter.Config\<close>: the limit and its window, the key a request is counted under in the state the server
  is in when it arrives, the paths that are skipped, and the error a refused request is told.
\<close>

record limiter_config =
  lc_Max :: int
  lc_Expiration :: duration
  lc_Key :: "server \<Rightarrow> request \<Rightarrow> string"
  lc_Next :: "string \<Rightarrow> bool"
  lc_Refusal :: string

text \<open>A handler that lets everything through, or the limiter over its own Redis client or over memory.\<close>

datatype 'w limiter = FailOpen | Stored limiter_config "'w redisCache" | InMemory limiter_config

text \<open>The loop \<open>for attempt <= 3\<close> over the attempts left; every attempt makes a client of its own.\<close>

fun storage_attempts ::
  "env \<Rightarrow> (string \<Rightarrow> gerror option) \<Rightarrow> 'w redis \<Rightarrow> nat \<Rightarrow> gerror \<Rightarrow> 'w \<Rightarrow> 'w redisCache result \<times> 'w" where
  "storage_attempts env ParseURL r 0 err w = (Inl err, w)"
| "storage_attempts env ParseURL r (Suc n) err w =
     (case NewRedisStorage env ParseURL r w of
        (Inr storage, w) \<Rightarrow> (Inr storage, w)
      | (Inl err, w) \<Rightarrow> storage_attempts env ParseURL r n err w)"

definition NewAdvancedRateLimiter ::
  "env \<Rightarrow> (string \<Rightarrow> gerror option) \<Rightarrow> 'w redis \<Rightarrow> int \<Rightarrow> duration \<Rightarrow> 'w \<Rightarrow> 'w limiter \<times> 'w" where
  "NewAdvancedRateLimiter env ParseURL r maxRequests window w =
     (case storage_attempts env ParseURL r 3 (ErrorString '''') w of
        (Inl err, w) \<Rightarrow> (FailOpen, w)
      | (Inr storage, w) \<Rightarrow>
          (Stored \<lparr> lc_Max = maxRequests, lc_Expiration = window, lc_Key = RateLimitKey,
             lc_Next = (\<lambda>_. False), lc_Refusal = ''Rate limit exceeded'' \<rparr> storage, w))"

definition DefaultAdvancedRateLimiter ::
  "env \<Rightarrow> (string \<Rightarrow> gerror option) \<Rightarrow> 'w redis \<Rightarrow> 'w \<Rightarrow> 'w limiter \<times> 'w" where
  "DefaultAdvancedRateLimiter env ParseURL r w =
     NewAdvancedRateLimiter env ParseURL r (GetEnvAsIntOrDefault env ''RATE_LIMIT'' 100) minute w"

definition RateLimiterConfig :: "env \<Rightarrow> limiter_config" where
  "RateLimiterConfig env =
     \<lparr> lc_Max = GetEnvAsIntOrDefault env ''RATE_LIMIT'' 100,
       lc_Expiration = word_of_int (GetEnvAsIntOrDefault env ''RATE_LIMIT_DURATION'' 1) * minute,
       lc_Key = (\<lambda>_. ClientIP), lc_Next = (\<lambda>_. False),
       lc_Refusal = ''Rate limit exceeded. Please try again later.'' \<rparr>"

definition NewRateLimiter :: "env \<Rightarrow> int \<Rightarrow> duration \<Rightarrow> 'w limiter" where
  "NewRateLimiter env maxRequests window =
     InMemory ((RateLimiterConfig env)\<lparr>lc_Max := maxRequests, lc_Expiration := window\<rparr>)"

definition DefaultRateLimiter :: "env \<Rightarrow> 'w limiter" where
  "DefaultRateLimiter env = InMemory (RateLimiterConfig env)"

section \<open>The security chain\<close>

record RateLimitConfig =
  rl_MaxRequests :: int
  rl_WindowDuration :: duration
  rl_ExemptedPaths :: "string list"
  rl_UploadLimit :: int
  rl_UploadWindow :: duration
  rl_DeleteLimit :: int
  rl_DeleteWindow :: duration

record CORSConfig =
  co_AllowOrigins :: "string list"
  co_AllowMethods :: "string list"
  co_AllowHeaders :: "string list"
  co_ExposeHeaders :: "string list"
  co_MaxAge :: int
  co_AllowCredentials :: bool

record SecurityConfig =
  sc_Token :: string
  sc_RateLimit :: RateLimitConfig
  sc_CORS :: CORSConfig
  sc_TrustedProxies :: "string list"
  sc_MaxRequestBodySize :: int
  sc_RequestTimeout :: duration

definition DefaultSecurityConfig :: SecurityConfig where
  "DefaultSecurityConfig =
     \<lparr> sc_Token = '''',
       sc_RateLimit =
         \<lparr> rl_MaxRequests = 100, rl_WindowDuration = minute, rl_ExemptedPaths = [''/health'', ''/metrics''],
           rl_UploadLimit = 10, rl_UploadWindow = minute, rl_DeleteLimit = 20, rl_DeleteWindow = minute \<rparr>,
       sc_CORS =
         \<lparr> co_AllowOrigins = [''*''], co_AllowMethods = [''GET'', ''POST'', ''PUT'', ''DELETE'', ''OPTIONS''],
           co_AllowHeaders = [''Origin'', ''Content-Type'', ''Accept'', ''Authorization''],
           co_ExposeHeaders = [''Content-Length''], co_MaxAge = 86400, co_AllowCredentials = True \<rparr>,
       sc_TrustedProxies = [''127.0.0.1''], sc_MaxRequestBodySize = 100 * 1024 * 1024,
       sc_RequestTimeout = 30000000000 \<rparr>"

definition UploadLimiter :: "RateLimitConfig \<Rightarrow> 'w limiter" where
  "UploadLimiter cfg = InMemory
     \<lparr> lc_Max = rl_UploadLimit cfg, lc_Expiration = rl_UploadWindow cfg, lc_Key = (\<lambda>_ c. ClientIP c @ '':upload''),
       lc_Next = (\<lambda>_. False), lc_Refusal = ''Upload rate limit exceeded'' \<rparr>"

definition DeleteLimiter :: "RateLimitConfig \<Rightarrow> 'w limiter" where
  "DeleteLimiter cfg = InMemory
     \<lparr> lc_Max = rl_DeleteLimit cfg, lc_Expiration = rl_DeleteWindow cfg, lc_Key = (\<lambda>_ c. ClientIP c @ '':delete''),
       lc_Next = (\<lambda>_. False), lc_Refusal = ''Delete rate limit exceeded'' \<rparr>"

text \<open>\<open>strings.Join(xs, ",")\<close>.\<close>

fun join_list :: "string list \<Rightarrow> string" where
  "join_list [] = ''''"
| "join_list [x] = x"
| "join_list (x # y # ys) = x @ '','' @ join_list (y # ys)"

record cors_options =
  cr_AllowOrigins :: string
  cr_AllowMethods :: string
  cr_AllowHeaders :: string
  cr_ExposeHeaders :: string
  cr_MaxAge :: int
  cr_AllowCredentials :: bool

definition security_auth :: "SecurityConfig \<Rightarrow> request \<Rightarrow> gate_answer" where
  "security_auth cfg c =
     (let token = rq_Authorization c;
          token = (if token = '''' then rq_QueryToken c else token)
      in if token \<noteq> sc_Token cfg then Refuse 401 ErrInvalidToken else Pass c)"

text \<open>The four handlers of the chain, in order.\<close>

definition SecurityMiddleware ::
  "SecurityConfig \<Rightarrow> cors_options \<times> 'w limiter \<times> 'w limiter \<times> (request \<Rightarrow> gate_answer)" where
  "SecurityMiddleware cfg =
     (\<lparr> cr_AllowOrigins = join_list (co_AllowOrigins (sc_CORS cfg)), cr_AllowMethods = join_list (co_AllowMethods (sc_CORS cfg)),
        cr_AllowHeaders = join_list (co_AllowHeaders (sc_CORS cfg)), cr_ExposeHeaders = join_list (co_ExposeHeaders (sc_CORS cfg)),
        cr_MaxAge = co_MaxAge (sc_CORS cfg), cr_AllowCredentials = co_AllowCredentials (sc_CORS cfg) \<rparr>,
      InMemory \<lparr> lc_Max = rl_MaxRequests (sc_RateLimit cfg), lc_Expiration = rl_WindowDuration (sc_RateLimit cfg),
        lc_Key = (\<lambda>_. ClientIP), lc_Next = (\<lambda>path. \<exists>p\<in>set (rl_ExemptedPaths (sc_RateLimit cfg)). HasPrefix path p),
        lc_Refusal = ''Rate limit exceeded'' \<rparr>,
      InMemory \<lparr> lc_Max = rl_UploadLimit (sc_RateLimit cfg), lc_Expiration = rl_UploadWindow (sc_RateLimit cfg),
        lc_Key = (\<lambda>_ c. ClientIP c @ '':upload''), lc_Next = (\<lambda>path. \<not> HasPrefix path ''/upload''),
        lc_Refusal = ''Upload rate limit exceeded'' \<rparr>,
      security_auth cfg)"

section \<open>Properties\<close>

text \<open>Redis is down for a number of pings in a row.\<close>

definition silent :: "'w redis \<Rightarrow> nat \<Rightarrow> 'w \<Rightarrow> bool" where
  "silent r n w \<longleftrightarrow> (\<forall>m<n. fst (rds_Ping r (((\<lambda>w. snd (rds_Ping r w)) ^^ m) w)) \<noteq> None)"

lemma silent_simps [simp]:
  "silent r 0 w"
  "silent r (Suc n) w \<longleftrightarrow> fst (rds_Ping r w) \<noteq> None \<and> silent r n (snd (rds_Ping r w))"
  unfolding silent_def All_less_Suc2 by (simp_all add: funpow_Suc_right del: funpow.simps(2))

lemma NewRedisStorage_refuses:
  assumes "NewRedisStorage env ParseURL r w = (x, w')"
  shows "(\<exists>err. x = Inl err) \<longleftrightarrow> ParseURL (GetEnvOrDefault env ''REDIS_URL'' ''redis://cdn-redis:6379'') \<noteq> None \<or> silent r 3 w"
    and "ParseURL (GetEnvOrDefault env ''REDIS_URL'' ''redis://cdn-redis:6379'') = None \<Longrightarrow> silent r 3 w \<Longrightarrow>
      w' = ((\<lambda>w. snd (rds_Ping r w)) ^^ 3) w"
  using assms
  by (auto simp: NewRedisStorage_def NewCacheService_def cacheConnectAttempts_def numeral_3_eq_3
      split: option.splits prod.splits)

lemma silent_add: "silent r (m + n) w \<longleftrightarrow> silent r m w \<and> silent r n (((\<lambda>w. snd (rds_Ping r w)) ^^ m) w)"
  by (induction m arbitrary: w) (simp_all add: funpow_Suc_right del: funpow.simps(2))

lemma storage_attempts_refuses:
  "storage_attempts env ParseURL r n err w = (x, w') \<Longrightarrow>
   (\<exists>err. x = Inl err) \<longleftrightarrow> ParseURL (GetEnvOrDefault env ''REDIS_URL'' ''redis://cdn-redis:6379'') \<noteq> None \<or> silent r (3 * n) w"
proof (induction n arbitrary: err w)
  case (Suc n)
  obtain y w1 where one: "NewRedisStorage env ParseURL r w = (y, w1)" by fastforce
  note refuses = NewRedisStorage_refuses [OF one]
  have "silent r (3 * Suc n) w \<longleftrightarrow> silent r 3 w \<and> silent r (3 * n) (((\<lambda>w. snd (rds_Ping r w)) ^^ 3) w)"
    using silent_add [of r 3 "3 * n" w] by simp
  then show ?case using Suc.IH [of _ w1] Suc.prems one refuses by (cases y) auto
qed auto

text \<open>
  Property C32.  The limiter made at boot can be one that limits nothing.  That is so exactly when the Redis URL does
  not parse or nine pings in a row fail, three for each of the three clients it tries.  The cache of the
  same process is without a client only in the first of these cases: when Redis is silent for nine
  pings, the cache keeps its client while the limiter is left out.
\<close>

lemma limiter_fails_open_for_good:
  "(fst (NewAdvancedRateLimiter env ParseURL r maxRequests window w) = FailOpen \<longleftrightarrow>
      (case ParseURL (GetEnvOrDefault env ''REDIS_URL'' ''redis://cdn-redis:6379'') of
         Some err \<Rightarrow> True
       | None \<Rightarrow> silent r 9 w)) \<and>
   (fst (NewCacheService env ParseURL r w) = None \<longleftrightarrow>
      ParseURL (GetEnvOrDefault env ''REDIS_URL'' ''redis://cdn-redis:6379'') \<noteq> None)"
proof -
  obtain x w' where s: "storage_attempts env ParseURL r 3 (ErrorString '''') w = (x, w')" by fastforce
  show ?thesis using storage_attempts_refuses [OF s] s
    by (cases x) (auto simp: NewAdvancedRateLimiter_def NewCacheService_def split: option.split prod.split)
qed

text \<open>
  What the limiters of all requests do with the storage they share: calls made for a request, under the
  key it is counted under.
\<close>

datatype storage_call =
    CounterRead server request
  | CounterWrite server request bytes duration
  | CounterDrop server request
  | CountersReset

fun perform_storage :: "'w redis \<Rightarrow> storage_call \<Rightarrow> 'w redisCache \<Rightarrow> 'w redisCache" where
  "perform_storage r (CounterRead sv c) s = snd (StorageGet r (RateLimitKey sv c) s)"
| "perform_storage r (CounterWrite sv c v d) s = snd (StorageSet r (RateLimitKey sv c) v d s)"
| "perform_storage r (CounterDrop sv c) s = snd (StorageDelete r (RateLimitKey sv c) s)"
| "perform_storage r CountersReset s = snd (StorageReset r s)"

definition perform_calls :: "'w redis \<Rightarrow> storage_call list \<Rightarrow> 'w redisCache \<Rightarrow> 'w redisCache" where
  "perform_calls r calls s = fold (perform_storage r) calls s"

text \<open>An IPv4 client of a server whose tokens are for buckets with valid names.\<close>

definition ipv4_client :: "server \<Rightarrow> request \<Rightarrow> bool" where
  "ipv4_client sv c \<longleftrightarrow> dotted (ClientIP c) \<and> (\<forall>name\<in>dom (sv_tokens sv). namePattern name)"

text \<open>A call that writes no counter, or that of another client or of another verified identity.\<close>

fun other_counter :: "server \<Rightarrow> request \<Rightarrow> storage_call \<Rightarrow> bool" where
  "other_counter sv c (CounterWrite sv' c' v d) \<longleftrightarrow>
     ipv4_client sv' c' \<and> (ClientIP c', rate_identity sv' c') \<noteq> (ClientIP c, rate_identity sv c)"
| "other_counter sv c _ \<longleftrightarrow> True"

context cache_redis
begin

lemma perform_storage_holds:
  assumes "ipv4_client sv c" and "other_counter sv c call" and "cache.holds (sanitizeKey (RateLimitKey sv c)) v s"
  shows "cache.holds (sanitizeKey (RateLimitKey sv c)) v (perform_storage r call s)"
proof (cases call)
  case (CounterWrite sv' c' v' d)
  then have "sanitizeKey (RateLimitKey sv' c') \<noteq> sanitizeKey (RateLimitKey sv c)"
    using assms(1,2) counters_separate [of c' c sv' sv] by (auto simp: ipv4_client_def)
  then show ?thesis using CounterWrite holds_after(2) [OF assms(3)] by (simp add: StorageSet_def)
qed (use holds_after [OF assms(3)] in \<open>simp_all add: StorageGet_def StorageDelete_def StorageReset_def\<close>)

lemma perform_calls_holds:
  "ipv4_client sv c \<Longrightarrow> list_all (other_counter sv c) calls \<Longrightarrow> cache.holds (sanitizeKey (RateLimitKey sv c)) v s \<Longrightarrow>
   cache.holds (sanitizeKey (RateLimitKey sv c)) v (perform_calls r calls s)"
  by (induction calls arbitrary: s) (simp_all add: perform_calls_def perform_storage_holds)

lemma counter_roundtrip:
  assumes "ipv4_client sv c" and "list_all (other_counter sv c) calls"
    and "StorageSet r (RateLimitKey sv c) v window s = (None, s1)"
    and "CacheGet r (sanitizeKey (RateLimitKey sv c)) (perform_calls r calls s1) = (Inr v', s2)"
  shows "v' = v"
proof -
  have "cache.holds (sanitizeKey (RateLimitKey sv c)) v s1"
    using assms(3) by (intro cache.holds_after_set) (simp add: StorageSet_def)
  from cache.holds_read [OF perform_calls_holds [OF assms(1,2) this] assms(4)] show ?thesis .
qed

end



text \<open>The chain's defaults: no token is needed, and an exempted path exempts everything it is a prefix of.\<close>

lemma default_chain_admits:
  "security_auth DefaultSecurityConfig (c\<lparr>rq_Authorization := '''', rq_QueryToken := ''''\<rparr>) =
     Pass (c\<lparr>rq_Authorization := '''', rq_QueryToken := ''''\<rparr>)"
  "case SecurityMiddleware DefaultSecurityConfig of (_, InMemory cfg, _, _) \<Rightarrow> lc_Next cfg ''/healthy-photos/a.png'' | _ \<Rightarrow> False"
  by (simp_all add: security_auth_def SecurityMiddleware_def DefaultSecurityConfig_def)

end
