(* ===== verification/Monitoring.thy ===== *)
theory Monitoring
  imports Glacier Cache
begin

text \<open>
  The operator's view: \<open>handler/minio.go\<close> (buckets), \<open>handler/health.go\<close> (the health check),
  \<open>service/stats.go\<close> and \<open>handler/websocket.go\<close> (statistics and their stream), and the request metrics of
  \<open>pkg/observability/middleware.go\<close>.
\<close>

section \<open>Buckets\<close>

record 'w minio_admin = "'w object_store" +
  RemoveBucketCall :: "string \<Rightarrow> 'w \<Rightarrow> gerror option \<times> 'w"

datatype minio_data = Buckets "string list" | BucketName string

text \<open>On an error the list of the client is nil.\<close>

definition BucketList_minio :: "(gerror \<Rightarrow> string) \<Rightarrow> 'w minio_admin \<Rightarrow> 'w \<Rightarrow> minio_data reply \<times> 'w" where
  "BucketList_minio text m w =
     (case ListBuckets m w of
        (Inl err, w) \<Rightarrow> (json 200 False (text err) None, w)
      | (Inr buckets, w) \<Rightarrow> (json 200 True ''buckets listed'' (Some (Buckets buckets)), w))"

definition BucketExists_minio :: "(gerror \<Rightarrow> string) \<Rightarrow> 'w minio_admin \<Rightarrow> string \<Rightarrow> 'w \<Rightarrow> minio_data reply \<times> 'w" where
  "BucketExists_minio text m bucketName w =
     (case BucketExists m bucketName w of
        (Inl err, w) \<Rightarrow> (json 404 False (text err) None, w)
      | (Inr there, w) \<Rightarrow>
          (if \<not> there then (json 404 False ''bucket not found'' None, w)
           else (json 200 True ''bucket exists'' None, w)))"

definition CreateBucket_minio :: "(gerror \<Rightarrow> string) \<Rightarrow> 'w minio_admin \<Rightarrow> string \<Rightarrow> 'w \<Rightarrow> minio_data reply \<times> 'w" where
  "CreateBucket_minio text m bucketName w =
     (case MakeBucket m bucketName w of
        (Some err, w) \<Rightarrow> (json 200 False (text err) (Some (BucketName bucketName)), w)
      | (None, w) \<Rightarrow> (json 201 True ''bucket created'' (Some (BucketName bucketName)), w))"

definition RemoveBucket_minio :: "(gerror \<Rightarrow> string) \<Rightarrow> 'w minio_admin \<Rightarrow> string \<Rightarrow> 'w \<Rightarrow> minio_data reply \<times> 'w" where
  "RemoveBucket_minio text m bucketName w =
     (case RemoveBucketCall m bucketName w of
        (Some err, w) \<Rightarrow> (json 200 False (text err) (Some (BucketName bucketName)), w)
      | (None, w) \<Rightarrow> (json 200 True ''bucket deleted'' (Some (BucketName bucketName)), w))"

section \<open>Health\<close>

record 'w health_checker =
  hc_minio :: "'w object_store"
  hc_aws :: "'w s3_sdk"
  hc_redis :: "'w redis"
  hc_text :: "gerror \<Rightarrow> string"

record health =
  he_Status :: string
  he_Minio :: string
  he_Aws :: string
  he_Cache :: string

definition isCoreHealthy :: "string \<Rightarrow> string \<Rightarrow> bool" where
  "isCoreHealthy minioHealth cacheHealth \<longleftrightarrow> minioHealth = ''healthy'' \<and> cacheHealth = ''healthy''"

definition checkMinioHealth :: "'w health_checker \<Rightarrow> 'w \<Rightarrow> string \<times> 'w" where
  "checkMinioHealth h w =
     (case ListBuckets (hc_minio h) w of
        (Inl err, w) \<Rightarrow> (''unhealthy: '' @ hc_text h err, w)
      | (Inr _, w) \<Rightarrow> (''healthy'', w))"

definition checkAwsHealth :: "'w health_checker \<Rightarrow> 'w \<Rightarrow> string \<times> 'w" where
  "checkAwsHealth h w =
     (case AwsListBuckets (hc_aws h) w of
        ((_, Some err), w) \<Rightarrow> (''unhealthy: '' @ hc_text h err, w)
      | ((_, None), w) \<Rightarrow> (''healthy'', w))"

definition second :: duration where
  "second = 1000000000"

text \<open>The cache is nil when its URL did not parse.\<close>

definition checkCacheHealth :: "'w health_checker \<Rightarrow> 'w redisCache option \<Rightarrow> string \<times> 'w redisCache option" where
  "checkCacheHealth h cache =
     (case cache of
        None \<Rightarrow> (''unhealthy: cache not configured'', None)
      | Some c \<Rightarrow>
          (case CacheSet (hc_redis h) ''health:test'' [0x74, 0x65, 0x73, 0x74] second c of
             (Some err, c) \<Rightarrow> (''unhealthy: set failed - '' @ hc_text h err, Some c)
           | (None, c) \<Rightarrow>
               (case CacheGet (hc_redis h) ''health:test'' c of
                  (Inl err, c) \<Rightarrow> (''unhealthy: get failed - '' @ hc_text h err, Some c)
                | (Inr _, c) \<Rightarrow> (''healthy'', Some c))))"

text \<open>The three checks in order, over one world.\<close>

definition HealthCheck :: "'w health_checker \<Rightarrow> 'w redisCache option \<Rightarrow> 'w \<Rightarrow> health reply \<times> 'w redisCache option \<times> 'w" where
  "HealthCheck h cache w =
     (case checkMinioHealth h w of (minioHealth, w) \<Rightarrow>
      (case checkAwsHealth h w of (awsHealth, w) \<Rightarrow>
      (case checkCacheHealth h (map_option (\<lambda>c. c\<lparr>rc_world := w\<rparr>) cache) of (cacheHealth, cache) \<Rightarrow>
        (let (overallStatus, statusCode) =
           (if \<not> isCoreHealthy minioHealth cacheHealth then (''degraded'', 503) else (''healthy'', 200))
         in (json statusCode True ''Health check''
               (Some \<lparr> he_Status = overallStatus, he_Minio = minioHealth, he_Aws = awsHealth, he_Cache = cacheHealth \<rparr>),
             cache, case cache of None \<Rightarrow> w | Some c \<Rightarrow> rc_world c)))))"

section \<open>Statistics\<close>

record StatsService =
  st_activeUploads :: "32 word"
  st_uploadBytes :: "64 word"
  st_cacheHits :: "32 word"
  st_cacheMisses :: "32 word"
  st_errors :: "string list"
  st_startTime :: int

definition NewStatsService :: "int \<Rightarrow> StatsService" where
  "NewStatsService now =
     \<lparr> st_activeUploads = 0, st_uploadBytes = 0, st_cacheHits = 0, st_cacheMisses = 0, st_errors = [], st_startTime = now \<rparr>"

definition IncrementActiveUploads :: "StatsService \<Rightarrow> StatsService" where
  "IncrementActiveUploads s = s\<lparr>st_activeUploads := st_activeUploads s + 1\<rparr>"

definition DecrementActiveUploads :: "StatsService \<Rightarrow> StatsService" where
  "DecrementActiveUploads s = s\<lparr>st_activeUploads := st_activeUploads s - 1\<rparr>"

definition AddUploadBytes :: "64 word \<Rightarrow> StatsService \<Rightarrow> StatsService" where
  "AddUploadBytes n s = s\<lparr>st_uploadBytes := st_uploadBytes s + n\<rparr>"

definition IncrementCacheHit :: "StatsService \<Rightarrow> StatsService" where
  "IncrementCacheHit s = s\<lparr>st_cacheHits := st_cacheHits s + 1\<rparr>"

definition IncrementCacheMiss :: "StatsService \<Rightarrow> StatsService" where
  "IncrementCacheMiss s = s\<lparr>st_cacheMisses := st_cacheMisses s + 1\<rparr>"

definition LogError :: "string \<Rightarrow> StatsService \<Rightarrow> StatsService" where
  "LogError err s =
     (let s = s\<lparr>st_errors := st_errors s @ [err]\<rparr> in
      if 100 < length (st_errors s) then s\<lparr>st_errors := tl (st_errors s)\<rparr> else s)"

definition GetActiveUploads :: "StatsService \<Rightarrow> int" where
  "GetActiveUploads s = sint (st_activeUploads s)"

text \<open>\<open>Duration.Seconds\<close>: whole seconds and nanoseconds, converted apart.\<close>

definition Seconds :: "int \<Rightarrow> float64" where
  "Seconds d =
     (case (float_of_int (sgn d * (\<bar>d\<bar> div 1000000000)),
            float_div (float_of_int (sgn d * (\<bar>d\<bar> mod 1000000000))) (float_of_int 1000000000)) of
        (Fin x, Fin y) \<Rightarrow> Fin (f64 (x + y))
      | _ \<Rightarrow> NaN)"

definition GetUploadSpeed :: "int \<Rightarrow> StatsService \<Rightarrow> float64" where
  "GetUploadSpeed now s =
     (let totalBytes = sint (st_uploadBytes s); d = Seconds (time_sub now (st_startTime s))
      in if d = Fin 0 then Fin 0 else float_div (float_of_int totalBytes) d)"

definition GetCacheHitRate :: "StatsService \<Rightarrow> float64" where
  "GetCacheHitRate s =
     (let hits = st_cacheHits s; misses = st_cacheMisses s; total = hits + misses
      in if total = 0 then Fin 0
         else float_mul (float_div (float_of_int (sint hits)) (float_of_int (sint total))) (Fin 100))"

text \<open>What the runtime and the host answer.\<close>

record host =
  ho_now :: int
  ho_Percent :: "float64 list option"
  ho_Alloc :: "64 word"
  ho_Sys :: "64 word"
  ho_Partitions :: "string list option"
  ho_Usage :: "string \<Rightarrow> int option"

definition GetCPUUsage :: "host \<Rightarrow> float64" where
  "GetCPUUsage ho = (case ho_Percent ho of None \<Rightarrow> Fin 0 | Some [] \<Rightarrow> Fin 0 | Some (p # _) \<Rightarrow> p)"

definition GetMemoryUsage :: "host \<Rightarrow> float64" where
  "GetMemoryUsage ho = float_mul (float_div (float_of (ho_Alloc ho)) (float_of (ho_Sys ho))) (Fin 100)"

fun disk_usage :: "(string \<Rightarrow> int option) \<Rightarrow> string list \<Rightarrow> (string \<rightharpoonup> int) \<Rightarrow> string \<rightharpoonup> int" where
  "disk_usage usage_of [] usage = usage"
| "disk_usage usage_of (p # ps) usage =
     disk_usage usage_of ps (case usage_of p of None \<Rightarrow> usage(p \<mapsto> 0) | Some percent \<Rightarrow> usage(p \<mapsto> percent))"

definition GetDiskUsage :: "host \<Rightarrow> string \<rightharpoonup> int" where
  "GetDiskUsage ho = (case ho_Partitions ho of None \<Rightarrow> Map.empty | Some ps \<Rightarrow> disk_usage (ho_Usage ho) ps Map.empty)"

definition GetRecentErrors :: "StatsService \<Rightarrow> string list" where
  "GetRecentErrors s = st_errors s"

section \<open>The statistics stream\<close>

record MonitoringStats =
  mo_ActiveUploads :: int
  mo_UploadSpeed :: float64
  mo_CacheHitRate :: float64
  mo_CPUUsage :: float64
  mo_MemoryUsage :: float64
  mo_DiskUsage :: "string \<rightharpoonup> int"
  mo_Errors :: "string list"

text \<open>The time stamp is left out; without a service every field keeps its zero value.\<close>

definition collectStats :: "StatsService option \<Rightarrow> host \<Rightarrow> MonitoringStats" where
  "collectStats stats ho =
     (case stats of
        None \<Rightarrow>
          \<lparr> mo_ActiveUploads = 0, mo_UploadSpeed = Fin 0, mo_CacheHitRate = Fin 0, mo_CPUUsage = Fin 0,
            mo_MemoryUsage = Fin 0, mo_DiskUsage = Map.empty, mo_Errors = [] \<rparr>
      | Some s \<Rightarrow>
          \<lparr> mo_ActiveUploads = GetActiveUploads s, mo_UploadSpeed = GetUploadSpeed (ho_now ho) s,
            mo_CacheHitRate = GetCacheHitRate s, mo_CPUUsage = GetCPUUsage ho,
            mo_MemoryUsage = GetMemoryUsage ho, mo_DiskUsage = GetDiskUsage ho, mo_Errors = GetRecentErrors s \<rparr>)"

definition MonitorStats_endpoint :: "StatsService option \<Rightarrow> host \<Rightarrow> MonitoringStats reply" where
  "MonitorStats_endpoint stats ho = json 200 True ''Current monitoring stats'' (Some (collectStats stats ho))"

text \<open>\<open>json.Marshal\<close> refuses a float that is no number or infinite, and nothing else here.\<close>

definition marshals :: "MonitoringStats \<Rightarrow> bool" where
  "marshals m \<longleftrightarrow>
     (\<forall>x\<in>{mo_UploadSpeed m, mo_CacheHitRate m, mo_CPUUsage m, mo_MemoryUsage m}. x \<notin> {Infinite, NaN})"

text \<open>
  One turn of the loop per round of the connection: the statistics it sees and whether the write goes
  through.  The first component is what was sent, the second how the loop ended: \<open>True\<close> when a
  write failed, \<open>False\<close> when the given rounds are over and it still runs.
\<close>

fun stream_rounds :: "(MonitoringStats \<times> bool) list \<Rightarrow> MonitoringStats list \<times> bool" where
  "stream_rounds [] = ([], False)"
| "stream_rounds ((stats, writes) # rounds) =
     (if \<not> marshals stats then stream_rounds rounds
      else if \<not> writes then ([], True)
      else (case stream_rounds rounds of (sent, over) \<Rightarrow> (stats # sent, over)))"

text \<open>The connection is registered before the loop and removed once it is over.\<close>

definition HandleWebSocket ::
  "'c \<Rightarrow> (MonitoringStats \<times> bool) list \<Rightarrow> 'c set \<Rightarrow> MonitoringStats list \<times> 'c set" where
  "HandleWebSocket conn rounds clients =
     (let clients = insert conn clients in
      case stream_rounds rounds of (sent, over) \<Rightarrow> (sent, if over then clients - {conn} else clients))"

section \<open>Request metrics\<close>

text \<open>
  \<open>PrometheusMiddleware\<close>: the counter of method, matched route pattern and status is moved after the rest of the
  chain has run, with the status the response has at that moment.
\<close>

definition PrometheusMiddleware ::
  "string \<Rightarrow> ('w \<Rightarrow> (gerror option \<times> string \<times> nat) \<times> 'w) \<Rightarrow> 'w \<Rightarrow> gerror option \<times> (string \<times> string \<times> string) \<times> 'w" where
  "PrometheusMiddleware method next w =
     (case next w of ((chainErr, route, status), w) \<Rightarrow> (chainErr, (method, route, Itoa (int status)), w))"

section \<open>Rates are numbers\<close>

lemma sint32_bounds: "\<bar>sint (x :: 32 word)\<bar> < 2 ^ 53"
  using sint_greater_eq [of x] sint_less [of x] by simp

lemma Seconds_finite: "\<exists>q. Seconds d = Fin q"
proof -
  have "float_of_int 1000000000 = Fin 1000000000" using float_of_int_small [of 1000000000] by simp
  moreover have "\<exists>q. (case (Fin x, float_div (Fin y) (Fin 1000000000)) of (Fin x, Fin y) \<Rightarrow> Fin (f64 (x + y)) | _ \<Rightarrow> NaN) = Fin q" for x y
    by simp
  ultimately show ?thesis unfolding Seconds_def float_of_int_def by (simp only:)
qed

text \<open>
  With a finite load figure and some memory from the system, every figure collected is finite: divisions by
  zero are caught before they happen.
\<close>

lemma collected_stats_marshal:
  assumes "GetCPUUsage ho \<notin> {Infinite, NaN}" and "ho_Sys ho \<noteq> 0"
  shows "marshals (collectStats (Some s) ho)"
proof -
  obtain d where d: "Seconds (time_sub (ho_now ho) (st_startTime s)) = Fin d" using Seconds_finite by blast
  have speed: "\<exists>q. GetUploadSpeed (ho_now ho) s = Fin q"
    by (cases "d = 0") (simp_all add: GetUploadSpeed_def d float_of_int_def)
  have "sint x \<noteq> 0" if "x \<noteq> 0" for x :: "32 word" using that by (simp add: signed_eq_0_iff)
  then have rate: "\<exists>q. GetCacheHitRate s = Fin q"
    by (simp add: GetCacheHitRate_def Let_def float_of_int_small [OF sint32_bounds] signed_eq_0_iff)
  have "0 < f64 (of_nat (unat (ho_Sys ho)))"
    by (rule f64_positive) (simp only: of_nat_0_less_iff unat_gt_0 assms(2) not_False_eq_True)
  then have "\<exists>q. GetMemoryUsage ho = Fin q" by (auto simp: GetMemoryUsage_def float_of_def)
  with speed rate assms(1) show ?thesis by (auto simp: marshals_def collectStats_def)
qed

section \<open>Properties\<close>

text \<open>The cache takes the test value and gives one back.\<close>

definition cache_answers :: "'w health_checker \<Rightarrow> 'w redisCache \<Rightarrow> bool" where
  "cache_answers h c \<longleftrightarrow>
     (case CacheSet (hc_redis h) ''health:test'' [0x74, 0x65, 0x73, 0x74] second c of
        (err, c) \<Rightarrow> err = None \<and> (\<exists>v. fst (CacheGet (hc_redis h) ''health:test'' c) = Inr v))"

text \<open>
  Property C25.  The health check always answers, 200 exactly when MinIO lists its buckets and the cache takes the
  test value and gives one back, and 503 otherwise.  The report says which of the three is healthy; AWS is
  reported beside the others and never decides; and a cache that could not be configured is reported
  as such, with a 503, and not dereferenced.
\<close>

lemma health_reflects_core:
  "case ListBuckets (hc_minio h) w of (answered, w1) \<Rightarrow>
   (case AwsListBuckets (hc_aws h) w1 of ((_, awsErr), w2) \<Rightarrow>
      (let minio_up = (\<exists>bs. answered = Inr bs);
           cache_up = (case cache of None \<Rightarrow> False | Some c \<Rightarrow> cache_answers h (c\<lparr>rc_world := w2\<rparr>))
       in \<exists>report. fst (HealthCheck h cache w) =
              json (if minio_up \<and> cache_up then 200 else 503) True ''Health check'' (Some report) \<and>
            he_Status report = (if minio_up \<and> cache_up then ''healthy'' else ''degraded'') \<and>
            (he_Minio report = ''healthy'' \<longleftrightarrow> minio_up) \<and> (he_Aws report = ''healthy'' \<longleftrightarrow> awsErr = None) \<and>
            (case cache of
               None \<Rightarrow> he_Cache report = ''unhealthy: cache not configured''
             | Some c \<Rightarrow> (he_Cache report = ''healthy'' \<longleftrightarrow> cache_up))))"
proof -
  obtain answered w1 where l: "ListBuckets (hc_minio h) w = (answered, w1)" by fastforce
  obtain found awsErr w2 where a: "AwsListBuckets (hc_aws h) w1 = ((found, awsErr), w2)" by (metis surj_pair)
  obtain m where m: "checkMinioHealth h w = (m, w1)" "m = ''healthy'' \<longleftrightarrow> (\<exists>bs. answered = Inr bs)"
    using l by (cases answered) (simp_all add: checkMinioHealth_def)
  obtain aws where aws: "checkAwsHealth h w1 = (aws, w2)" "aws = ''healthy'' \<longleftrightarrow> awsErr = None"
    using a by (cases awsErr) (simp_all add: checkAwsHealth_def)
  obtain k c3 where k: "checkCacheHealth h (map_option (\<lambda>c. c\<lparr>rc_world := w2\<rparr>) cache) = (k, c3)" by fastforce
  have cached: "case cache of None \<Rightarrow> k = ''unhealthy: cache not configured''
      | Some c \<Rightarrow> (k = ''healthy'' \<longleftrightarrow> cache_answers h (c\<lparr>rc_world := w2\<rparr>))"
    using k by (cases cache) (auto simp: checkCacheHealth_def cache_answers_def split: prod.splits sum.splits option.splits)
  let ?up = "m = ''healthy'' \<and> k = ''healthy''"
  let ?report = "\<lparr> he_Status = (if ?up then ''healthy'' else ''degraded''), he_Minio = m, he_Aws = aws, he_Cache = k \<rparr>"
  have answer: "fst (HealthCheck h cache w) = json (if ?up then 200 else 503) True ''Health check'' (Some ?report)"
    by (simp add: HealthCheck_def m(1) aws(1) k isCoreHealthy_def Let_def)
  have up: "?up \<longleftrightarrow> (\<exists>bs. answered = Inr bs) \<and>
      (case cache of None \<Rightarrow> False | Some c \<Rightarrow> cache_answers h (c\<lparr>rc_world := w2\<rparr>))"
    using m(2) cached by (cases cache) auto
  show ?thesis
    unfolding l a prod.case Let_def answer up [symmetric]
    by (rule exI [of _ ?report]) (use m(2) aws(2) cached in \<open>auto split: option.splits\<close>)
qed

definition demo_health :: "(string \<rightharpoonup> bytes) health_checker" where
  "demo_health =
     \<lparr> hc_minio = \<lparr> ListBuckets = (\<lambda>w. (Inr [''photos''], w)), ListObjects = (\<lambda>_ w. ([], w)),
         StatObject = (\<lambda>_ _ w. (Inl S3NotFound, w)), RemoveObject = (\<lambda>_ _ w. (None, w)),
         PutObject = (\<lambda>_ _ _ _ _ w. (Inr 0, w)), MakeBucket = (\<lambda>_ w. (None, w)), BucketExists = (\<lambda>_ w. (Inr True, w)),
         OpenObject = (\<lambda>_ _ w. (Inl S3NotFound, w)) \<rparr>,
       hc_aws = \<lparr> sdk_Upload = (\<lambda>_ _ _ w. (None, w)), sdk_HeadObject = (\<lambda>_ _ w. (Inr None, w)), sdk_HeadBucket = (\<lambda>_ w. (None, w)),
         sdk_Pages = (\<lambda>_ _ w. ([], w)), sdk_GetObject = (\<lambda>_ _ w. (Inr (whole [], None), w)),
         sdk_ListBuckets = (\<lambda>w. (Inl (ErrorString ''no credentials''), w)), sdk_DeleteObjects = (\<lambda>_ _ w. (None, w)) \<rparr>,
       hc_redis = mem_redis, hc_text = (\<lambda>_. ''down'') \<rparr>"

lemma LogError_errors:
  "st_errors (LogError e s) = (if 100 \<le> length (st_errors s) then tl (st_errors s) @ [e] else st_errors s @ [e])"
  by (cases "st_errors s") (auto simp: LogError_def Let_def)

text \<open>
  The error list of the statistics is bounded: whatever is logged, the last hundred messages are kept, in
  order, and nothing else.
\<close>

lemma recent_errors_window:
  "GetRecentErrors (fold LogError errs (NewStatsService now)) = drop (length errs - 100) errs"
proof (induction errs rule: rev_induct)
  case (snoc e errs)
  let ?s = "fold LogError errs (NewStatsService now)"
  have s: "st_errors ?s = drop (length errs - 100) errs" using snoc by (simp add: GetRecentErrors_def)
  have "st_errors (LogError e ?s) = drop (length errs - 99) (errs @ [e])"
  proof (cases "100 \<le> length errs")
    case True
    then have "Suc (length errs - 100) = length errs - 99" by simp
    moreover have "100 \<le> length (st_errors ?s)" using s True by simp
    ultimately show ?thesis using s True by (simp add: LogError_errors tl_drop drop_Suc [symmetric] flip: drop_Suc)
  next
    case False
    then show ?thesis using s by (simp add: LogError_errors)
  qed
  then show ?case by (simp add: GetRecentErrors_def)
qed (simp add: GetRecentErrors_def NewStatsService_def)

lemma unit_ratio: "0 \<le> (of_nat h / of_nat (h + m) :: rat)" "of_nat h / of_nat (h + m) \<le> (of_nat 1 :: rat)"
  by (cases "h + m = 0"; simp add: divide_le_eq)+

lemma signed_counter:
  assumes "unat x < 2 ^ 31"
  shows "float_of_int (sint (x :: 32 word)) = Fin (of_nat (unat x))"
proof -
  have "sint x = int (unat x)" by (rule sint_small) (use assms in simp)
  then show ?thesis using float_of_int_small [OF sint32_bounds [of x]] by (simp only: of_int_of_nat_eq)
qed

lemma hit_rate_percentage:
  assumes "unat (st_cacheHits s) + unat (st_cacheMisses s) < 2 ^ 31"
  shows "\<exists>q. GetCacheHitRate s = Fin q \<and> 0 \<le> q \<and> q \<le> 100"
proof (cases "st_cacheHits s + st_cacheMisses s = 0")
  case True
  then show ?thesis by (simp add: GetCacheHitRate_def)
next
  case False
  let ?h = "unat (st_cacheHits s)" and ?m = "unat (st_cacheMisses s)"
  let ?q = "of_nat ?h / of_nat (?h + ?m) :: rat"
  have u: "unat (st_cacheHits s + st_cacheMisses s) = ?h + ?m" using assms by (simp add: unat_word_ariths)
  have pos: "0 < ?h + ?m" using False u unat_gt_0 [of "st_cacheHits s + st_cacheMisses s"] by simp
  have hits: "float_of_int (sint (st_cacheHits s)) = Fin (of_nat ?h)" by (rule signed_counter) (use assms in simp)
  have total: "float_of_int (sint (st_cacheHits s + st_cacheMisses s)) = Fin (of_nat (?h + ?m))"
    using signed_counter [of "st_cacheHits s + st_cacheMisses s"] assms unfolding u .
  have ratio: "float_div (Fin (of_nat ?h)) (Fin (of_nat (?h + ?m))) = Fin (f64 ?q)"
    unfolding float_div.simps of_nat_eq_0_iff by (rule if_not_P) (rule pos [THEN less_imp_neq, THEN not_sym])
  have "GetCacheHitRate s = Fin (f64 (f64 ?q * 100))"
    unfolding GetCacheHitRate_def Let_def if_not_P [OF False] hits total ratio float_mul.simps ..
  moreover have "0 \<le> f64 ?q \<and> f64 ?q \<le> of_nat 1" by (rule f64_between) (rule unit_ratio, rule unit_ratio, simp)
  then have "0 \<le> f64 (f64 ?q * 100) \<and> f64 (f64 ?q * 100) \<le> of_nat 100" by (intro f64_between) simp_all
  ultimately show ?thesis by simp
qed

lemma wrapped_sum:
  assumes "2 ^ 31 \<le> unat x + unat y" and "unat x + unat y < 2 ^ 32"
  shows "sint (x + y :: 32 word) < 0"
proof -
  have "unat (x + y) = unat x + unat y" using assms(2) by (simp add: unat_word_ariths)
  then have big: "2 ^ 31 \<le> uint (x + y)" using assms(1) unfolding uint_nat by (metis of_nat_le_iff of_nat_numeral of_nat_power)
  have "signed_take_bit 31 (uint (x + y)) \<le> uint (x + y) - 2 ^ Suc 31"
    using signed_take_bit_int_less_eq [of 31 "uint (x + y)"] big by simp
  moreover have "sint (x + y) = signed_take_bit 31 (uint (x + y))" unfolding sint_uint by simp
  moreover have "uint (x + y) < 2 ^ Suc 31" using uint_lt2p [of "x + y"] by simp
  ultimately show ?thesis by linarith
qed

lemma hit_rate_negative:
  assumes "2 ^ 31 \<le> unat (st_cacheHits s) + unat (st_cacheMisses s)" and "unat (st_cacheHits s) + unat (st_cacheMisses s) < 2 ^ 32"
    and "0 < unat (st_cacheHits s)" and "unat (st_cacheHits s) < 2 ^ 31"
  shows "\<exists>q. GetCacheHitRate s = Fin q \<and> q < 0"
proof -
  let ?t = "sint (st_cacheHits s + st_cacheMisses s)" and ?h = "unat (st_cacheHits s)"
  have t: "?t < 0" by (rule wrapped_sum [OF assms(1,2)])
  then have nz: "st_cacheHits s + st_cacheMisses s \<noteq> 0" by auto
  have total: "float_of_int ?t = Fin (of_int ?t)" by (rule float_of_int_small [OF sint32_bounds])
  have neg: "of_nat ?h / of_int ?t < (0 :: rat)"
    using t assms(3) by (intro divide_pos_neg) (simp_all only: of_nat_0_less_iff of_int_less_0_iff)
  have "GetCacheHitRate s = Fin (f64 (f64 (of_nat ?h / of_int ?t) * 100))"
    unfolding GetCacheHitRate_def Let_def if_not_P [OF nz] signed_counter [OF assms(4)] total float_div.simps
    using t nz by (simp only: of_int_eq_0_iff if_not_P [OF less_imp_neq [OF t]] float_mul.simps)
  moreover have "f64 (f64 (of_nat ?h / of_int ?t) * 100) < 0"
    using f64_negative [OF neg] by (intro f64_negative) (simp add: mult_less_0_iff)
  ultimately show ?thesis by simp
qed

text \<open>
  Property C38.  The cache hit rate is a percentage as long as fewer than 2^31 lookups were counted.  From then on, up to
  2^32 lookups, the sum of the 32-bit counters has wrapped around: with at least one hit and a counter of
  hits that has not wrapped itself, the rate is negative.
\<close>

lemma hit_rate_bounds:
  "(unat (st_cacheHits s) + unat (st_cacheMisses s) < 2 ^ 31 \<longrightarrow>
      (\<exists>q. GetCacheHitRate s = Fin q \<and> 0 \<le> q \<and> q \<le> 100)) \<and>
   (2 ^ 31 \<le> unat (st_cacheHits s) + unat (st_cacheMisses s) \<and> unat (st_cacheHits s) + unat (st_cacheMisses s) < 2 ^ 32 \<and>
      0 < unat (st_cacheHits s) \<and> unat (st_cacheHits s) < 2 ^ 31 \<longrightarrow>
      (\<exists>q. GetCacheHitRate s = Fin q \<and> q < 0))"
  using hit_rate_percentage [of s] hit_rate_negative [of s] by blast

lemma hit_rate_bounds_witness:
  "(\<exists>q. GetCacheHitRate \<lparr> st_activeUploads = 0, st_uploadBytes = 0, st_cacheHits = 3, st_cacheMisses = 1, st_errors = [], st_startTime = 0 \<rparr> =
     Fin q \<and> 0 \<le> q \<and> q \<le> 100) \<and>
   (\<exists>q. GetCacheHitRate \<lparr> st_activeUploads = 0, st_uploadBytes = 0, st_cacheHits = 3, st_cacheMisses = 0x7FFFFFFF, st_errors = [], st_startTime = 0 \<rparr> =
     Fin q \<and> q < 0)"
  using hit_rate_bounds [of "\<lparr> st_activeUploads = 0, st_uploadBytes = 0, st_cacheHits = 3, st_cacheMisses = 1, st_errors = [], st_startTime = 0 \<rparr>"]
    hit_rate_bounds [of "\<lparr> st_activeUploads = 0, st_uploadBytes = 0, st_cacheHits = 3, st_cacheMisses = 0x7FFFFFFF, st_errors = [], st_startTime = 0 \<rparr>"]
  by simp

text \<open>
  The statistics stream ends with its connection.  Every round of a host with a finite load figure and
  some memory is sent, in order, up to the first write that fails; then the connection is no longer
  registered, and until then it is.
\<close>

lemma stream_follows_connection:
  assumes "\<forall>(stats, writes)\<in>set rounds. \<exists>s ho. stats = collectStats (Some s) ho \<and> GetCPUUsage ho \<notin> {Infinite, NaN} \<and> ho_Sys ho \<noteq> 0"
  shows "HandleWebSocket conn rounds clients =
    (map fst (takeWhile snd rounds),
     if \<exists>(stats, writes)\<in>set rounds. \<not> writes then clients - {conn} else insert conn clients)"
proof -
  have "stream_rounds rounds = (map fst (takeWhile snd rounds), \<exists>(stats, writes)\<in>set rounds. \<not> writes)"
    using assms
  proof (induction rounds)
    case (Cons a rounds)
    obtain stats writes where a: "a = (stats, writes)" by fastforce
    then have "marshals stats" using Cons.prems collected_stats_marshal by fastforce
    then show ?case using Cons a by auto
  qed simp
  then show ?thesis by (auto simp: HandleWebSocket_def Let_def)
qed

definition small_host :: host where
  "small_host = \<lparr> ho_now = 1000000000, ho_Percent = Some [Fin 5], ho_Alloc = 1, ho_Sys = 2, ho_Partitions = None, ho_Usage = (\<lambda>_. None) \<rparr>"

lemma stream_follows_connection_witness:
  "\<exists>stats. HandleWebSocket (7 :: nat) [(stats, True), (stats, False)] {7, 2} = ([stats], {2})"
proof -
  let ?stats = "collectStats (Some (NewStatsService 0)) small_host"
  have "\<forall>(stats, writes)\<in>set [(?stats, True), (?stats, False)].
      \<exists>s ho. stats = collectStats (Some s) ho \<and> GetCPUUsage ho \<notin> {Infinite, NaN} \<and> ho_Sys ho \<noteq> 0"
    by (auto intro!: exI [of _ "NewStatsService 0"] exI [of _ small_host] simp: small_host_def GetCPUUsage_def)
  from stream_follows_connection [OF this, of "7 :: nat" "{7, 2}"] show ?thesis by (intro exI [of _ ?stats]) auto
qed

end
