(* ===== verification/Server.thy ===== *)
theory Server
  imports Retention Rate_Limiter Monitoring
begin

text \<open>
  \<open>cmd/main.go\<close> around the handlers: the order in which the process comes up and what stops it, the
  watcher that reloads \<open>.env\<close>, and the shutdown sequence; with \<open>ReadEnvAndSet\<close> of \<open>service/util.go\<close>
  and \<open>service/minio.go\<close>.
  \<open>godotenv\<close>, the file watcher, the tracer and the web framework are parameters or left out.
\<close>

section \<open>The process environment\<close>

type_synonym process_env = "string \<rightharpoonup> string"

definition Getenv :: "process_env \<Rightarrow> env" where
  "Getenv pe key = (case pe key of None \<Rightarrow> '''' | Some v \<Rightarrow> v)"

text \<open>\<open>os.Setenv\<close> refuses an empty name, a name with \<open>=\<close>, and zero bytes.\<close>

definition Setenv :: "string \<Rightarrow> string \<Rightarrow> process_env \<Rightarrow> process_env result" where
  "Setenv key val pe =
     (if key = '''' \<or> CHR ''='' \<in> set key \<or> CHR 0x00 \<in> set key \<or> CHR 0x00 \<in> set val
      then Inl (ErrorString ''setenv: invalid argument'') else Inr (pe(key \<mapsto> val)))"

text \<open>
  The file as the library reads it at some moment: \<open>Load\<close> adds to the environment, \<open>Read\<close> answers the
  entries, in the order in which the loop over the map visits them.
\<close>

record env_file =
  ef_Load :: "process_env \<Rightarrow> gerror option \<times> process_env"
  ef_Read :: "(string \<times> string) list result"

fun set_entries :: "(string \<times> string) list \<Rightarrow> process_env \<Rightarrow> gerror option \<times> process_env" where
  "set_entries [] pe = (None, pe)"
| "set_entries ((k, v) # es) pe =
     (case Setenv k v pe of
        Inl err \<Rightarrow> (Some err, pe)
      | Inr pe \<Rightarrow> set_entries es pe)"

definition ReadEnvAndSet :: "env_file \<Rightarrow> process_env \<Rightarrow> gerror option \<times> process_env" where
  "ReadEnvAndSet f pe =
     (case ef_Read f of
        Inl err \<Rightarrow> (Some err, pe)
      | Inr envs \<Rightarrow> set_entries envs pe)"

section \<open>The watcher of the environment file\<close>

datatype watch_event =
    FileWritten string env_file
  | OtherChange
  | WatchError
  | ChannelClosed
  | ContextDone
  | StopRequested

definition reload :: "env_file \<Rightarrow> process_env \<Rightarrow> process_env" where
  "reload f pe = snd (ReadEnvAndSet f (snd (ef_Load f pe)))"

text \<open>The loop over what the select receives: the environment, and whether the loop has returned.\<close>

fun watchEnvChanges :: "watch_event list \<Rightarrow> process_env \<Rightarrow> process_env \<times> bool" where
  "watchEnvChanges [] pe = (pe, False)"
| "watchEnvChanges (FileWritten name f # evs) pe =
     watchEnvChanges evs (if contains name ''.env'' then reload f pe else pe)"
| "watchEnvChanges (OtherChange # evs) pe = watchEnvChanges evs pe"
| "watchEnvChanges (WatchError # evs) pe = watchEnvChanges evs pe"
| "watchEnvChanges (ChannelClosed # evs) pe = (pe, True)"
| "watchEnvChanges (ContextDone # evs) pe = (pe, True)"
| "watchEnvChanges (StopRequested # evs) pe = (pe, True)"

section \<open>Coming up\<close>

record 'w surroundings =
  su_dotenv :: env_file
  su_sha :: "string \<Rightarrow> bytes"
  su_parseTime :: "string \<Rightarrow> int option"
  su_unmarshal :: "string \<Rightarrow> gerror + BucketToken list"
  su_file :: "string \<Rightarrow> file_answer"
  su_now :: int
  su_tracer :: "gerror option"
  su_ParseURL :: "string \<Rightarrow> gerror option"
  su_redis :: "'w redis"
  su_minio :: "string \<Rightarrow> string \<Rightarrow> string \<Rightarrow> bool \<Rightarrow> gerror option"
  su_store :: "'w object_store"
  su_aws :: "'w s3_sdk"

datatype boot_failure =
    InvalidToken token_error
  | InvalidTokensFile load_error
  | NoTracer gerror
  | NoMinio gerror
  | BootPanic

text \<open>
  What is running once the server listens.  \<open>bt_checked\<close> tells whether the archive destination is being
  checked in the background.
\<close>

record 'w booted =
  bt_server :: server
  bt_expired :: "string list"
  bt_expiringSoon :: "string list"
  bt_env :: process_env
  bt_limits :: "(string \<times> 64 word) list"
  bt_archive :: "'w archive"
  bt_checked :: bool
  bt_retention :: "'w Retention"
  bt_tiering :: "'w Tiering"
  bt_cache :: "'w redisCache option"
  bt_limiter :: "'w limiter"
  bt_uploadLimiter :: "'w limiter option"
  bt_readBuffer :: int
  bt_routes :: "route list"

definition week :: int where
  "week = 7 * 24 * 3600 * 1000000000"

definition magick_env :: "process_env \<Rightarrow> process_env" where
  "magick_env pe =
     (let pe = pe(''MAGICK_WIDTH_LIMIT'' \<mapsto> GetEnvOrDefault (Getenv pe) ''IMAGICK_WIDTH_LIMIT'' ''16384'');
          pe = pe(''MAGICK_HEIGHT_LIMIT'' \<mapsto> GetEnvOrDefault (Getenv pe) ''IMAGICK_HEIGHT_LIMIT'' ''16384'')
      in pe(''MAGICK_THREAD_LIMIT'' \<mapsto> Itoa (ImagickThreadLimit (Getenv pe))))"

text \<open>\<open>service/minio.go\<close>: the parameters the client is made with; what the library answers is \<open>new\<close>.\<close>

definition MinioClient :: "env \<Rightarrow> (string \<Rightarrow> string \<Rightarrow> string \<Rightarrow> bool \<Rightarrow> gerror option) \<Rightarrow> gerror option" where
  "MinioClient env new =
     new (GetEnvOrDefault env ''MINIO_ENDPOINT'' ''localhost:9000'') (GetEnvOrDefault env ''MINIO_ROOT_USER'' ''minioadmin'')
       (GetEnvOrDefault env ''MINIO_ROOT_PASSWORD'' ''minioadmin'') (GetEnvAsBoolOrDefault env ''MINIO_USE_SSL'' False)"

definition read_buffer :: "env \<Rightarrow> int" where
  "read_buffer env =
     (let readBufferKB = GetEnvAsIntOrDefault env ''READ_BUFFER_SIZE_KB'' 1024;
          readBufferKB = (if readBufferKB < 4 then 4 else readBufferKB)
      in readBufferKB * 1024)"

text \<open>From the tracer on: clients, archive, retention, cache, handlers, limiters and routes.\<close>

definition wire ::
  "'w surroundings \<Rightarrow> process_env \<Rightarrow> token_map \<Rightarrow> string list \<times> string list \<Rightarrow> 'w \<Rightarrow> (boot_failure + 'w booted) \<times> 'w" where
  "wire su pe tokens warnings w =
     (let env = Getenv pe;
          sv = \<lparr> sv_env = env, sv_tokens = tokens, sv_sha = su_sha su, sv_now = su_now su \<rparr> in
      case MinioClient env (su_minio su) of
        Some err \<Rightarrow> (Inl (NoMinio err), w)
      | None \<Rightarrow>
          (let archive = fst (NewArchive env (su_aws su));
               retention = NewRetention env (su_store su) (Some (archive_iface archive));
               tiering = NewTiering (su_store su) (Some (archive_iface archive));
               (cache, _) = NewCacheService env (su_ParseURL su) (su_redis su) w;
               w = (case cache of None \<Rightarrow> w | Some c \<Rightarrow> rc_world c)
           in if image_pool env w = None \<or> aws_pool env w = None then (Inl BootPanic, w)
              else
                (case DefaultAdvancedRateLimiter env (su_ParseURL su) (su_redis su) w of
                   (limiter, w) \<Rightarrow>
                     (let disableDelete = GetEnvAsBoolOrDefault env ''DISABLE_DELETE'' False;
                          disableUpload = GetEnvAsBoolOrDefault env ''DISABLE_UPLOAD'' False;
                          disableGet = GetEnvAsBoolOrDefault env ''DISABLE_GET'' False;
                          (uploadLimiter, w) =
                            (if \<not> disableUpload
                             then map_prod Some id (NewAdvancedRateLimiter env (su_ParseURL su) (su_redis su)
                                    (GetEnvAsIntOrDefault env ''UPLOAD_RATE_LIMIT'' 50) minute w)
                             else (None, w))
                      in (Inr \<lparr> bt_server = sv, bt_expired = fst warnings, bt_expiringSoon = snd warnings, bt_env = pe,
                            bt_limits = resource_limits env, bt_archive = archive, bt_checked = a_enabled archive,
                            bt_retention = retention, bt_tiering = tiering, bt_cache = cache, bt_limiter = limiter,
                            bt_uploadLimiter = uploadLimiter, bt_readBuffer = read_buffer env,
                            bt_routes = routes disableDelete disableUpload disableGet \<rparr>, w)))))"

definition boot :: "'w surroundings \<Rightarrow> process_env \<Rightarrow> 'w \<Rightarrow> (boot_failure + 'w booted) \<times> 'w" where
  "boot su pe w =
     (let pe = snd (ef_Load (su_dotenv su) pe) in
      case ValidateGeneralToken (GetEnvOrDefault (Getenv pe) ''TOKEN'' '''') of
        Some err \<Rightarrow> (Inl (InvalidToken err), w)
      | None \<Rightarrow>
          (let tokensFile = GetEnvOrDefault (Getenv pe) ''TOKENS_FILE'' ''config/tokens.json'' in
           case LoadBucketTokens (su_sha su) (su_parseTime su) (su_unmarshal su) (su_file su tokensFile) of
             (Inl err, _) \<Rightarrow> (Inl (InvalidTokensFile err), w)
           | (Inr n, tokens) \<Rightarrow>
               (let warnings = BucketTokenExpiryWarnings tokens (su_now su) week;
                    pe = magick_env pe
                in case su_tracer su of
                     Some err \<Rightarrow> (Inl (NoTracer err), w)
                   | None \<Rightarrow> wire su pe tokens warnings w)))"

section \<open>Going down\<close>

text \<open>
  The main goroutine after the signal, and the watcher: \<open>cancel()\<close>, the unbuffered send that stops the
  watcher, the shutdown of the server, and closing the cache.  The watcher returns on the cancelled
  context, on the message, or earlier, when its channel is closed.
\<close>

datatype main_at = Serving | Cancelling | StoppingWatcher | ShuttingDown | ClosingCache | Stopped

record process_state =
  ps_main :: main_at
  ps_cancelled :: bool
  ps_watching :: bool

inductive shutdown_step :: "process_state \<Rightarrow> process_state \<Rightarrow> bool" where
  signal: "ps_main p = Serving \<Longrightarrow> shutdown_step p (p\<lparr>ps_main := Cancelling\<rparr>)"
| cancel: "ps_main p = Cancelling \<Longrightarrow> shutdown_step p (p\<lparr>ps_main := StoppingWatcher, ps_cancelled := True\<rparr>)"
| stop_watcher: "ps_main p = StoppingWatcher \<Longrightarrow> ps_watching p \<Longrightarrow>
    shutdown_step p (p\<lparr>ps_main := ShuttingDown, ps_watching := False\<rparr>)"
| server_down: "ps_main p = ShuttingDown \<Longrightarrow> shutdown_step p (p\<lparr>ps_main := ClosingCache\<rparr>)"
| cache_closed: "ps_main p = ClosingCache \<Longrightarrow> shutdown_step p (p\<lparr>ps_main := Stopped\<rparr>)"
| watcher_cancelled: "ps_watching p \<Longrightarrow> ps_cancelled p \<Longrightarrow> shutdown_step p (p\<lparr>ps_watching := False\<rparr>)"
| watcher_closed: "ps_watching p \<Longrightarrow> shutdown_step p (p\<lparr>ps_watching := False\<rparr>)"

inductive_cases shutdown_stepE: "shutdown_step p q"

text \<open>A process that can go no further.\<close>

definition final_process :: "process_state \<Rightarrow> bool" where
  "final_process p \<longleftrightarrow> (\<forall>q. \<not> shutdown_step p q)"

definition started :: process_state where
  "started = \<lparr> ps_main = Serving, ps_cancelled = False, ps_watching = True \<rparr>"

section \<open>Properties\<close>

lemma Getenv_magick: "key \<notin> {''MAGICK_WIDTH_LIMIT'', ''MAGICK_HEIGHT_LIMIT'', ''MAGICK_THREAD_LIMIT''} \<Longrightarrow>
  Getenv (magick_env pe) key = Getenv pe key"
  by (simp add: magick_env_def Getenv_def Let_def)

lemma wire_Inr:
  assumes "wire su pe tokens warnings w = (Inr b, w')"
  shows "bt_server b = \<lparr> sv_env = Getenv pe, sv_tokens = tokens, sv_sha = su_sha su, sv_now = su_now su \<rparr> \<and> bt_env b = pe \<and>
    (\<exists>d u g. bt_routes b = routes d u g)"
  using assms by (auto simp: wire_def Let_def split: prod.splits option.splits if_splits) blast+

lemma boot_Inr:
  assumes "boot su pe w = (Inr b, w')"
  obtains pe0 tokens n where "pe0 = snd (ef_Load (su_dotenv su) pe)" "ValidateGeneralToken (Getenv pe0 ''TOKEN'') = None"
    "LoadBucketTokens (su_sha su) (su_parseTime su) (su_unmarshal su)
       (su_file su (GetEnvOrDefault (Getenv pe0) ''TOKENS_FILE'' ''config/tokens.json'')) = (Inr n, tokens)"
    "wire su (magick_env pe0) tokens (BucketTokenExpiryWarnings tokens (su_now su) week) w = (Inr b, w')"
proof -
  let ?pe = "snd (ef_Load (su_dotenv su) pe)"
  have v: "ValidateGeneralToken (GetEnvOrDefault (Getenv ?pe) ''TOKEN'' '''') = None"
    using assms by (auto simp: boot_def Let_def split: option.splits)
  moreover have "GetEnvOrDefault (Getenv ?pe) ''TOKEN'' '''' = Getenv ?pe ''TOKEN''" by (simp add: GetEnvOrDefault_def Let_def)
  ultimately show thesis using assms that [of ?pe]
    by (auto simp: boot_def Let_def split: option.splits sum.splits prod.splits)
qed

lemma TokenValid_equal: "TokenValid env raw \<Longrightarrow> TrimSpace raw = TrimSpace (env ''TOKEN'') \<and> TrimSpace raw \<noteq> ''''"
  by (auto simp: TokenValid_def GetEnvOrDefault_def Let_def split: if_splits)

text \<open>
  The gate of a booted server at a later moment: the clock has moved on, and the watcher has handled
  some events, which may have changed the environment that the tokens are read from.
\<close>

definition server_at :: "'w booted \<Rightarrow> watch_event list \<Rightarrow> int \<Rightarrow> server" where
  "server_at b evs now = (bt_server b)\<lparr>sv_env := Getenv (fst (watchEnvChanges evs (bt_env b))), sv_now := now\<rparr>"


text \<open>A deployment with a general token and nothing else configured.\<close>

definition demo_surroundings :: "(string \<rightharpoonup> bytes) surroundings" where
  "demo_surroundings =
     \<lparr> su_dotenv = \<lparr> ef_Load = (\<lambda>pe. (Some (ErrorString ''no .env''), pe)), ef_Read = Inl (ErrorString ''no .env'') \<rparr>,
       su_sha = demo_sha, su_parseTime = (\<lambda>_. None), su_unmarshal = (\<lambda>_. Inr []), su_file = (\<lambda>_. FileMissing), su_now = 99,
       su_tracer = None, su_ParseURL = (\<lambda>_. None), su_redis = mem_redis, su_minio = (\<lambda>_ _ _ _. None), su_store = hc_minio demo_health, su_aws = hc_aws demo_health \<rparr>"

lemma demo_boot: "\<exists>b w'. boot demo_surroundings [''TOKEN'' \<mapsto> demo_secret] Map.empty = (Inr b, w')"
proof -
  let ?pe = "[''TOKEN'' \<mapsto> demo_secret]"
  have token: "ValidateGeneralToken (GetEnvOrDefault (Getenv ?pe) ''TOKEN'' '''') = None" by code_simp
  have "Getenv (magick_env ?pe) ''WORKER_QUEUE_SIZE'' = ''''" by (simp add: Getenv_magick) (simp add: Getenv_def)
  then have pools: "image_pool (Getenv (magick_env ?pe)) w \<noteq> None" "aws_pool (Getenv (magick_env ?pe)) w \<noteq> None" for w :: "string \<rightharpoonup> bytes"
    by (simp_all add: image_pool_def aws_pool_def NewPool_def DefaultPoolConfig_def Let_def)
  have no_pool: "(image_pool (Getenv (magick_env ?pe)) w = None) = False" "(aws_pool (Getenv (magick_env ?pe)) w = None) = False"
    for w :: "string \<rightharpoonup> bytes"
    using pools by blast+
  show ?thesis
    by (simp only: boot_def wire_def demo_surroundings_def MinioClient_def token LoadBucketTokens_def surroundings.simps env_file.simps
        Let_def snd_conv option.case sum.case prod.case file_answer.case no_pool)
      (simp add: no_pool del: split_paired_Ex split: prod.split)
qed

lemma demo_token: "TrimSpace demo_secret = demo_secret" "split_on (CHR '' '') (''Bearer '' @ demo_secret) = [''Bearer'', demo_secret]"
  by code_simp+


lemma set_entries_keep: "k \<notin> fst ` set es \<Longrightarrow> snd (set_entries es pe) k = pe k"
  by (induction es pe rule: set_entries.induct) (auto simp: Setenv_def split: sum.splits if_splits)

lemma set_entries_sets:
  "fst (set_entries es pe) = None \<Longrightarrow> distinct (map fst es) \<Longrightarrow> (k, v) \<in> set es \<Longrightarrow> snd (set_entries es pe) k = Some v"
proof (induction es pe rule: set_entries.induct)
  case (2 k' v' es pe)
  then obtain pe' where pe': "Setenv k' v' pe = Inr pe'" "fst (set_entries es pe') = None" by (auto split: sum.splits)
  then have "pe' = pe(k' \<mapsto> v')" by (auto simp: Setenv_def split: if_splits)
  with 2 pe' set_entries_keep [of k es pe'] show ?case by (cases "k = k'") force+
qed simp

lemma watch_more:
  "\<not> snd (watchEnvChanges evs pe) \<Longrightarrow> watchEnvChanges (evs @ evs') pe = watchEnvChanges evs' (fst (watchEnvChanges evs pe))"
  by (induction evs pe rule: watchEnvChanges.induct) simp_all

text \<open>
  Property C34.  Editing \<open>.env\<close> changes the credentials without the checks of the start.  While the watcher runs,
  a write to the file after which its entries could all be set makes whatever the file has for \<open>TOKEN\<close>,
  unless it is blank, the general token.
\<close>

lemma reload_is_unchecked:
  assumes "\<not> snd (watchEnvChanges before pe)" and "contains name ''.env''"
    and "ef_Read f = Inr entries" and "distinct (map fst entries)" and "(''TOKEN'', t) \<in> set entries" and "TrimSpace t \<noteq> ''''"
    and "fst (ReadEnvAndSet f (snd (ef_Load f (fst (watchEnvChanges before pe))))) = None"
  shows "TokenValid (Getenv (fst (watchEnvChanges (before @ [FileWritten name f]) pe))) t"
proof -
  have "t \<noteq> ''''" using assms(6) by auto
  moreover have "reload f (fst (watchEnvChanges before pe)) ''TOKEN'' = Some t"
    using assms(3,7) set_entries_sets [OF _ assms(4,5)] by (simp add: reload_def ReadEnvAndSet_def)
  ultimately show ?thesis
    using assms(2,6) watch_more [OF assms(1)] by (simp add: Getenv_def TokenValid_def GetEnvOrDefault_def Let_def)
qed

definition weak_file :: env_file where
  "weak_file = \<lparr> ef_Load = (\<lambda>pe. (None, pe)), ef_Read = Inr [(''TOKENS_FILE'', ''t''), (''TOKEN'', ''x'')] \<rparr>"

lemma reload_is_unchecked_witness:
  "ValidateGeneralToken ''x'' = Some TokenTooShort \<and>
   TokenValid (Getenv (fst (watchEnvChanges ([OtherChange] @ [FileWritten ''/app/.env'' weak_file]) [''TOKEN'' \<mapsto> demo_secret]))) ''x''"
proof
  show "ValidateGeneralToken ''x'' = Some TokenTooShort" by code_simp
  have "contains ''/app/.env'' ''.env''" by code_simp
  then show "TokenValid (Getenv (fst (watchEnvChanges ([OtherChange] @ [FileWritten ''/app/.env'' weak_file]) [''TOKEN'' \<mapsto> demo_secret]))) ''x''"
    by (intro reload_is_unchecked [where entries = "[(''TOKENS_FILE'', ''t''), (''TOKEN'', ''x'')]"])
      (simp_all add: weak_file_def ReadEnvAndSet_def Setenv_def gostr printable_def)
qed

text \<open>The states of a process that came up: only a cancelled process can have left the watcher's stop behind.\<close>

lemma shutdown_order:
  "shutdown_step\<^sup>*\<^sup>* started p \<Longrightarrow>
   (ps_main p \<in> {StoppingWatcher, ShuttingDown, ClosingCache, Stopped} \<longleftrightarrow> ps_cancelled p) \<and>
   (ps_main p \<in> {ShuttingDown, ClosingCache, Stopped} \<longrightarrow> \<not> ps_watching p)"
proof (induction rule: rtranclp_induct)
  case (step p q)
  then show ?case by (auto elim!: shutdown_stepE)
qed (simp add: started_def)

lemma stuck_main:
  assumes "final_process p"
  shows "ps_main p = Stopped \<or> ps_main p = StoppingWatcher \<and> \<not> ps_watching p"
  using assms shutdown_step.intros [of p] unfolding final_process_def by (cases "ps_main p") blast+

text \<open>
  Property C33.  The shutdown may hang.  The runs that can go no further end in one of two ways: everything was closed, or
  the main goroutine waits for ever to hand the stop message to a watcher that has already returned, with
  the server still up; and both happen.
\<close>

lemma shutdown_can_hang:
  "{ps_main p | p. shutdown_step\<^sup>*\<^sup>* started p \<and> final_process p} = {Stopped, StoppingWatcher}"
  (is "?ends = _")
proof -
  let ?p = "\<lambda>m c w. \<lparr> ps_main = m, ps_cancelled = c, ps_watching = w \<rparr>"
  have steps: "shutdown_step started (?p Cancelling False True)" "shutdown_step (?p Cancelling False True) (?p StoppingWatcher True True)"
    "shutdown_step (?p StoppingWatcher True True) (?p ShuttingDown True False)"
    "shutdown_step (?p ShuttingDown True False) (?p ClosingCache True False)"
    "shutdown_step (?p ClosingCache True False) (?p Stopped True False)"
    "shutdown_step (?p StoppingWatcher True True) (?p StoppingWatcher True False)"
    using shutdown_step.intros(1) [of started] shutdown_step.intros(2) [of "?p Cancelling False True"]
      shutdown_step.intros(3) [of "?p StoppingWatcher True True"] shutdown_step.intros(4) [of "?p ShuttingDown True False"]
      shutdown_step.intros(5) [of "?p ClosingCache True False"] shutdown_step.intros(6) [of "?p StoppingWatcher True True"]
    by (simp_all add: started_def)
  have stopped: "shutdown_step\<^sup>*\<^sup>* started (?p Stopped True False)" and hung: "shutdown_step\<^sup>*\<^sup>* started (?p StoppingWatcher True False)"
    using steps by (meson converse_rtranclp_into_rtranclp rtranclp.rtrancl_refl)+
  have "final_process (?p Stopped True False)" "final_process (?p StoppingWatcher True False)"
    unfolding final_process_def by (auto elim!: shutdown_stepE)
  then have "Stopped \<in> ?ends" "StoppingWatcher \<in> ?ends"
    using stopped hung by (force intro: exI [of _ "?p Stopped True False"] exI [of _ "?p StoppingWatcher True False"])+
  moreover have "?ends \<subseteq> {Stopped, StoppingWatcher}" using stuck_main by blast
  ultimately show ?thesis by blast
qed

end
