(* ===== verification/Metrics.thy ===== *)
theory Metrics
  imports Monitoring Circuit_Breaker Worker_Pool Batch_Processor
begin

text \<open>
  \<open>pkg/observability/metrics.go\<close>: the collectors the process registers, and the samples the components
  record in them.  The Prometheus client is not in the repository; what it accepts is a parameter.
\<close>

section \<open>The collectors\<close>

text \<open>\<open>prometheus.DefBuckets\<close>, or buckets of its own.\<close>

datatype buckets = DefBuckets | Own "rat list"

datatype metric_kind = CounterVec | GaugeVec | HistogramVec buckets

text \<open>A collector without labels is a vector with none.\<close>

record collector =
  cl_variable :: string
  cl_kind :: metric_kind
  cl_Name :: string
  cl_Help :: string
  cl_labels :: "string list"

definition collector_of :: "string \<Rightarrow> metric_kind \<Rightarrow> string \<Rightarrow> string \<Rightarrow> string list \<Rightarrow> collector" where
  "collector_of var kind name help labels =
     \<lparr> cl_variable = var, cl_kind = kind, cl_Name = name, cl_Help = help, cl_labels = labels \<rparr>"

definition http_collectors :: "collector list" where
  "http_collectors =
     [collector_of ''RequestCounter'' CounterVec ''cdn_http_requests_total'' ''Total number of HTTP requests'' [''method'', ''endpoint'', ''status''],
      collector_of ''RequestDuration'' (HistogramVec DefBuckets) ''cdn_http_request_duration_seconds'' ''HTTP request duration in seconds''
        [''method'', ''endpoint''],
      collector_of ''ImageProcessingDuration'' (HistogramVec DefBuckets) ''cdn_image_processing_duration_seconds''
        ''Image processing duration in seconds'' [''operation''],
      collector_of ''StorageOperationDuration'' (HistogramVec DefBuckets) ''cdn_storage_operation_duration_seconds''
        ''Storage operation duration in seconds'' [''operation'', ''provider'']]"

definition health_collectors :: "collector list" where
  "health_collectors =
     [collector_of ''ServiceHealth'' GaugeVec ''service_health_status''
        ''Current health status of services (1 for healthy, 0 for unhealthy)'' [''service''],
      collector_of ''ServiceHealthCheckDuration''
        (HistogramVec (Own [5 / 1000, 1 / 100, 25 / 1000, 5 / 100, 1 / 10, 25 / 100, 5 / 10, 1, 25 / 10, 5]))
        ''service_health_check_duration_seconds'' ''Duration of health checks in seconds'' [''service''],
      collector_of ''LastHealthCheckTimestamp'' GaugeVec ''service_last_health_check_timestamp''
        ''Timestamp of the last health check'' [''service'']]"

definition pool_collectors :: "collector list" where
  "pool_collectors =
     [collector_of ''WorkerPoolQueueSize'' GaugeVec ''worker_pool_queue_size'' ''Current number of jobs in the worker pool queue'' [],
      collector_of ''WorkerPoolActiveWorkers'' GaugeVec ''worker_pool_active_workers'' ''Current number of active workers in the pool'' [],
      collector_of ''WorkerJobProcessingDuration''
        (HistogramVec (Own [1 / 1000, 5 / 1000, 1 / 100, 25 / 1000, 5 / 100, 1 / 10, 25 / 100, 5 / 10, 1, 25 / 10, 5]))
        ''worker_job_processing_duration_seconds'' ''Duration of job processing in seconds'' [''status''],
      collector_of ''WorkerJobRetries'' CounterVec ''worker_job_retries_total'' ''Total number of job retries'' [''job_type'']]"

definition batch_collectors :: "collector list" where
  "batch_collectors =
     [collector_of ''BatchProcessorQueueSize'' GaugeVec ''batch_processor_queue_size''
        ''Current number of items in the batch processor queue'' [],
      collector_of ''BatchProcessingDuration''
        (HistogramVec (Own [1 / 100, 25 / 1000, 5 / 100, 1 / 10, 25 / 100, 5 / 10, 1, 25 / 10, 5, 10]))
        ''batch_processing_duration_seconds'' ''Duration of batch processing in seconds'' [''status''],
      collector_of ''BatchItemsProcessed'' CounterVec ''batch_items_processed_total''
        ''Total number of items processed by the batch processor'' [''status''],
      collector_of ''BatchRetries'' CounterVec ''batch_retries_total'' ''Total number of batch retries'' []]"

definition cache_collectors :: "collector list" where
  "cache_collectors =
     [collector_of ''CacheOperations'' CounterVec ''cache_operations_total'' ''The total number of cache operations''
        [''operation'', ''status''],
      collector_of ''CacheOperationDuration'' (HistogramVec DefBuckets) ''cache_operation_duration_seconds''
        ''Duration of cache operations in seconds'' [''operation'', ''status''],
      collector_of ''CacheSize'' GaugeVec ''cache_size_bytes'' ''Current size of cached data in bytes'' [''type''],
      collector_of ''CacheHitRatio'' GaugeVec ''cache_hit_ratio'' ''Cache hit ratio'' [''operation'']]"

definition breaker_collectors :: "collector list" where
  "breaker_collectors =
     [collector_of ''CircuitBreakerState'' GaugeVec ''circuit_breaker_state''
        ''Current state of circuit breaker (0: Closed, 1: Open, 2: Half-Open)'' [''name''],
      collector_of ''CircuitBreakerFailures'' GaugeVec ''circuit_breaker_failures''
        ''Number of consecutive failures in circuit breaker'' [''name''],
      collector_of ''CircuitBreakerSuccesses'' GaugeVec ''circuit_breaker_successes''
        ''Number of consecutive successes in circuit breaker'' [''name''],
      collector_of ''CircuitBreakerRequests'' CounterVec ''circuit_breaker_requests_total''
        ''Total number of requests handled by circuit breaker'' [''name'', ''result'']]"

text \<open>The package's variables in the order of their initialisation.\<close>

definition collectors :: "collector list" where
  "collectors =
     http_collectors @ health_collectors @ pool_collectors @ batch_collectors @ cache_collectors @ breaker_collectors"

text \<open>
  \<open>promauto\<close> registers a collector when its variable is initialised and panics when the registry refuses
  it; \<open>accepts\<close> is the registry's answer, given those that are registered already.
\<close>

fun register_all :: "(collector list \<Rightarrow> collector \<Rightarrow> bool) \<Rightarrow> collector list \<Rightarrow> collector list \<Rightarrow> collector list option" where
  "register_all accepts [] registered = Some registered"
| "register_all accepts (c # cs) registered =
     (if accepts registered c then register_all accepts cs (registered @ [c]) else None)"

section \<open>The samples\<close>

text \<open>The variable, the label values, and what is done: adding to it, setting it, or observing a duration.\<close>

datatype amount = Add float64 | SetTo float64 | Observed

type_synonym sample = "string \<times> string list \<times> amount"

abbreviation inc :: amount where "inc \<equiv> Add (Fin 1)"

definition request_samples :: "string \<times> string \<times> string \<Rightarrow> sample list" where
  "request_samples labels =
     (case labels of (method, endpoint, status) \<Rightarrow>
        [(''RequestCounter'', [method, endpoint, status], inc), (''RequestDuration'', [method, endpoint], Observed)])"

text \<open>One health check of a service: its outcome, then the deferred part at some time.\<close>

definition health_samples :: "string \<Rightarrow> bool \<Rightarrow> int \<Rightarrow> sample list" where
  "health_samples name healthy now =
     [(''ServiceHealth'', [name], SetTo (Fin (if healthy then 1 else 0))), (''ServiceHealthCheckDuration'', [name], Observed),
      (''LastHealthCheckTimestamp'', [name], SetTo (float_of_int now))]"

fun cache_samples :: "cache_event \<Rightarrow> sample list" where
  "cache_samples (CacheOperations operation status) =
     [(''CacheOperations'', [operation, status], inc), (''CacheOperationDuration'', [operation, status], Observed)]"
| "cache_samples (CacheHitRatio q) = [(''CacheHitRatio'', [''get''], SetTo q)]"
| "cache_samples (CacheSize n) = [(''CacheSize'', [''data''], Add (float_of_int (int n)))]"
| "cache_samples (LogFailure operation) = []"

text \<open>The samples of the retry loop of a job, as \<open>run_task\<close> runs it.\<close>

function task_samples :: "'w task \<Rightarrow> int \<Rightarrow> int \<Rightarrow> 'w \<Rightarrow> sample list" where
  "task_samples task maxRetries retries w =
     (if retries \<le> maxRetries then
        (case task w of
           (None, w') \<Rightarrow> [(''WorkerJobProcessingDuration'', [''success''], Observed)]
         | (Some e, w') \<Rightarrow>
             (''WorkerJobRetries'', [''image_processing''], inc) #
             (if retries + 1 \<le> maxRetries then task_samples task maxRetries (retries + 1) w'
              else [(''WorkerJobProcessingDuration'', [''failure''], Observed)]))
      else [])"
  by pat_completeness auto
termination
  by (relation "measure (\<lambda>(task, maxRetries, retries, w). nat (maxRetries + 1 - retries))") auto

declare task_samples.simps [simp del]

definition job_samples :: "'w job \<Rightarrow> int \<Rightarrow> nat \<Rightarrow> 'w \<Rightarrow> sample list" where
  "job_samples job maxRetries queued w =
     (''WorkerPoolActiveWorkers'', [], inc) # task_samples (jb_Task job) maxRetries 0 w @
     [(''WorkerPoolQueueSize'', [], SetTo (float_of_int (int queued))), (''WorkerPoolActiveWorkers'', [], Add (Fin (- 1)))]"

text \<open>One call of the batch function: what it answered, and the length of the channel.\<close>

definition batch_samples :: "'d BatchItem list \<Rightarrow> nat \<Rightarrow> sample list" where
  "batch_samples processed queued =
     [(''BatchProcessingDuration'', [''success''], Observed),
      (''BatchItemsProcessed'', [''success''], Add (float_of_int (int (length (filter bi_Success processed))))),
      (''BatchItemsProcessed'', [''failed''], Add (float_of_int (int (length (failed_items processed))))),
      (''BatchProcessorQueueSize'', [], SetTo (float_of_int (int queued)))] @
     (if failed_items processed = [] then [] else [(''BatchRetries'', [], inc)])"

definition breaker_samples :: "string \<Rightarrow> CircuitBreaker \<Rightarrow> sample list" where
  "breaker_samples name cb =
     [(''CircuitBreakerState'', [name], SetTo (float_of_int (int (state_number (cb_state cb))))),
      (''CircuitBreakerFailures'', [name], SetTo (float_of_int (cb_failureCount cb))),
      (''CircuitBreakerSuccesses'', [name], SetTo (float_of_int (cb_successCount cb)))]"

section \<open>Registering\<close>

text \<open>The data model of Prometheus: names, labels, and increasing buckets.\<close>

definition name_ok :: "string \<Rightarrow> bool" where
  "name_ok s \<longleftrightarrow> s \<noteq> '''' \<and> list_all (\<lambda>c. c = CHR ''_'' \<or> (CHR ''a'' \<le> c \<and> c \<le> CHR ''z'')) s"

fun increasing :: "rat list \<Rightarrow> bool" where
  "increasing (x # y # ys) \<longleftrightarrow> x < y \<and> increasing (y # ys)"
| "increasing _ \<longleftrightarrow> True"

definition well_formed :: "collector \<Rightarrow> bool" where
  "well_formed c \<longleftrightarrow>
     name_ok (cl_Name c) \<and> list_all name_ok (cl_labels c) \<and> distinct (cl_labels c) \<and> ''le'' \<notin> set (cl_labels c) \<and>
     (case cl_kind c of HistogramVec (Own bs) \<Rightarrow> increasing bs | _ \<Rightarrow> True)"

lemma collectors_well_formed: "list_all well_formed collectors"
  by code_simp

lemma collectors_distinct: "distinct (map cl_Name collectors)" "distinct (map cl_variable collectors)"
  by code_simp+

lemma register_all_accepts:
  assumes "\<And>registered c. well_formed c \<Longrightarrow> cl_Name c \<notin> cl_Name ` set registered \<Longrightarrow> accepts registered c"
  shows "list_all well_formed cs \<Longrightarrow> distinct (map cl_Name (registered @ cs)) \<Longrightarrow>
    register_all accepts cs registered = Some (registered @ cs)"
  by (induction cs arbitrary: registered) (auto simp: assms image_iff)

text \<open>
  The metrics never keep the process from starting.  A registry that accepts every well-formed collector
  whose name is not taken accepts all collectors of the service, so that no initialisation panics.
\<close>

lemma collectors_register:
  assumes "\<And>registered c. well_formed c \<Longrightarrow> cl_Name c \<notin> cl_Name ` set registered \<Longrightarrow> accepts registered c"
  shows "register_all accepts collectors [] = Some collectors"
  using register_all_accepts [where registered = "[]", OF assms collectors_well_formed] collectors_distinct(1) by simp

lemma collectors_register_witness:
  "register_all (\<lambda>registered c. well_formed c \<and> cl_Name c \<notin> cl_Name ` set registered) collectors [] = Some collectors"
  by (rule collectors_register) blast

section \<open>What is recorded\<close>

text \<open>
  What the client of Prometheus does not panic on: a label value for every label, in UTF-8 (ASCII here), and
  an amount its kind of collector takes, which for a counter is never negative.
\<close>

definition ascii :: "string \<Rightarrow> bool" where
  "ascii s \<longleftrightarrow> list_all (\<lambda>c. (of_char c :: nat) < 128) s"

datatype instrument = Counter | Gauge | Histogram

fun kind_of :: "metric_kind \<Rightarrow> instrument" where
  "kind_of CounterVec = Counter"
| "kind_of GaugeVec = Gauge"
| "kind_of (HistogramVec bs) = Histogram"

fun allowed :: "instrument \<Rightarrow> amount \<Rightarrow> bool" where
  "allowed Counter (Add (Fin q)) \<longleftrightarrow> 0 \<le> q"
| "allowed Gauge (Add x) \<longleftrightarrow> True"
| "allowed Gauge (SetTo x) \<longleftrightarrow> True"
| "allowed Histogram Observed \<longleftrightarrow> True"
| "allowed _ _ \<longleftrightarrow> False"

definition fits :: "sample \<Rightarrow> bool" where
  "fits s =
     (case s of (var, vals, amount) \<Rightarrow>
        list_ex (\<lambda>c. cl_variable c = var \<and> length (cl_labels c) = length vals \<and> allowed (kind_of (cl_kind c)) amount) collectors \<and>
        list_all ascii vals)"

lemma arities:
  "map (\<lambda>c. (cl_variable c, length (cl_labels c), kind_of (cl_kind c))) collectors =
     [(''RequestCounter'', 3, Counter), (''RequestDuration'', 2, Histogram), (''ImageProcessingDuration'', 1, Histogram),
      (''StorageOperationDuration'', 2, Histogram), (''ServiceHealth'', 1, Gauge), (''ServiceHealthCheckDuration'', 1, Histogram),
      (''LastHealthCheckTimestamp'', 1, Gauge), (''WorkerPoolQueueSize'', 0, Gauge), (''WorkerPoolActiveWorkers'', 0, Gauge),
      (''WorkerJobProcessingDuration'', 1, Histogram), (''WorkerJobRetries'', 1, Counter), (''BatchProcessorQueueSize'', 0, Gauge),
      (''BatchProcessingDuration'', 1, Histogram), (''BatchItemsProcessed'', 1, Counter), (''BatchRetries'', 0, Counter),
      (''CacheOperations'', 2, Counter), (''CacheOperationDuration'', 2, Histogram), (''CacheSize'', 1, Gauge),
      (''CacheHitRatio'', 1, Gauge), (''CircuitBreakerState'', 1, Gauge), (''CircuitBreakerFailures'', 1, Gauge),
      (''CircuitBreakerSuccesses'', 1, Gauge), (''CircuitBreakerRequests'', 2, Counter)]"
  by code_simp

lemma fits_arity:
  "fits (v, vals, a) \<longleftrightarrow>
     (\<exists>i. (v, length vals, i) \<in> set (map (\<lambda>c. (cl_variable c, length (cl_labels c), kind_of (cl_kind c))) collectors) \<and> allowed i a) \<and>
     list_all ascii vals"
  by (force simp: fits_def list_ex_iff)

lemmas fits_simps = fits_arity [unfolded arities]

lemma ascii_labels [simp]:
  "ascii ''success''" "ascii ''failed''" "ascii ''failure''" "ascii ''error''" "ascii ''image_processing''" "ascii ''data''"
  "ascii ''get''" "ascii ''set''" "ascii ''delete''" "ascii ''flush_all''" "ascii ''close''" "ascii ''hit''" "ascii ''miss''"
  by code_simp+

lemma f64_count: "0 \<le> f64 (of_nat n)"
proof (cases "n = 0")
  case True
  then show ?thesis using f64_nat [of 0] by simp
next
  case False
  then show ?thesis using f64_positive [of "of_nat n"] by (simp add: less_imp_le)
qed

lemma fits_task: "list_all fits (task_samples task maxRetries retries w)"
proof (induction task maxRetries retries w rule: task_samples.induct)
  case (1 task maxRetries retries w)
  have "fits (''WorkerJobProcessingDuration'', [''success''], Observed)" "fits (''WorkerJobProcessingDuration'', [''failure''], Observed)"
    "fits (''WorkerJobRetries'', [''image_processing''], inc)"
    by (simp_all add: fits_simps)
  moreover obtain e w1 where t: "task w = (e, w1)" by fastforce
  moreover have "e = Some x \<Longrightarrow> retries + 1 \<le> maxRetries \<Longrightarrow> list_all fits (task_samples task maxRetries (retries + 1) w1)" for x
    using 1 t by simp
  ultimately show ?case by (cases e) (simp_all add: task_samples.simps [of task _ retries])
qed

lemma fits_job: "list_all fits (job_samples job maxRetries queued w)"
  using fits_task [of "jb_Task job" maxRetries 0 w] by (simp add: job_samples_def fits_simps)

lemma fits_batch: "list_all fits (batch_samples processed queued)"
  using f64_count [of "length (filter bi_Success processed)"] f64_count [of "length (failed_items processed)"]
  by (simp add: batch_samples_def fits_simps float_of_int_def)

text \<open>The events of the cache carry the names of its operations and outcomes, whatever keys and values it is given.\<close>

fun ascii_event :: "cache_event \<Rightarrow> bool" where
  "ascii_event (CacheOperations operation status) \<longleftrightarrow> ascii operation \<and> ascii status"
| "ascii_event _ \<longleftrightarrow> True"

lemma perform_events: "list_all ascii_event (rc_events c) \<Longrightarrow> list_all ascii_event (rc_events (perform r call c))"
  by (cases call)
    (auto simp: CacheGet_def CacheSet_def CacheDelete_def CacheFlushAll_def CacheClose_def GetResizedImage_def SetResizedImage_def
      get_done_def op_done_def emit_def Let_def split: prod.splits sum.splits)

lemma perform_all_events: "list_all ascii_event (rc_events c) \<Longrightarrow> list_all ascii_event (rc_events (perform_all r calls c))"
  by (induction calls arbitrary: c) (simp_all add: perform_events)

lemma fits_cache: "list_all ascii_event evs \<Longrightarrow> list_all fits (concat (map cache_samples evs))"
proof (induction evs)
  case (Cons e evs)
  then have "list_all fits (cache_samples e)" by (cases e) (simp_all add: fits_simps)
  with Cons show ?case by simp
qed simp

lemma ascii_Itoa: "ascii (Itoa n)"
proof -
  have "(of_char c :: nat) < 128" if "is_digit c" for c using that by (auto simp: is_digit_def)
  then have "ascii (decimal m)" for m using decimal_digits [of _ m] by (auto simp: ascii_def list_all_iff)
  then show ?thesis by (auto simp: Itoa_def ascii_def)
qed

text \<open>
  Property C39.  Recording does not panic.  Every sample that a request, a health check, any history of cache calls, a job,
  a batch or a circuit breaker records names a registered collector, gives it as many label values as it
  declares, all of them in UTF-8, and an amount its kind takes: counters are only ever moved up, and
  only gauges are set or moved down.  The names that come from elsewhere, the method and the route
  of a request and the names of services and breakers, have to be ASCII for that.
\<close>

lemma metrics_recorded:
  assumes "PrometheusMiddleware method next u = (chainErr, labels, u')" and "ascii method"
    and "\<forall>err route status. fst (next u) = (err, route, status) \<longrightarrow> ascii route" and "ascii service" and "ascii breaker"
  shows "list_all fits (request_samples labels @ health_samples service healthy now @
     concat (map cache_samples (rc_events (perform_all r calls (new_cache v)))) @
     job_samples job maxRetries queued w @ batch_samples processed pending @ breaker_samples breaker cb)"
proof -
  have "list_all fits (request_samples labels)"
    using assms(1-3) by (auto simp: PrometheusMiddleware_def request_samples_def fits_simps ascii_Itoa split: prod.splits)
  moreover have "list_all fits (health_samples service healthy now)" using assms(4) by (simp add: health_samples_def fits_simps)
  moreover have "list_all fits (concat (map cache_samples (rc_events (perform_all r calls (new_cache v)))))"
    by (intro fits_cache perform_all_events) (simp add: new_cache_def)
  moreover have "list_all fits (breaker_samples breaker cb)" using assms(5) by (simp add: breaker_samples_def fits_simps)
  ultimately show ?thesis by (simp add: fits_job fits_batch)
qed

lemma metrics_recorded_witness:
  "list_all fits (request_samples (''GET'', ''/:bucket/*'', ''404''))"
proof -
  have ascii: "ascii ''GET''" "ascii ''/:bucket/*''" "ascii ''minio''" by code_simp+
  have "Itoa (int 404) = ''404''" by code_simp
  then have "PrometheusMiddleware ''GET'' (\<lambda>u :: unit. ((None, ''/:bucket/*'', 404), u)) () = (None, (''GET'', ''/:bucket/*'', ''404''), ())"
    by (simp add: PrometheusMiddleware_def)
  from metrics_recorded [OF this ascii(1) _ ascii(3) ascii(3), of True 0 mem_redis "[]" Map.empty
      "\<lparr> jb_ID = ''j'', jb_Task = flaky_task \<rparr>" 3 1 0 "[] :: unit BatchItem list" 0] ascii(2)
  show ?thesis by simp
qed

abbreviation of_var :: "string \<Rightarrow> sample list \<Rightarrow> sample list" where
  "of_var var \<equiv> filter (\<lambda>s. fst s = var)"

lemma task_samples_count:
  assumes "retries \<le> maxRetries" and "run_task task maxRetries retries err calls w = (err', calls', w')"
  shows "calls' = calls + length (of_var ''WorkerJobRetries'' (task_samples task maxRetries retries w)) + (if err' = None then 1 else 0) \<and>
    of_var ''WorkerJobProcessingDuration'' (task_samples task maxRetries retries w) =
      [(''WorkerJobProcessingDuration'', [if err' = None then ''success'' else ''failure''], Observed)]"
  using assms
proof (induction task maxRetries retries w arbitrary: err calls rule: task_samples.induct)
  case (1 task maxRetries retries w)
  obtain e w1 where t: "task w = (e, w1)" by fastforce
  show ?case
  proof (cases e)
    case None
    then show ?thesis using "1.prems" t by (auto simp: task_samples.simps [of task _ retries] run_task.simps [of task _ retries])
  next
    case (Some x)
    show ?thesis
    proof (cases "retries + 1 \<le> maxRetries")
      case True
      have "run_task task maxRetries (retries + 1) (Some x) (Suc calls) w1 = (err', calls', w')"
        using "1.prems" t Some by (simp add: run_task.simps [of task _ retries])
      note ih = "1.IH" [OF "1.prems"(1) t [symmetric] Some True True this]
      show ?thesis using ih "1.prems"(1) t Some True by (simp add: task_samples.simps [of task _ retries])
    next
      case False
      then show ?thesis using "1.prems" t Some
        by (auto simp: task_samples.simps [of task _ retries] run_task.simps [of task _ retries] run_task.simps [of task _ "retries + 1"])
    qed
  qed
qed

text \<open>
  The job metrics follow the job.  A job records one duration, labelled with its outcome, and the retry
  counter moves once per failed call of the task, the last one included: a job that fails for good counts
  one retry more than were made.
\<close>

lemma job_metrics_follow_outcome:
  assumes "0 \<le> maxRetries" and "runJob job maxRetries w = (err, calls, w')"
  shows "length (of_var ''WorkerJobRetries'' (job_samples job maxRetries queued w)) = (if err = None then calls - 1 else calls) \<and>
    of_var ''WorkerJobProcessingDuration'' (job_samples job maxRetries queued w) =
      [(''WorkerJobProcessingDuration'', [if err = None then ''success'' else ''failure''], Observed)]"
  using task_samples_count [of 0 maxRetries "jb_Task job" None 0 w err calls w'] assms by (simp add: runJob_def job_samples_def)

lemma job_metrics_follow_outcome_witness:
  "let job = \<lparr> jb_ID = ''a'', jb_Task = \<lambda>n :: nat. (if n < 2 then Some RedisNil else None, n + 1) \<rparr> in
     fst (snd (runJob job 3 0)) = 3 \<and> length (of_var ''WorkerJobRetries'' (job_samples job 3 5 0)) = 2"
proof -
  let ?job = "\<lparr> jb_ID = ''a'', jb_Task = \<lambda>n :: nat. (if n < 2 then Some RedisNil else None, n + 1) \<rparr>"
  have "runJob ?job 3 0 = (None, 3, 3)" by (simp add: runJob_def run_task.simps)
  then show ?thesis using job_metrics_follow_outcome [of 3 ?job 0 None 3 3 5] by (simp add: Let_def)
qed

end
