(* ===== verification/Spec2Isabelle.thy ===== *)
theory Spec2Isabelle
  imports Retention Backfill Restore Access_Control Circuit_Breaker Worker_Pool Batch_Processor
    Archive_Handler Image_Handler Glacier Cache Rate_Limiter Monitoring Server Metrics File_Helpers
begin

text \<open>
  A verification development for the CDN service: an HTTP service in Go that stores uploaded files in
  MinIO, resizes images on the way out, and moves or copies objects to an S3 archive, with two command
  line tools that fill and empty the archive.

  \<^bold>\<open>How the program is put together.\<close>  \<open>cmd/main.go\<close> reads the environment, checks the general token, loads the
  bucket-scoped tokens and wires clients, services, handlers, limiters and routes.  A request passes the
  limiter and the gate of its route (\<open>service/principal.go\<close>, \<open>cmd/main.go\<close>), is reconciled with the bucket it
  names (\<open>handler/bucket_context.go\<close>) and reaches a handler of \<open>handler/\<close>.  The handlers read and write the
  object store, the archive (\<open>service/archive.go\<close> over \<open>service/aws.go\<close>) and the image library
  (\<open>service/imagick.go\<close>); long work goes through the worker pool.  Two movers work over the same store and archive:
  \<open>service/tiering.go\<close>, driven by requests and by the tools, and the sweep of \<open>service/retention.go\<close>, which
  deletes old local objects that the archive verifiably holds.

  \<^bold>\<open>Conventions.\<close>  State is passed explicitly: an operation takes the world (or the record of its component) and
  returns it beside its answer.  Errors are values of \<open>gerror\<close>, in a sum when there is a result.  Whatever is
  not in the repository (MinIO, the S3 and Glacier SDK, Redis, ImageMagick, the host, the parsers of URLs,
  addresses, times and JSON, SHA-256, content sniffing) is a record of functions or a function that the
  definitions take as an argument; what the code relies on is stated as the assumptions of a locale or of a
  theorem, and a concrete instance in memory shows that it can hold.  Integers with a width are words where
  the width matters; durations are 64-bit words and points in time integers, in nanoseconds; \<open>float64\<close> is
  rounding to 53 bits of exact rationals.  Every definition that models code is executable unless it takes such an
  argument; predicates that only state a property need not be.

  \<^bold>\<open>The theories.\<close>

  \<^item> \<open>CDN_Prelude\<close>: errors, results, byte strings, readers, and the lemma collections \<open>gostr\<close>, \<open>tier_defs\<close>, \<open>counter_simps\<close>.
    \<open>Go_Strings\<close>: the functions of \<open>strings\<close>, \<open>strconv\<close> and \<open>unicode/utf8\<close> the code uses.  \<open>Go_Floats\<close>: \<open>float64\<close>, with the
    bounds rounding keeps.
  \<^item> \<open>Env_Config\<close>: \<open>pkg/config/config.go\<close>.  \<open>Bucket_Tokens\<close>: \<open>pkg/config/tokens.go\<close>, \<open>pkg/bucket/name.go\<close>.
    \<open>Access_Control\<close>: \<open>service/principal.go\<close>, the token functions of \<open>service/util.go\<close>, the two middlewares and the
    route table of \<open>cmd/main.go\<close>, \<open>handler/bucket_context.go\<close>, \<open>pkg/audit/audit.go\<close>, and the keys of the limiter.
  \<^item> \<open>Backends\<close>: the interfaces of the S3 SDK, of an archive and of an object store, and the locales with their laws;
    \<open>Memory_Backend\<close>: instances in memory.  \<open>Archive_Tier\<close>: \<open>service/archive.go\<close> and the S3 part of \<open>service/aws.go\<close>.
    \<open>Tiering\<close>: \<open>service/tiering.go\<close>.  \<open>Retention\<close>: \<open>service/retention.go\<close>.  \<open>Backfill\<close>, \<open>Restore\<close>: the two tools under \<open>cmd/\<close>.
  \<^item> \<open>Object_Names\<close>, \<open>File_Helpers\<close>: names, keys, requested sizes and helpers of \<open>service/util.go\<close>.  \<open>File_Validation\<close>: \<open>pkg/validator/file.go\<close>,
    \<open>pkg/validator/url.go\<close> and \<open>pkg/filetype/filetype.go\<close>.  \<open>Image_Service\<close>: \<open>service/imagick.go\<close>.  \<open>Image_Handler\<close>:
    \<open>handler/image.go\<close>.  \<open>Archive_Handler\<close>: \<open>handler/archive.go\<close>.  \<open>Glacier\<close>: \<open>handler/aws.go\<close> and the Glacier part of
    \<open>service/aws.go\<close>.
  \<^item> \<open>Circuit_Breaker\<close>, \<open>Worker_Pool\<close>, \<open>Batch_Processor\<close>: the packages of these names under \<open>pkg/\<close>.
  \<^item> \<open>Cache\<close>: \<open>service/cache.go\<close>.  \<open>Rate_Limiter\<close>: \<open>pkg/middleware/\<close>.  \<open>Monitoring\<close>: \<open>handler/minio.go\<close>, \<open>handler/health.go\<close>,
    \<open>service/stats.go\<close>, \<open>handler/websocket.go\<close> and the request metrics.  \<open>Metrics\<close>: \<open>pkg/observability/metrics.go\<close> and
    the samples all components record.  \<open>Server\<close>: start, reload and shutdown of \<open>cmd/main.go\<close>, and \<open>service/minio.go\<close>.

  \<^bold>\<open>Interfaces.\<close>  \<open>s3_service\<close>, \<open>cold_archive\<close>, \<open>hot_store\<close> and \<open>two_tiers\<close> (\<open>Backends\<close>) are the contracts of the SDK, of an
  archive, of an object store and of both together.  \<open>archived_s3\<close> shows that the archive of the code keeps
  the contract of a cold archive over any SDK that keeps its own; \<open>deployment\<close> and \<open>image_service\<close> build on it.
  \<open>key_value\<close> and \<open>cache_redis\<close> (\<open>Cache\<close>) do the same for the cache over Redis.  All are interpreted on the code's
  definitions over the instances in memory.

  \<^bold>\<open>What is shown.\<close>

  \<^item> No data is lost: evicting, sweeping and restoring leave every object in one of the two tiers, of the same length,
    in any interleaving of the listing and the workers of a sweep; the sweep terminates, counts every object
    once, and its sequential form is one of its runs.  Uploads store the bytes that were posted and checked in both
    tiers (or, when reading them broke off, unchecked what is left of them), reads serve what is stored, archive
    keys of different buckets never meet, and the tools handle every object once.
  \<^item> Nobody reaches what a credential does not cover: from the start of the process to the gate of every route, for
    scoped deletes and archive requests down to the objects touched, for local download paths and for fetched
    URLs; the counters of the limiter are kept apart; nothing executable is served inline.
  \<^item> The concurrent parts keep their invariants as step relations (\<open>sweep_step\<close>, \<open>pool_step\<close>, \<open>batch_step\<close>, \<open>breaker_step\<close>,
    \<open>slot_step\<close>, \<open>download_step\<close>, \<open>shutdown_step\<close>): jobs and items are neither lost nor done twice, decodes and calls stay
    under their limits, a download only moves along its life cycle and the code that runs in the pool
    refines that.  \<open>pool_step\<close> has a step for each of the two selects of \<open>Submit\<close> and for each attempt of a job, and
    says who takes it, so that a worker can be shown to leave a stopped pool whatever the callers do.
  \<^item> Numbers stay in bounds: sizes after resizing and optimizing, rates as percentages, the window of recent errors.
  \<^item> The cache and the metrics tell the truth about what happened; the health check says exactly what the core does.
  \<^item> What does not hold is shown as well, by theorems that exhibit it: the limiter that is left out, the shutdown that
    hangs, the reload without checks, deletes that leave the archive, uploads that cannot be read back.

  \<^bold>\<open>Bounds and fuel.\<close>  Loops over lists are structural; the retry loops of the pool and of the batch processor decrease
  the retries left; a fetch follows the redirects of a list that the policy cuts after two; a client is
  made with three pings and the limiter with three clients, as the constants of the code have it.  No
  definition takes fuel.  Statements about \<open>float64\<close> ask for values below 2^53, where integers are exact; the
  counters of the cache are exact for as many calls.

  \<^bold>\<open>Not modelled.\<close>  Logger and tracer (configuration of libraries); struct validation (one call into a library that
  nothing calls); the web framework with its limiter, CORS, body limits and static pages; the wands and the
  initialisation of ImageMagick; what the tools print; pauses and the time operations take (a timeout may come at
  any moment); the further addresses a dialer may try for a name.
  Batches that run a few at a time are modelled in the order of the request, one at a time.  The watcher of the
  environment file starts without fail: that it ends the process when its directory is missing is left out.
\<close>

end
